(* ===== verification/Prelude.thy ===== *)
theory Prelude
  imports Main "HOL-Library.Sublist"
begin

text \<open>
  Shared vocabulary of the development: the parts of Go's language and standard library the
  modelled code uses.  A Go \<^verbatim>\<open>string\<close> is a byte sequence, modelled as an Isabelle \<^typ>\<open>string\<close>
  (a list of 8-bit characters); \<^verbatim>\<open>strings.HasPrefix\<close>, \<^verbatim>\<open>HasSuffix\<close>, \<^verbatim>\<open>Contains\<close>, \<^verbatim>\<open>Index\<close>,
  \<^verbatim>\<open>TrimSpace\<close>, \<^verbatim>\<open>TrimPrefix\<close>, \<^verbatim>\<open>Split\<close> and \<^verbatim>\<open>ToLower\<close> are executable functions on it.
  \<^verbatim>\<open>TrimSpace\<close> and \<^verbatim>\<open>ToLower\<close> act on the ASCII range, which is all the modelled call sites are
  given.  Errors are values of \<open>go_error\<close>, with the wrapping structure that \<^verbatim>\<open>errors.Is\<close> walks;
  a call that may fail returns a value of a sum type, \<open>Inl\<close> the error.  Integers are printed and read
  with \<^verbatim>\<open>%d\<close>.
\<close>

section \<open>Proof collections\<close>

named_theorems go_string "characterisations of the string functions by the library's list orders"
named_theorems redis_view "what each Redis command does to the documented keyspace"
named_theorems world_defs "definitions of the client-side calls on the world"

section \<open>Strings\<close>

fun hasPrefix :: "string \<Rightarrow> string \<Rightarrow> bool" where
  "hasPrefix s [] = True"
| "hasPrefix [] (p # ps) = False"
| "hasPrefix (c # s) (p # ps) = (c = p \<and> hasPrefix s ps)"

definition hasSuffix :: "string \<Rightarrow> string \<Rightarrow> bool" where
  "hasSuffix s p = hasPrefix (rev s) (rev p)"

fun str_contains :: "string \<Rightarrow> string \<Rightarrow> bool" where
  "str_contains [] sub = (sub = [])"
| "str_contains (c # s) sub = (hasPrefix (c # s) sub \<or> str_contains s sub)"

text \<open>\<^verbatim>\<open>strings.Index\<close>: the least position at which \<open>sub\<close> occurs; \<^verbatim>\<open>-1\<close> is \<^const>\<open>None\<close>.\<close>

fun str_index :: "string \<Rightarrow> string \<Rightarrow> nat option" where
  "str_index [] sub = (if sub = [] then Some 0 else None)"
| "str_index (c # s) sub =
     (if hasPrefix (c # s) sub then Some 0 else map_option Suc (str_index s sub))"

text \<open>\<^verbatim>\<open>strings.LastIndex\<close> for a one-character needle.\<close>

fun last_index_char :: "string \<Rightarrow> char \<Rightarrow> nat option" where
  "last_index_char [] c = None"
| "last_index_char (x # s) c =
     (case last_index_char s c of
        Some i \<Rightarrow> Some (Suc i)
      | None \<Rightarrow> if x = c then Some 0 else None)"

definition trimPrefix :: "string \<Rightarrow> string \<Rightarrow> string" where
  "trimPrefix s p = (if hasPrefix s p then drop (length p) s else s)"

definition trimSuffix :: "string \<Rightarrow> string \<Rightarrow> string" where
  "trimSuffix s p = (if hasSuffix s p then take (length s - length p) s else s)"

definition is_space :: "char \<Rightarrow> bool" where
  "is_space c = (let n = (of_char c :: nat) in (9 \<le> n \<and> n \<le> 13) \<or> n = 32)"

definition trimLeft :: "string \<Rightarrow> string" where
  "trimLeft s = dropWhile is_space s"

text \<open>
  \<^verbatim>\<open>strings.TrimSpace\<close> removes the white space of Unicode, whose characters are given here by their
  encodings.  A string that ends in such an encoding has it as its last character, so the right end
  is trimmed by the reversed encodings.
\<close>

definition space_seqs :: "string list" where
  "space_seqs =
     [[CHR 0x09], [CHR 0x0A], [CHR 0x0B], [CHR 0x0C], [CHR 0x0D], [CHR '' ''],
      [CHR 0xC2, CHR 0x85], [CHR 0xC2, CHR 0xA0], [CHR 0xE1, CHR 0x9A, CHR 0x80],
      [CHR 0xE2, CHR 0x80, CHR 0xA8], [CHR 0xE2, CHR 0x80, CHR 0xA9], [CHR 0xE2, CHR 0x80, CHR 0xAF],
      [CHR 0xE2, CHR 0x81, CHR 0x9F], [CHR 0xE3, CHR 0x80, CHR 0x80]]
     @ map (\<lambda>i. [CHR 0xE2, CHR 0x80, char_of (0x80 + i :: nat)]) [0..<11]"

lemma strip_seqs_shorter:
  assumes "find (\<lambda>p. p \<noteq> [] \<and> hasPrefix s p) seqs = Some p"
  shows "length (drop (length p) s) < length s"
proof -
  have "p \<noteq> []" "hasPrefix s p" using assms by (auto simp: find_Some_iff)
  then show ?thesis by (cases s; cases p) auto
qed

function strip_seqs :: "string list \<Rightarrow> string \<Rightarrow> string" where
  "strip_seqs seqs s =
     (case find (\<lambda>p. p \<noteq> [] \<and> hasPrefix s p) seqs of
        Some p \<Rightarrow> strip_seqs seqs (drop (length p) s)
      | None \<Rightarrow> s)"
  by auto

termination
  by (relation "measure (\<lambda>(seqs, s). length s)") (auto dest: strip_seqs_shorter)

declare strip_seqs.simps [simp del]

definition trimSpace :: "string \<Rightarrow> string" where
  "trimSpace s = rev (strip_seqs (map rev space_seqs) (rev (strip_seqs space_seqs s)))"

definition lower_char :: "char \<Rightarrow> char" where
  "lower_char c = (let n = (of_char c :: nat) in if 65 \<le> n \<and> n \<le> 90 then char_of (n + 32) else c)"

text \<open>
  \<^verbatim>\<open>strings.ToLower\<close>, as far as ASCII characters of the result are concerned: the only characters
  outside ASCII with a lower case in ASCII are U+0130 (i) and U+212A (k).  The code compares its result
  with ASCII strings only.
\<close>

fun toLower :: "string \<Rightarrow> string" where
  "toLower [] = []"
| "toLower (c # r) =
     (if hasPrefix (c # r) [CHR 0xC4, CHR 0xB0] then CHR ''i'' # toLower (drop 1 r)
      else if hasPrefix (c # r) [CHR 0xE2, CHR 0x84, CHR 0xAA] then CHR ''k'' # toLower (drop 2 r)
      else lower_char c # toLower r)"

text \<open>\<^verbatim>\<open>strings.Split\<close> on a one-character separator, and \<^verbatim>\<open>strings.SplitN\<close> with at most \<open>n\<close> parts.\<close>

fun str_split :: "string \<Rightarrow> char \<Rightarrow> string list" where
  "str_split [] c = [[]]"
| "str_split (x # s) c =
     (if x = c then [] # str_split s c
      else (case str_split s c of [] \<Rightarrow> [[x]] | p # ps \<Rightarrow> (x # p) # ps))"

fun str_splitN :: "nat \<Rightarrow> string \<Rightarrow> char \<Rightarrow> string list" where
  "str_splitN 0 s c = []"
| "str_splitN (Suc 0) s c = [s]"
| "str_splitN (Suc (Suc n)) s c =
     (case dropWhile (\<lambda>x. x \<noteq> c) s of
        [] \<Rightarrow> [s]
      | _ # rest \<Rightarrow> takeWhile (\<lambda>x. x \<noteq> c) s # str_splitN (Suc n) rest c)"

fun str_join :: "string \<Rightarrow> string list \<Rightarrow> string" where
  "str_join sep [] = []"
| "str_join sep [p] = p"
| "str_join sep (p # q # ps) = p @ sep @ str_join sep (q # ps)"

text \<open>\<^verbatim>\<open>%q\<close> of a string with no character that needs an escape, as storage keys and paths are; the text matters in messages only.\<close>

definition quoted :: "string \<Rightarrow> string" where
  "quoted s = CHR 0x22 # s @ [CHR 0x22]"

lemma hasPrefix_iff [go_string]: "hasPrefix s p \<longleftrightarrow> prefix p s"
  by (induction s p rule: hasPrefix.induct) auto

lemma hasSuffix_iff [go_string]: "hasSuffix s p \<longleftrightarrow> suffix p s"
  by (simp add: hasSuffix_def hasPrefix_iff suffix_to_prefix)

lemma str_contains_iff [go_string]: "str_contains s sub \<longleftrightarrow> sublist sub s"
  by (induction s) (auto simp: hasPrefix_iff sublist_Cons_right)

lemma hasPrefix_append [simp]: "hasPrefix (p @ s) p"
  by (simp add: hasPrefix_iff)

lemma trimPrefix_append [simp]: "trimPrefix (p @ s) p = s"
  by (simp add: trimPrefix_def)

lemma str_index_Some_append:
  "str_index s sub = Some i \<Longrightarrow> \<exists>pre post. s = pre @ sub @ post \<and> length pre = i"
proof (induction s arbitrary: i)
  case Nil
  then show ?case by (auto split: if_splits)
next
  case (Cons c s)
  show ?case
  proof (cases "hasPrefix (c # s) sub")
    case True
    with Cons.prems show ?thesis by (auto simp: hasPrefix_iff prefix_def)
  next
    case False
    with Cons.prems obtain j where j: "str_index s sub = Some j" and i: "i = Suc j" by auto
    from Cons.IH [OF j] obtain pre post where "s = pre @ sub @ post" "length pre = j" by blast
    with i have "c # s = (c # pre) @ sub @ post \<and> length (c # pre) = i" by simp
    then show ?thesis by blast
  qed
qed

lemma str_index_None [go_string]: "str_index s sub = None \<longleftrightarrow> \<not> sublist sub s"
  by (induction s) (auto simp: hasPrefix_iff sublist_Cons_right)

lemma str_split_nonempty [simp]: "str_split s c \<noteq> []"
  by (induction s) (auto split: list.splits)

lemma str_join_split: "str_join [c] (str_split s c) = s"
proof (induction s)
  case Nil
  show ?case by simp
next
  case (Cons x s)
  obtain p ps where ps: "str_split s c = p # ps"
    by (cases "str_split s c") auto
  show ?case
  proof (cases "x = c")
    case True
    with Cons ps show ?thesis by simp
  next
    case False
    with Cons ps show ?thesis by (cases ps) auto
  qed
qed

lemma str_split_no_sep: "p \<in> set (str_split s c) \<Longrightarrow> c \<notin> set p"
proof (induction s arbitrary: p)
  case Nil
  then show ?case by simp
next
  case (Cons x s)
  obtain q qs where "str_split s c = q # qs"
    by (cases "str_split s c") auto
  with Cons show ?case by (auto split: if_splits)
qed

lemma strip_seqs_suffix: "suffix (strip_seqs seqs s) s"
proof (induction seqs s rule: strip_seqs.induct)
  case (1 seqs s)
  show ?case
  proof (cases "find (\<lambda>p. p \<noteq> [] \<and> hasPrefix s p) seqs")
    case None
    then show ?thesis by (simp add: strip_seqs.simps [of seqs s])
  next
    case (Some p)
    then have "suffix (strip_seqs seqs (drop (length p) s)) (drop (length p) s)" by (rule 1)
    then have "suffix (strip_seqs seqs (drop (length p) s)) s"
      using suffix_drop suffix_order.trans by blast
    with Some show ?thesis by (simp add: strip_seqs.simps [of seqs s])
  qed
qed

lemma strip_seqs_done: "find (\<lambda>p. p \<noteq> [] \<and> hasPrefix (strip_seqs seqs s) p) seqs = None"
proof (induction seqs s rule: strip_seqs.induct)
  case (1 seqs s)
  then show ?case
    by (cases "find (\<lambda>p. p \<noteq> [] \<and> hasPrefix s p) seqs") (simp_all add: strip_seqs.simps [of seqs s])
qed

lemma strip_seqs_keep: "find (\<lambda>p. p \<noteq> [] \<and> hasPrefix s p) seqs = None \<Longrightarrow> strip_seqs seqs s = s"
  by (simp add: strip_seqs.simps [of seqs s])

lemma trimSpace_sublist: "sublist (trimSpace s) s"
proof -
  have "prefix (trimSpace s) (strip_seqs space_seqs s)"
    unfolding trimSpace_def using strip_seqs_suffix by (metis rev_rev_ident suffix_to_prefix)
  then show ?thesis
    using strip_seqs_suffix by (metis prefix_imp_sublist sublist_order.order.trans suffix_imp_sublist)
qed

lemma trimSpace_idem [simp]: "trimSpace (trimSpace s) = trimSpace s"
proof -
  let ?t = "strip_seqs space_seqs s" and ?u = "strip_seqs (map rev space_seqs) (rev (strip_seqs space_seqs s))"
  have "suffix ?u (rev ?t)" by (rule strip_seqs_suffix)
  then have pre: "prefix (rev ?u) ?t" by (simp add: suffix_to_prefix)
  have "\<not> (p \<noteq> [] \<and> hasPrefix (rev ?u) p)" if "p \<in> set space_seqs" for p
    using strip_seqs_done [of space_seqs s] that pre
    by (auto simp: find_None_iff hasPrefix_iff dest: prefix_order.trans)
  then have "strip_seqs space_seqs (rev ?u) = rev ?u"
    by (intro strip_seqs_keep) (auto simp: find_None_iff)
  moreover have "strip_seqs (map rev space_seqs) ?u = ?u"
    by (rule strip_seqs_keep [OF strip_seqs_done])
  ultimately show ?thesis by (simp add: trimSpace_def)
qed

lemma toLower_ascii: "list_all (\<lambda>c. (of_char c :: nat) < 128) s \<Longrightarrow> toLower s = map lower_char s"
  by (induction s) auto

lemma hasPrefix_append_ascii:
  "ys = [] \<or> (of_char (hd ys) :: nat) < 128 \<Longrightarrow> list_all (\<lambda>c. 128 \<le> (of_char c :: nat)) p \<Longrightarrow>
     hasPrefix (xs @ ys) p = hasPrefix xs p"
proof (induction xs p rule: hasPrefix.induct)
  case (2 c p)
  then show ?case by (cases ys) auto
qed auto

lemma toLower_append: "ys = [] \<or> (of_char (hd ys) :: nat) < 128 \<Longrightarrow> toLower (xs @ ys) = toLower xs @ toLower ys"
proof (induction xs rule: toLower.induct)
  case (2 c r)
  note pre = hasPrefix_append_ascii [OF "2.prems", of "[CHR 0xC4, CHR 0xB0]" "c # r"]
    hasPrefix_append_ascii [OF "2.prems", of "[CHR 0xE2, CHR 0x84, CHR 0xAA]" "c # r"]
  have "hasPrefix (c # r) [CHR 0xC4, CHR 0xB0] \<Longrightarrow> drop 1 (r @ ys) = drop 1 r @ ys"
    "hasPrefix (c # r) [CHR 0xE2, CHR 0x84, CHR 0xAA] \<Longrightarrow> drop 2 (r @ ys) = drop 2 r @ ys"
    by (auto simp: hasPrefix_iff prefix_def)
  with pre 2 show ?case by (simp del: hasPrefix.simps)
qed simp

definition printable :: "char \<Rightarrow> bool" where
  "printable c \<longleftrightarrow> 32 < (of_char c :: nat) \<and> (of_char c :: nat) < 128"

lemma strip_seqs_printable:
  assumes "list_all (\<lambda>p. p = [] \<or> \<not> printable (hd p)) seqs" "s = [] \<or> printable (hd s)"
  shows "strip_seqs seqs s = s"
proof (rule strip_seqs_keep)
  have "\<not> hasPrefix s p" if "p \<in> set seqs" "p \<noteq> []" for p
    using assms that by (cases s; cases p) (auto simp: list_all_iff)
  then show "find (\<lambda>p. p \<noteq> [] \<and> hasPrefix s p) seqs = None" by (auto simp: find_None_iff)
qed

lemma space_seqs_unprintable:
  "list_all (\<lambda>p. p = [] \<or> \<not> printable (hd p)) space_seqs" "list_all (\<lambda>p. p = [] \<or> \<not> printable (hd p)) (map rev space_seqs)"
  by code_simp+

lemma trimSpace_printable: "s = [] \<or> printable (hd s) \<and> printable (last s) \<Longrightarrow> trimSpace s = s"
  by (auto simp: trimSpace_def strip_seqs_printable space_seqs_unprintable hd_rev)

section \<open>Decimal integers\<close>

definition digit_char :: "nat \<Rightarrow> char" where
  "digit_char d = char_of (48 + d)"

definition is_digit :: "char \<Rightarrow> bool" where
  "is_digit c = (let n = (of_char c :: nat) in 48 \<le> n \<and> n \<le> 57)"

definition digit_val :: "char \<Rightarrow> nat" where
  "digit_val c = of_char c - 48"

fun show_nat :: "nat \<Rightarrow> string" where
  "show_nat n = (if n < 10 then [digit_char n] else show_nat (n div 10) @ [digit_char (n mod 10)])"

declare show_nat.simps [simp del]

definition show_int :: "int \<Rightarrow> string" where
  "show_int i = (if i < 0 then CHR ''-'' # show_nat (nat (- i)) else show_nat (nat i))"

definition digits_val :: "string \<Rightarrow> nat" where
  "digits_val ds = foldl (\<lambda>a c. 10 * a + digit_val c) 0 ds"

text \<open>
  \<^verbatim>\<open>strconv.Atoi\<close>: an optional sign and then only digits, at least one, in the range of a 64-bit
  integer.
\<close>

definition in_int64 :: "int \<Rightarrow> bool" where
  "in_int64 i \<longleftrightarrow> - (2 ^ 63) \<le> i \<and> i < 2 ^ 63"

definition atoi :: "string \<Rightarrow> int option" where
  "atoi s =
     (let neg = hasPrefix s ''-'';
          ds = (if hasPrefix s ''-'' \<or> hasPrefix s ''+'' then tl s else s);
          v = (if neg then - int (digits_val ds) else int (digits_val ds))
      in if ds \<noteq> [] \<and> list_all is_digit ds \<and> in_int64 v then Some v else None)"

text \<open>
  \<^verbatim>\<open>fmt.Sscanf(s, "%d", &v)\<close>: blanks are skipped, then a sign, then the longest run of digits;
  what follows the digits is ignored.
\<close>

definition sscanf_d :: "string \<Rightarrow> int option" where
  "sscanf_d s =
     (let t = trimLeft s;
          neg = hasPrefix t ''-'';
          u = (if hasPrefix t ''-'' \<or> hasPrefix t ''+'' then tl t else t);
          ds = takeWhile is_digit u;
          v = (if neg then - int (digits_val ds) else int (digits_val ds))
      in if ds \<noteq> [] \<and> in_int64 v then Some v else None)"

lemma of_char_digit_char [simp]: "d < 10 \<Longrightarrow> (of_char (digit_char d) :: nat) = 48 + d"
  by (simp add: digit_char_def of_char_of)

lemma is_digit_digit_char [simp]: "d < 10 \<Longrightarrow> is_digit (digit_char d)"
  by (simp add: is_digit_def Let_def)

lemma digit_val_digit_char [simp]: "d < 10 \<Longrightarrow> digit_val (digit_char d) = d"
  by (simp add: digit_val_def)

lemma is_digit_not_space [simp]: "is_digit c \<Longrightarrow> \<not> is_space c"
  by (auto simp: is_digit_def is_space_def Let_def)

lemma is_digit_not_minus: "is_digit c \<Longrightarrow> c \<noteq> CHR ''-''" "is_digit c \<Longrightarrow> c \<noteq> CHR ''+''"
  by (auto simp: is_digit_def)

lemma show_nat_nonempty [simp]: "show_nat n \<noteq> []"
  by (subst show_nat.simps) simp

lemma show_nat_digits: "list_all is_digit (show_nat n)"
proof (induction n rule: show_nat.induct)
  case (1 n)
  then show ?case by (subst show_nat.simps) simp
qed

lemma digits_val_show_nat [simp]: "digits_val (show_nat n) = n"
proof (induction n rule: show_nat.induct)
  case (1 n)
  show ?case
  proof (cases "n < 10")
    case True
    then show ?thesis by (simp add: show_nat.simps [of n] digits_val_def)
  next
    case False
    with 1 have "digits_val (show_nat (n div 10)) = n div 10" by simp
    with False show ?thesis by (simp add: show_nat.simps [of n] digits_val_def)
  qed
qed

lemma show_nat_eq_iff [simp]: "show_nat m = show_nat n \<longleftrightarrow> m = n"
  by (metis digits_val_show_nat)

lemma show_nat_hd: "\<exists>c cs. show_nat n = c # cs \<and> is_digit c"
  using show_nat_digits [of n] by (cases "show_nat n") auto

lemma show_nat_no_leading_zero: "0 < n \<Longrightarrow> hd (show_nat n) \<noteq> CHR ''0''"
proof (induction n rule: show_nat.induct)
  case (1 n)
  show ?case
  proof (cases "n < 10")
    case True
    then have "(of_char (digit_char n) :: nat) = 48 + n" by simp
    moreover have "(of_char (CHR ''0'') :: nat) = 48" by simp
    ultimately have "digit_char n \<noteq> CHR ''0''" using 1(2) by (metis add_cancel_right_right less_numeral_extra(3))
    with True show ?thesis by (simp add: show_nat.simps [of n])
  next
    case False
    with 1 have "hd (show_nat (n div 10)) \<noteq> CHR ''0''" by simp
    with False show ?thesis by (simp add: show_nat.simps [of n])
  qed
qed

lemma takeWhile_show_nat [simp]: "takeWhile is_digit (show_nat n) = show_nat n"
  using show_nat_digits [of n] by (simp add: takeWhile_eq_all_conv list_all_iff)

lemma show_nat_no_sign [simp]: "\<not> hasPrefix (show_nat n) ''-''" "\<not> hasPrefix (show_nat n) ''+''"
  using show_nat_hd [of n] by (auto simp: is_digit_def)

lemma trimLeft_show_nat [simp]: "trimLeft (show_nat n) = show_nat n"
  using show_nat_hd [of n] by (auto simp: trimLeft_def)

lemma sscanf_show_int [simp]: "in_int64 i \<Longrightarrow> sscanf_d (show_int i) = Some i"
proof (cases "i < 0")
  case True
  assume "in_int64 i"
  moreover have "trimLeft (CHR ''-'' # show_nat (nat (- i))) = CHR ''-'' # show_nat (nat (- i))"
    by (simp add: trimLeft_def is_space_def)
  ultimately show ?thesis using True by (simp add: sscanf_d_def show_int_def)
next
  case False
  assume "in_int64 i"
  with False show ?thesis by (simp add: sscanf_d_def show_int_def)
qed

lemma atoi_show_int [simp]: "in_int64 i \<Longrightarrow> atoi (show_int i) = Some i"
  using show_nat_digits by (auto simp: atoi_def show_int_def Let_def)

lemma show_int_eq_iff [simp]: "show_int i = show_int j \<longleftrightarrow> i = j"
proof
  assume e: "show_int i = show_int j"
  have minus: "hasPrefix (show_int k) ''-'' \<longleftrightarrow> k < 0" for k by (simp add: show_int_def)
  with e have "i < 0 \<longleftrightarrow> j < 0" by metis
  with e show "i = j" by (auto simp: show_int_def split: if_splits)
qed simp

lemma show_int_nonempty [simp]: "show_int i \<noteq> []"
  by (simp add: show_int_def)

section \<open>Errors\<close>

text \<open>
  A Go error: a sentinel variable (compared by identity, here by its name), an error formatted
  with \<^verbatim>\<open>fmt.Errorf\<close> and the errors it wraps with \<^verbatim>\<open>%w\<close>, the \<^verbatim>\<open>RetryableError\<close> wrapper of
  utils/retry.go, and an error of the \<^verbatim>\<open>net\<close> packages (one that implements \<^verbatim>\<open>net.Error\<close>).
\<close>

datatype go_error =
    Sentinel string
  | Errorf string "go_error list"
  | RetryableError go_error bool
  | NetError string

fun err_msg :: "go_error \<Rightarrow> string" where
  "err_msg (Sentinel s) = s"
| "err_msg (Errorf s es) = s"
| "err_msg (RetryableError e b) = err_msg e"
| "err_msg (NetError s) = s"

text \<open>\<^verbatim>\<open>errors.Is\<close>: the target occurs in the tree of wrapped errors.\<close>

fun errors_is :: "go_error \<Rightarrow> go_error \<Rightarrow> bool" where
  "errors_is (Sentinel s) t = (t = Sentinel s)"
| "errors_is (NetError s) t = (t = NetError s)"
| "errors_is (Errorf s es) t = (t = Errorf s es \<or> list_ex (\<lambda>e. errors_is e t) es)"
| "errors_is (RetryableError e b) t = (t = RetryableError e b \<or> errors_is e t)"

text \<open>\<^verbatim>\<open>errors.As\<close> into a \<^verbatim>\<open>*RetryableError\<close>: the first such error in a pre-order walk.\<close>

fun as_retryable :: "go_error \<Rightarrow> bool option"
  and as_retryable_list :: "go_error list \<Rightarrow> bool option" where
  "as_retryable (Sentinel s) = None"
| "as_retryable (NetError s) = None"
| "as_retryable (RetryableError e b) = Some b"
| "as_retryable (Errorf s es) = as_retryable_list es"
| "as_retryable_list [] = None"
| "as_retryable_list (e # es) =
     (case as_retryable e of Some b \<Rightarrow> Some b | None \<Rightarrow> as_retryable_list es)"

lemma errors_is_wrapped [simp]: "e \<in> set es \<Longrightarrow> errors_is e t \<Longrightarrow> errors_is (Errorf s es) t"
  by (auto simp: list_ex_iff)

section \<open>Lists as Redis lists\<close>

text \<open>
  Generic facts on removing one occurrence (\<^const>\<open>remove1\<close>, what \<^verbatim>\<open>LREM key 1 v\<close> does) and on
  counting occurrences.
\<close>

lemma remove1_not_in: "count_list xs x = 0 \<Longrightarrow> remove1 x xs = xs"
  by (simp add: count_list_0_iff remove1_idem)

lemma count_list_pos_iff: "0 < count_list xs x \<longleftrightarrow> x \<in> set xs"
  by (metis count_list_0_iff gr0I less_irrefl)

lemma map_of_rev_distinct: "distinct (map fst m) \<Longrightarrow> map_of (rev m) = map_of m"
proof (rule ext)
  fix k assume d: "distinct (map fst m)"
  then have "map_of (rev m) k = Some v \<longleftrightarrow> map_of m k = Some v" for v
    by (simp add: map_of_eq_Some_iff rev_map [symmetric])
  then show "map_of (rev m) k = map_of m k"
    by (metis option.exhaust)
qed

end
