(* ===== verification/Go_Time.thy ===== *)
theory Go_Time
  imports Prelude
begin

text \<open>
  Go's \<^verbatim>\<open>time.Time\<close> as far as the job records, the worker heartbeats and the circuit breaker use
  it: a civil date and time of day with a zone offset, \<^verbatim>\<open>Format(time.RFC3339)\<close>, the strict RFC 3339
  reader behind \<^verbatim>\<open>time.Parse(time.RFC3339, s)\<close>, and the instant that \<^verbatim>\<open>time.Since\<close> compares,
  in nanoseconds.  The main fact is that parsing a formatted time gives it back up to the second.
\<close>

record go_time =
  year :: nat
  month :: nat
  day :: nat
  hour :: nat
  minute :: nat
  second :: nat
  nano :: nat
  zone :: int \<comment> \<open>offset from UTC in minutes\<close>

definition leap_year :: "nat \<Rightarrow> bool" where
  "leap_year y \<longleftrightarrow> y mod 4 = 0 \<and> (y mod 100 \<noteq> 0 \<or> y mod 400 = 0)"

definition days_in :: "nat \<Rightarrow> nat \<Rightarrow> nat" where
  "days_in m y =
     (if m = 2 then (if leap_year y then 29 else 28)
      else if m \<in> {4, 6, 9, 11} then 30 else 31)"

definition valid_time :: "go_time \<Rightarrow> bool" where
  "valid_time t \<longleftrightarrow>
     year t \<le> 9999 \<and> 1 \<le> month t \<and> month t \<le> 12 \<and> 1 \<le> day t \<and> day t \<le> days_in (month t) (year t) \<and>
     hour t \<le> 23 \<and> minute t \<le> 59 \<and> second t \<le> 59 \<and> nano t < 10 ^ 9 \<and> \<bar>zone t\<bar> < 24 * 60"

subsection \<open>Format\<close>

definition pad2 :: "nat \<Rightarrow> string" where
  "pad2 n = (if n < 100 then [digit_char (n div 10), digit_char (n mod 10)] else show_nat n)"

definition pad4 :: "nat \<Rightarrow> string" where
  "pad4 n =
     (if n < 10000
      then [digit_char (n div 1000), digit_char (n div 100 mod 10), digit_char (n div 10 mod 10),
            digit_char (n mod 10)]
      else show_nat n)"

definition format_zone :: "int \<Rightarrow> string" where
  "format_zone z =
     (if z = 0 then ''Z''
      else (if z < 0 then ''-'' else ''+'') @ pad2 (nat \<bar>z\<bar> div 60) @ '':'' @ pad2 (nat \<bar>z\<bar> mod 60))"

definition format_rfc3339 :: "go_time \<Rightarrow> string" where
  "format_rfc3339 t =
     pad4 (year t) @ ''-'' @ pad2 (month t) @ ''-'' @ pad2 (day t) @ ''T'' @ pad2 (hour t) @ '':'' @
     pad2 (minute t) @ '':'' @ pad2 (second t) @ format_zone (zone t)"

subsection \<open>Parse\<close>

definition num_in :: "string \<Rightarrow> nat \<Rightarrow> nat \<Rightarrow> nat option" where
  "num_in s lo hi =
     (if s \<noteq> [] \<and> list_all is_digit s \<and> lo \<le> digits_val s \<and> digits_val s \<le> hi
      then Some (digits_val s) else None)"

definition parse_zone :: "string \<Rightarrow> int option" where
  "parse_zone s =
     (case s of
        [z] \<Rightarrow> if z = CHR ''Z'' then Some 0 else None
      | [sg, h1, h2, c, m1, m2] \<Rightarrow>
          (case (num_in [h1, h2] 0 23, num_in [m1, m2] 0 59) of
             (Some h, Some m) \<Rightarrow>
               if c = CHR '':'' \<and> sg = CHR ''+'' then Some (int (h * 60 + m))
               else if c = CHR '':'' \<and> sg = CHR ''-'' then Some (- int (h * 60 + m))
               else None
           | _ \<Rightarrow> None)
      | _ \<Rightarrow> None)"

definition parse_frac :: "string \<Rightarrow> nat \<times> string" where
  "parse_frac s =
     (case s of
        c # d # rest \<Rightarrow>
          if c = CHR ''.'' \<and> is_digit d
          then (let ds = takeWhile is_digit (d # rest)
                in (digits_val (take 9 (ds @ replicate 9 (CHR ''0''))), dropWhile is_digit (d # rest)))
          else (0, s)
      | _ \<Rightarrow> (0, s))"

definition parse_rfc3339 :: "string \<Rightarrow> go_time option" where
  "parse_rfc3339 s =
     (case s of
        y1 # y2 # y3 # y4 # s1 # m1 # m2 # s2 # d1 # d2 # st # h1 # h2 # c1 # i1 # i2 # c2 # e1 # e2 # rest \<Rightarrow>
          (case (num_in [y1, y2, y3, y4] 0 9999, num_in [m1, m2] 1 12, num_in [h1, h2] 0 23,
                 num_in [i1, i2] 0 59, num_in [e1, e2] 0 59) of
             (Some y, Some mo, Some h, Some mi, Some se) \<Rightarrow>
               (case (num_in [d1, d2] 1 (days_in mo y), parse_frac rest) of
                  (Some d, (ns, zs)) \<Rightarrow>
                    (case parse_zone zs of
                       Some z \<Rightarrow>
                         if s1 = CHR ''-'' \<and> s2 = CHR ''-'' \<and> st = CHR ''T'' \<and> c1 = CHR '':'' \<and> c2 = CHR '':''
                         then Some \<lparr>year = y, month = mo, day = d, hour = h, minute = mi, second = se,
                                    nano = ns, zone = z\<rparr>
                         else None
                     | None \<Rightarrow> None)
                | (None, _) \<Rightarrow> None)
           | _ \<Rightarrow> None)
      | _ \<Rightarrow> None)"

subsection \<open>Instants\<close>

definition days_before_year :: "nat \<Rightarrow> nat" where
  "days_before_year y = 365 * y + (if y = 0 then 0 else (y - 1) div 4 - (y - 1) div 100 + (y - 1) div 400 + 1)"

definition day_number :: "go_time \<Rightarrow> nat" where
  "day_number t =
     days_before_year (year t) + sum_list (map (\<lambda>m. days_in m (year t)) [1..<month t]) + day t"

text \<open>Nanoseconds since 1 January 1970 UTC, which is day number 719529.\<close>

definition unix_nano :: "go_time \<Rightarrow> int" where
  "unix_nano t =
     ((((int (day_number t) - 719529) * 24 + int (hour t)) * 60 + int (minute t) - zone t) * 60 + int (second t)) * 10 ^ 9
     + int (nano t)"

definition time_since :: "go_time \<Rightarrow> go_time \<Rightarrow> int" where
  "time_since now t = unix_nano now - unix_nano t"

subsection \<open>Round trip\<close>

lemma pad2_small: "n < 100 \<Longrightarrow> pad2 n = [digit_char (n div 10), digit_char (n mod 10)]"
  by (simp add: pad2_def)

lemma pad4_small: "n \<le> 9999 \<Longrightarrow> pad4 n =
    [digit_char (n div 1000), digit_char (n div 100 mod 10), digit_char (n div 10 mod 10), digit_char (n mod 10)]"
  by (simp add: pad4_def)

lemma num_in_pad2: "n < 100 \<Longrightarrow> lo \<le> n \<Longrightarrow> n \<le> hi \<Longrightarrow>
    num_in [digit_char (n div 10), digit_char (n mod 10)] lo hi = Some n"
  by (simp add: num_in_def digits_val_def)

lemma num_in_pad4:
  assumes "n \<le> 9999"
  shows "num_in [digit_char (n div 1000), digit_char (n div 100 mod 10), digit_char (n div 10 mod 10),
            digit_char (n mod 10)] 0 9999 = Some n"
proof -
  have "n div 1000 < 10" using assms by simp
  moreover have "10 * (10 * (10 * (n div 1000) + n div 100 mod 10) + n div 10 mod 10) + n mod 10 = n"
  proof -
    have "n div 100 = n div 10 div 10" and "n div 1000 = n div 10 div 10 div 10"
      by (simp_all only: div_mult2_eq [symmetric]) simp_all
    then show ?thesis by (simp only: mult_div_mod_eq)
  qed
  ultimately show ?thesis using assms by (simp add: num_in_def digits_val_def)
qed

lemma parse_zone_signed:
  assumes "h \<le> 23" "m \<le> 59"
  shows "parse_zone (''+'' @ pad2 h @ '':'' @ pad2 m) = Some (int (h * 60 + m))"
    and "parse_zone (''-'' @ pad2 h @ '':'' @ pad2 m) = Some (- int (h * 60 + m))"
proof -
  have "num_in [digit_char (h div 10), digit_char (h mod 10)] 0 23 = Some h"
    and "num_in [digit_char (m div 10), digit_char (m mod 10)] 0 59 = Some m"
    using assms by (auto intro!: num_in_pad2)
  moreover have "h < 100" "m < 100" using assms by simp_all
  ultimately show "parse_zone (''+'' @ pad2 h @ '':'' @ pad2 m) = Some (int (h * 60 + m))"
    and "parse_zone (''-'' @ pad2 h @ '':'' @ pad2 m) = Some (- int (h * 60 + m))"
    by (simp_all add: parse_zone_def pad2_small)
qed

lemma parse_zone_format:
  assumes "\<bar>z\<bar> < 24 * 60"
  shows "parse_zone (format_zone z) = Some z"
proof (cases "z = 0")
  case True
  then show ?thesis by (simp add: parse_zone_def format_zone_def)
next
  case False
  define n where "n = nat \<bar>z\<bar>"
  have zn: "int n = \<bar>z\<bar>" by (simp add: n_def)
  with assms have "n < 24 * 60" by linarith
  then have h: "n div 60 \<le> 23" by simp
  have m: "n mod 60 \<le> 59" by (simp add: less_Suc_eq_le [symmetric])
  have split_n: "int (n div 60 * 60 + n mod 60) = \<bar>z\<bar>"
    by (simp only: div_mult_mod_eq zn)
  show ?thesis
  proof (cases "z < 0")
    case True
    then have "format_zone z = ''-'' @ pad2 (n div 60) @ '':'' @ pad2 (n mod 60)"
      by (simp add: format_zone_def n_def)
    then have "parse_zone (format_zone z) = Some (- \<bar>z\<bar>)"
      by (simp only: parse_zone_signed [OF h m] split_n)
    with True show ?thesis by simp
  next
    case False
    with \<open>z \<noteq> 0\<close> have "format_zone z = ''+'' @ pad2 (n div 60) @ '':'' @ pad2 (n mod 60)"
      by (simp add: format_zone_def n_def)
    then have "parse_zone (format_zone z) = Some \<bar>z\<bar>"
      by (simp only: parse_zone_signed [OF h m] split_n)
    with False show ?thesis by simp
  qed
qed

lemma parse_frac_zone: "parse_frac (format_zone z) = (0, format_zone z)"
  by (auto simp: parse_frac_def format_zone_def split: list.splits)

lemma days_in_bound: "days_in m y \<le> 31"
  by (simp add: days_in_def)

lemma parse_rfc3339_fields:
  assumes "num_in [y1, y2, y3, y4] 0 9999 = Some y" "num_in [m1, m2] 1 12 = Some mo"
    "num_in [d1, d2] 1 (days_in mo y) = Some d" "num_in [h1, h2] 0 23 = Some h"
    "num_in [i1, i2] 0 59 = Some mi" "num_in [e1, e2] 0 59 = Some se"
    "parse_frac rest = (ns, zs)" "parse_zone zs = Some z"
  shows "parse_rfc3339 ([y1, y2, y3, y4] @ ''-'' @ [m1, m2] @ ''-'' @ [d1, d2] @ ''T'' @ [h1, h2] @ '':'' @
      [i1, i2] @ '':'' @ [e1, e2] @ rest) =
    Some \<lparr>year = y, month = mo, day = d, hour = h, minute = mi, second = se, nano = ns, zone = z\<rparr>"
  unfolding parse_rfc3339_def by (simp add: assms del: One_nat_def)

lemma parse_format_rfc3339:
  assumes "valid_time t"
  shows "parse_rfc3339 (format_rfc3339 t) = Some (t\<lparr>nano := 0\<rparr>)"
proof -
  note v = assms [unfolded valid_time_def]
  have "day t < 100" using v days_in_bound [of "month t" "year t"] by linarith
  with v have small: "month t < 100" "day t < 100" "hour t < 100" "minute t < 100" "second t < 100" "year t \<le> 9999"
    by linarith+
  note pads = pad4_small [OF small(6)] pad2_small [OF small(1)] pad2_small [OF small(2)]
    pad2_small [OF small(3)] pad2_small [OF small(4)] pad2_small [OF small(5)]
  have "parse_rfc3339 (format_rfc3339 t) =
    Some \<lparr>year = year t, month = month t, day = day t, hour = hour t, minute = minute t,
      second = second t, nano = 0, zone = zone t\<rparr>"
    unfolding format_rfc3339_def pads
    by (rule parse_rfc3339_fields; (rule num_in_pad4 num_in_pad2 parse_frac_zone parse_zone_format)?)
      (use v \<open>day t < 100\<close> in linarith)+
  then show ?thesis by simp
qed

lemma format_rfc3339_nonempty [simp]: "format_rfc3339 t \<noteq> []"
  by (simp add: format_rfc3339_def)

lemma unix_nano_trunc: "unix_nano (t\<lparr>nano := 0\<rparr>) = unix_nano t - int (nano t)"
  by (simp add: unix_nano_def day_number_def)

end
