(* ===== verification/Circuit_Breaker.thy ===== *)
theory Circuit_Breaker
  imports Go_Time "HOL-Library.Multiset"
begin

text \<open>
  The circuit breaker of \<^verbatim>\<open>utils/circuitbreaker.go\<close>: its state, the admission decision and the
  settlement of a call (the two critical sections of \<^verbatim>\<open>Call\<close>), \<^verbatim>\<open>Reset\<close>, and the transition
  system in which any number of goroutines have a call between its admission and its settlement.
  Instants and durations are nanoseconds; the clock readings of one critical section are arguments.
  The callback \<^verbatim>\<open>onStateChange\<close> is fired after the lock is released, so an operation returns the
  transition it made.
\<close>

section \<open>State\<close>

datatype CircuitState = StateClosed | StateOpen | StateHalfOpen

definition state_string :: "CircuitState \<Rightarrow> string" where
  "state_string s =
     (case s of StateClosed \<Rightarrow> ''closed'' | StateOpen \<Rightarrow> ''open'' | StateHalfOpen \<Rightarrow> ''half-open'')"

record circuit_breaker =
  cb_name :: string
  maxFailures :: int
  resetTimeout :: int
  cb_state :: CircuitState
  failureCount :: int
  lastFailTime :: int
  inFlightProbe :: bool

record cb_config =
  cfg_name :: string
  cfg_maxFailures :: int
  cfg_resetTimeout :: int

definition second_ns :: int where
  "second_ns = 10 ^ 9"

definition NewCircuitBreaker :: "cb_config \<Rightarrow> circuit_breaker" where
  "NewCircuitBreaker c =
     \<lparr>cb_name = cfg_name c,
      maxFailures = (if cfg_maxFailures c \<le> 0 then 5 else cfg_maxFailures c),
      resetTimeout = (if cfg_resetTimeout c \<le> 0 then 60 * second_ns else cfg_resetTimeout c),
      cb_state = StateClosed, failureCount = 0, lastFailTime = 0, inFlightProbe = False\<rparr>"

section \<open>Operations\<close>

text \<open>A transition: the old state, the new one, and whether the state changed.\<close>

type_synonym transition = "CircuitState \<times> CircuitState \<times> bool"

definition setState :: "CircuitState \<Rightarrow> circuit_breaker \<Rightarrow> transition \<times> circuit_breaker" where
  "setState new cb =
     (if cb_state cb = new then ((cb_state cb, new, False), cb)
      else ((cb_state cb, new, True),
            (let cb' = cb\<lparr>cb_state := new\<rparr>
             in if new = StateClosed then cb'\<lparr>failureCount := 0\<rparr> else cb')))"

definition recordFailure :: "int \<Rightarrow> circuit_breaker \<Rightarrow> transition \<times> circuit_breaker" where
  "recordFailure now cb =
     (let cb1 = cb\<lparr>failureCount := failureCount cb + 1, lastFailTime := now\<rparr>
      in if cb_state cb1 = StateHalfOpen then setState StateOpen cb1
         else if failureCount cb1 \<ge> maxFailures cb1 then setState StateOpen cb1
         else ((cb_state cb1, cb_state cb1, False), cb1))"

definition recordSuccess :: "circuit_breaker \<Rightarrow> transition \<times> circuit_breaker" where
  "recordSuccess cb =
     (if cb_state cb = StateHalfOpen
      then (let (tr, cb') = setState StateClosed cb in (tr, cb'\<lparr>failureCount := 0\<rparr>))
      else ((cb_state cb, cb_state cb, False), cb\<lparr>failureCount := 0\<rparr>))"

text \<open>
  The admission half of \<^verbatim>\<open>Call\<close>, under the lock: the call is rejected, or it runs, as a probe or
  not.  The first reading of the clock is the one in \<^verbatim>\<open>time.Since\<close>, the second the new
  \<^verbatim>\<open>lastFailTime\<close>.
\<close>

datatype admission = Rejected | Admitted bool

definition admit :: "int \<Rightarrow> int \<Rightarrow> circuit_breaker \<Rightarrow> admission \<times> transition option \<times> circuit_breaker" where
  "admit t1 t2 cb =
     (case cb_state cb of
        StateOpen \<Rightarrow>
          if t1 - lastFailTime cb < resetTimeout cb then (Rejected, None, cb)
          else (let (tr, cb1) = setState StateHalfOpen cb
                in (Admitted True, Some tr, cb1\<lparr>inFlightProbe := True, lastFailTime := t2\<rparr>))
      | StateHalfOpen \<Rightarrow>
          if inFlightProbe cb then (Rejected, None, cb)
          else (Admitted True, None, cb\<lparr>inFlightProbe := True\<rparr>)
      | StateClosed \<Rightarrow> (Admitted False, None, cb))"

text \<open>The settlement half of \<^verbatim>\<open>Call\<close>, once the protected function has returned.\<close>

definition settle_call :: "bool \<Rightarrow> bool \<Rightarrow> int \<Rightarrow> circuit_breaker \<Rightarrow> transition \<times> circuit_breaker" where
  "settle_call isProbe ok now cb =
     (let cb1 = (if isProbe then cb\<lparr>inFlightProbe := False\<rparr> else cb)
      in if ok then recordSuccess cb1 else recordFailure now cb1)"

definition cb_Reset :: "circuit_breaker \<Rightarrow> transition \<times> circuit_breaker" where
  "cb_Reset cb = (let (tr, cb1) = setState StateClosed cb in (tr, cb1\<lparr>inFlightProbe := False\<rparr>))"

lemmas breaker_defs = setState_def recordFailure_def recordSuccess_def admit_def settle_call_def cb_Reset_def Let_def

section \<open>One call at a time\<close>

text \<open>
  A call with no other call between its admission and its settlement: \<open>ok\<close> tells whether the
  protected function succeeds.  The result is \<^const>\<open>None\<close> when the call was shed.
\<close>

definition solo_call :: "int \<Rightarrow> int \<Rightarrow> int \<Rightarrow> bool \<Rightarrow> circuit_breaker \<Rightarrow> bool option \<times> circuit_breaker" where
  "solo_call t1 t2 t3 ok cb =
     (case admit t1 t2 cb of
        (Rejected, _, cb1) \<Rightarrow> (None, cb1)
      | (Admitted p, _, cb1) \<Rightarrow> (Some ok, snd (settle_call p ok t3 cb1)))"

text \<open>A sequence of calls that all fail, all at the instant \<open>t\<close>.\<close>

fun solo_failures :: "nat \<Rightarrow> int \<Rightarrow> circuit_breaker \<Rightarrow> circuit_breaker" where
  "solo_failures 0 t cb = cb"
| "solo_failures (Suc n) t cb = solo_failures n t (snd (solo_call t t t False cb))"

lemma closed_failure:
  assumes "cb_state cb = StateClosed"
  shows "snd (solo_call t1 t2 t3 False cb) =
    cb\<lparr>failureCount := failureCount cb + 1, lastFailTime := t3,
       cb_state := (if failureCount cb + 1 \<ge> maxFailures cb then StateOpen else StateClosed)\<rparr>"
  using assms by (simp add: solo_call_def breaker_defs)

lemma closed_failures:
  assumes "cb_state cb = StateClosed" "failureCount cb + int n < maxFailures cb"
  shows "cb_state (solo_failures n t cb) = StateClosed \<and>
    failureCount (solo_failures n t cb) = failureCount cb + int n \<and>
    maxFailures (solo_failures n t cb) = maxFailures cb \<and>
    resetTimeout (solo_failures n t cb) = resetTimeout cb"
  using assms
proof (induction n arbitrary: cb)
  case 0
  then show ?case by simp
next
  case (Suc n)
  let ?cb = "snd (solo_call t t t False cb)"
  from Suc.prems have cb': "?cb = cb\<lparr>failureCount := failureCount cb + 1, lastFailTime := t\<rparr>"
    by (simp add: closed_failure)
  from Suc.prems Suc.IH [of ?cb] show ?case by (simp add: cb')
qed

lemma solo_failures_add: "solo_failures (m + n) t cb = solo_failures n t (solo_failures m t cb)"
  by (induction m arbitrary: cb) auto

section \<open>Concurrent calls\<close>

text \<open>
  The breaker together with the calls that have been admitted and not yet settled; each carries
  its \<^verbatim>\<open>isProbe\<close> flag.
\<close>

record cb_system =
  brk :: circuit_breaker
  inflight :: "bool multiset"

datatype cb_event =
    Arrive int int          \<comment> \<open>a caller asks to be admitted\<close>
  | Return bool bool int    \<comment> \<open>an admitted call (probe?) returns (ok?)\<close>
  | ResetEv

fun cb_step :: "cb_event \<Rightarrow> cb_system \<Rightarrow> cb_system option" where
  "cb_step (Arrive t1 t2) s =
     (case admit t1 t2 (brk s) of
        (Rejected, _, cb) \<Rightarrow> Some (s\<lparr>brk := cb\<rparr>)
      | (Admitted p, _, cb) \<Rightarrow> Some (s\<lparr>brk := cb, inflight := add_mset p (inflight s)\<rparr>))"
| "cb_step (Return p ok now) s =
     (if p \<in># inflight s
      then Some (s\<lparr>brk := snd (settle_call p ok now (brk s)), inflight := inflight s - {#p#}\<rparr>)
      else None)"
| "cb_step ResetEv s = Some (s\<lparr>brk := snd (cb_Reset (brk s))\<rparr>)"

fun cb_run :: "cb_event list \<Rightarrow> cb_system \<Rightarrow> cb_system option" where
  "cb_run [] s = Some s"
| "cb_run (e # es) s = (case cb_step e s of None \<Rightarrow> None | Some s' \<Rightarrow> cb_run es s')"

definition cb_start :: "cb_config \<Rightarrow> cb_system" where
  "cb_start c = \<lparr>brk = NewCircuitBreaker c, inflight = {#}\<rparr>"

text \<open>
  The reachable systems, under any interleaving of arrivals, returns and resets.
\<close>

inductive cb_reachable :: "cb_config \<Rightarrow> cb_system \<Rightarrow> bool" for c where
  start: "cb_reachable c (cb_start c)"
| step: "cb_reachable c s \<Longrightarrow> cb_step e s = Some s' \<Longrightarrow> cb_reachable c s'"

text \<open>
  What the code keeps in every reachable system: a closed breaker has fewer failures than the
  threshold, and the counters stay in range.
\<close>

definition cb_ok :: "circuit_breaker \<Rightarrow> bool" where
  "cb_ok cb \<longleftrightarrow> 0 < maxFailures cb \<and> 0 < resetTimeout cb \<and> 0 \<le> failureCount cb \<and>
     (cb_state cb = StateClosed \<longrightarrow> failureCount cb < maxFailures cb)"

lemma cb_ok_new: "cb_ok (NewCircuitBreaker c)"
  by (auto simp: cb_ok_def NewCircuitBreaker_def second_ns_def)

lemma cb_ok_admit: "cb_ok cb \<Longrightarrow> cb_ok (snd (snd (admit t1 t2 cb)))"
  by (auto simp: cb_ok_def breaker_defs split: CircuitState.splits)

lemma cb_ok_settle: "cb_ok cb \<Longrightarrow> cb_ok (snd (settle_call p ok t cb))"
  by (cases "cb_state cb") (auto simp: cb_ok_def breaker_defs)

lemma cb_ok_reset: "cb_ok cb \<Longrightarrow> cb_ok (snd (cb_Reset cb))"
  by (cases "cb_state cb") (auto simp: cb_ok_def breaker_defs)

lemma cb_ok_step: "cb_step e s = Some s' \<Longrightarrow> cb_ok (brk s) \<Longrightarrow> cb_ok (brk s')"
proof (cases e)
  case (Arrive t1 t2)
  assume "cb_step e s = Some s'" "cb_ok (brk s)"
  with Arrive cb_ok_admit [of "brk s" t1 t2] show ?thesis
    by (auto split: prod.splits admission.splits)
qed (auto simp: cb_ok_settle cb_ok_reset split: if_splits)

text \<open>
  The discipline under which half-open means one probe: no call that was admitted while the
  breaker was closed returns while it is half-open.
\<close>

fun no_stale_return :: "cb_event \<Rightarrow> cb_system \<Rightarrow> bool" where
  "no_stale_return (Return p ok now) s = (cb_state (brk s) = StateHalfOpen \<longrightarrow> p)"
| "no_stale_return _ s = True"

inductive cb_tidy :: "cb_config \<Rightarrow> cb_system \<Rightarrow> bool" for c where
  start: "cb_tidy c (cb_start c)"
| step: "cb_tidy c s \<Longrightarrow> e \<noteq> ResetEv \<Longrightarrow> no_stale_return e s \<Longrightarrow> cb_step e s = Some s' \<Longrightarrow> cb_tidy c s'"

definition probe_inv :: "cb_system \<Rightarrow> bool" where
  "probe_inv s \<longleftrightarrow>
     (if cb_state (brk s) = StateHalfOpen
      then inFlightProbe (brk s) \<and> count (inflight s) True = 1
      else count (inflight s) True = 0)"

lemma probe_inv_step:
  assumes "cb_step e s = Some s'" "probe_inv s" "no_stale_return e s" "e \<noteq> ResetEv"
  shows "probe_inv s'"
proof (cases e)
  case (Arrive t1 t2)
  with assms show ?thesis
    by (cases "cb_state (brk s)") (auto simp: probe_inv_def breaker_defs split: if_splits)
next
  case (Return p ok now)
  with assms show ?thesis
    by (cases "cb_state (brk s)"; cases p)
      (auto simp: probe_inv_def breaker_defs simp del: count_eq_zero_iff split: if_splits)
next
  case ResetEv
  with assms show ?thesis by simp
qed

lemma cb_tidy_inv: "cb_tidy c s \<Longrightarrow> probe_inv s"
proof (induction rule: cb_tidy.induct)
  case start
  show ?case by (simp add: probe_inv_def cb_start_def NewCircuitBreaker_def)
next
  case (step s e s')
  then show ?case by (blast intro: probe_inv_step)
qed

section \<open>What the breaker guarantees\<close>

lemma new_breaker_sel [simp]:
  "cb_state (NewCircuitBreaker c) = StateClosed" "failureCount (NewCircuitBreaker c) = 0"
  "0 < maxFailures (NewCircuitBreaker c)"
  by (auto simp: NewCircuitBreaker_def)

definition threshold :: "cb_config \<Rightarrow> nat" where
  "threshold c = nat (maxFailures (NewCircuitBreaker c))"


text \<open>
  The probe decides: a call that arrives at an open breaker after \<^verbatim>\<open>resetTimeout\<close> runs as a probe; its
  success closes the breaker with no failures counted, its failure opens it again for a full timeout.
\<close>

theorem probe_decides:
  assumes "cb_state cb = StateOpen" "t1 - lastFailTime cb \<ge> resetTimeout cb"
  shows "solo_call t1 t2 t3 True cb =
      (Some True, cb\<lparr>cb_state := StateClosed, failureCount := 0, lastFailTime := t2, inFlightProbe := False\<rparr>) \<and>
    solo_call t1 t2 t3 False cb =
      (Some False, cb\<lparr>failureCount := failureCount cb + 1, lastFailTime := t3, inFlightProbe := False\<rparr>)"
  using assms by (simp add: solo_call_def breaker_defs)

text \<open>
  Counters stay in range: under any interleaving of arriving, returning and resetting callers, the
  thresholds stay positive, the failure counter is never negative, and a closed breaker has counted
  fewer failures than the threshold.
\<close>

theorem breaker_invariant: "cb_reachable c s \<Longrightarrow> cb_ok (brk s)"
proof (induction rule: cb_reachable.induct)
  case start
  show ?case by (simp add: cb_start_def cb_ok_new)
next
  case (step s e s')
  then show ?case by (blast intro: cb_ok_step)
qed

text \<open>
  One probe at a time: while no call that was admitted before the breaker opened returns during
  the half-open phase, and nobody resets the breaker, at most one probe is running, and one is running
  exactly while the breaker is half-open.
\<close>

theorem single_probe:
  "cb_tidy c s \<Longrightarrow> count (inflight s) True = (if cb_state (brk s) = StateHalfOpen then 1 else 0)"
  using cb_tidy_inv by (fastforce simp: probe_inv_def)

lemma cb_run_reachable: "cb_reachable c s \<Longrightarrow> cb_run es s = Some s' \<Longrightarrow> cb_reachable c s'"
  by (induction es arbitrary: s) (auto split: option.splits intro: cb_reachable.step)

definition late_config :: cb_config where
  "late_config = \<lparr>cfg_name = ''redis'', cfg_maxFailures = 1, cfg_resetTimeout = 30\<rparr>"

definition late_events :: "cb_event list" where
  "late_events = [Arrive 0 0, Arrive 0 0, Return False False 1, Arrive 40 40, Return False False 41, Arrive 80 80]"

text \<open>
  A late caller lets a second probe in: with a threshold of one failure, there is a run in which two probes are in flight at
  the same time.  Two calls are admitted while the breaker is closed; the first fails and opens it, a
  probe is admitted, and the failure of the second call re-opens the half-open breaker, so that the
  next caller after the timeout is admitted as a probe while the first one still runs.
\<close>

theorem two_probes: "\<exists>s. cb_reachable late_config s \<and> count (inflight s) True = 2"
proof -
  have "\<exists>s. cb_run late_events (cb_start late_config) = Some s \<and> count (inflight s) True = 2"
    by (simp add: late_events_def late_config_def cb_start_def NewCircuitBreaker_def breaker_defs)
  then show ?thesis using cb_run_reachable [OF cb_reachable.start] by blast
qed

text \<open>
  \<^verbatim>\<open>Reset\<close> of a closed breaker keeps its failures: \<^verbatim>\<open>Reset\<close> clears the counter only when it changes the
  state, so a closed breaker one failure below its threshold opens on the first failure after a reset.
\<close>

theorem reset_keeps_failures:
  assumes "cb_state cb = StateClosed" "failureCount cb = maxFailures cb - 1"
  shows "failureCount (snd (cb_Reset cb)) = maxFailures cb - 1 \<and>
    cb_state (snd (solo_call t1 t2 t3 False (snd (cb_Reset cb)))) = StateOpen"
  using assms by (simp add: solo_call_def breaker_defs)

section \<open>Instances\<close>

definition redis_breaker :: circuit_breaker where
  "redis_breaker = NewCircuitBreaker \<lparr>cfg_name = ''redis'', cfg_maxFailures = 5, cfg_resetTimeout = 30 * second_ns\<rparr>"


theorem probe_decides_witness:
  "cb_state (snd (solo_call (31 * second_ns) 0 0 True (redis_breaker\<lparr>cb_state := StateOpen\<rparr>))) = StateClosed \<and>
   cb_state (snd (solo_call (31 * second_ns) 0 0 False (redis_breaker\<lparr>cb_state := StateOpen\<rparr>))) = StateOpen"
  using probe_decides [of "redis_breaker\<lparr>cb_state := StateOpen\<rparr>" "31 * second_ns" 0 0]
  by (simp add: redis_breaker_def NewCircuitBreaker_def second_ns_def)

theorem breaker_invariant_witness: "cb_reachable late_config (cb_start late_config) \<and> cb_ok (brk (cb_start late_config))"
  using breaker_invariant [OF cb_reachable.start [of late_config]] cb_reachable.start [of late_config] by simp

theorem single_probe_witness:
  "cb_tidy late_config (cb_start late_config) \<and> count (inflight (cb_start late_config)) True = 0"
  using single_probe [OF cb_tidy.start [of late_config]] cb_tidy.start [of late_config]
  by (simp add: cb_start_def)

theorem reset_keeps_failures_witness:
  "cb_state (snd (solo_call 0 0 0 False (snd (cb_Reset (redis_breaker\<lparr>failureCount := 4\<rparr>))))) = StateOpen"
  using reset_keeps_failures [of "redis_breaker\<lparr>failureCount := 4\<rparr>" 0 0 0]
  by (simp add: redis_breaker_def NewCircuitBreaker_def)

end
