(* ===== verification/Redis.thy ===== *)
theory Redis
  imports Prelude
begin

text \<open>
  Redis, the service the job queue and the cache talk to.  It is not part of the repository, so the
  model takes it as a parameter: a record of the commands the code issues, and \<^verbatim>\<open>view\<close>, what the
  reading commands (\<^verbatim>\<open>LRANGE\<close>, \<^verbatim>\<open>SMEMBERS\<close>, \<^verbatim>\<open>HGETALL\<close>, \<^verbatim>\<open>GET\<close>, \<^verbatim>\<open>TTL\<close>) report of a server state.
  The locale \<^verbatim>\<open>redis_server\<close> states the documented effect of each command on the view, and
  \<^verbatim>\<open>mem_redis\<close> is a server that has these effects.  The view keeps one map per type of value: the
  key families of the program are disjoint and each is used with one type only, since the variable
  part of every key is an identifier without a colon.
\<close>

type_synonym key = string

record keyspace =
  k_list :: "key \<Rightarrow> string list"
  k_set :: "key \<Rightarrow> string set"
  k_hash :: "key \<Rightarrow> (string \<rightharpoonup> string)"
  k_str :: "key \<rightharpoonup> string"
  k_ttl :: "key \<rightharpoonup> int"

definition empty_keyspace :: keyspace where
  "empty_keyspace =
     \<lparr>k_list = (\<lambda>_. []), k_set = (\<lambda>_. {}), k_hash = (\<lambda>_. Map.empty), k_str = Map.empty, k_ttl = Map.empty\<rparr>"

definition key_exists :: "key \<Rightarrow> keyspace \<Rightarrow> bool" where
  "key_exists k v \<longleftrightarrow> k_list v k \<noteq> [] \<or> k_set v k \<noteq> {} \<or> k_hash v k \<noteq> Map.empty \<or> k_str v k \<noteq> None"

text \<open>A key whose last element is removed is gone, and its expiry with it.\<close>

definition drop_ttl :: "key \<Rightarrow> keyspace \<Rightarrow> keyspace" where
  "drop_ttl k v = v\<lparr>k_ttl := if key_exists k v then k_ttl v else (k_ttl v)(k := None)\<rparr>"

lemma drop_ttl_sel [simp]:
  "k_list (drop_ttl k v) = k_list v" "k_set (drop_ttl k v) = k_set v"
  "k_hash (drop_ttl k v) = k_hash v" "k_str (drop_ttl k v) = k_str v"
  by (simp_all add: drop_ttl_def)

lemma drop_ttl_other [simp]: "k' \<noteq> k \<Longrightarrow> k_ttl (drop_ttl k v) k' = k_ttl v k'"
  by (simp add: drop_ttl_def)

section \<open>Effects of the commands\<close>

text \<open>The indices of \<^verbatim>\<open>LRANGE\<close> and \<^verbatim>\<open>LTRIM\<close>: a negative index counts from the tail.\<close>

definition redis_range :: "int \<Rightarrow> int \<Rightarrow> 'a list \<Rightarrow> 'a list" where
  "redis_range start stop xs =
     (let n = int (length xs);
          a = max 0 (if start < 0 then n + start else start);
          b = (if stop < 0 then n + stop else stop)
      in if a > b then [] else take (nat (b - a + 1)) (drop (nat a) xs))"

definition ks_hset :: "key \<Rightarrow> (string \<times> string) list \<Rightarrow> keyspace \<Rightarrow> keyspace" where
  "ks_hset k fs v = v\<lparr>k_hash := (k_hash v)(k := foldl (\<lambda>h (f, x). h(f \<mapsto> x)) (k_hash v k) fs)\<rparr>"

definition ks_sadd :: "key \<Rightarrow> string \<Rightarrow> keyspace \<Rightarrow> keyspace" where
  "ks_sadd k x v = v\<lparr>k_set := (k_set v)(k := insert x (k_set v k))\<rparr>"

definition ks_srem :: "key \<Rightarrow> string \<Rightarrow> keyspace \<Rightarrow> keyspace" where
  "ks_srem k x v = drop_ttl k (v\<lparr>k_set := (k_set v)(k := k_set v k - {x})\<rparr>)"

definition ks_expire :: "key \<Rightarrow> int \<Rightarrow> keyspace \<Rightarrow> keyspace" where
  "ks_expire k n v = (if key_exists k v then v\<lparr>k_ttl := (k_ttl v)(k \<mapsto> n)\<rparr> else v)"

definition ks_rpush :: "key \<Rightarrow> string \<Rightarrow> keyspace \<Rightarrow> keyspace" where
  "ks_rpush k x v = v\<lparr>k_list := (k_list v)(k := k_list v k @ [x])\<rparr>"

definition ks_lpush :: "key \<Rightarrow> string \<Rightarrow> keyspace \<Rightarrow> keyspace" where
  "ks_lpush k x v = v\<lparr>k_list := (k_list v)(k := x # k_list v k)\<rparr>"

definition ks_lrem :: "key \<Rightarrow> string \<Rightarrow> keyspace \<Rightarrow> keyspace" where
  "ks_lrem k x v = drop_ttl k (v\<lparr>k_list := (k_list v)(k := remove1 x (k_list v k))\<rparr>)"

definition ks_ltrim :: "key \<Rightarrow> int \<Rightarrow> int \<Rightarrow> keyspace \<Rightarrow> keyspace" where
  "ks_ltrim k a b v = drop_ttl k (v\<lparr>k_list := (k_list v)(k := redis_range a b (k_list v k))\<rparr>)"

definition ks_lmove :: "key \<Rightarrow> key \<Rightarrow> keyspace \<Rightarrow> keyspace" where
  "ks_lmove src dst v =
     (case k_list v src of
        [] \<Rightarrow> v
      | x # xs \<Rightarrow> drop_ttl src (ks_rpush dst x (v\<lparr>k_list := (k_list v)(src := xs)\<rparr>)))"

definition ks_set_ex :: "key \<Rightarrow> string \<Rightarrow> int \<Rightarrow> keyspace \<Rightarrow> keyspace" where
  "ks_set_ex k x n v =
     v\<lparr>k_list := (k_list v)(k := []), k_set := (k_set v)(k := {}), k_hash := (k_hash v)(k := Map.empty),
       k_str := (k_str v)(k \<mapsto> x), k_ttl := (k_ttl v)(k \<mapsto> n)\<rparr>"

definition ks_del :: "key \<Rightarrow> keyspace \<Rightarrow> keyspace" where
  "ks_del k v =
     v\<lparr>k_list := (k_list v)(k := []), k_set := (k_set v)(k := {}), k_hash := (k_hash v)(k := Map.empty),
       k_str := (k_str v)(k := None), k_ttl := (k_ttl v)(k := None)\<rparr>"

text \<open>\<^verbatim>\<open>INCR\<close>: an absent key counts as 0; a value that is no 64-bit integer, or the largest one, is an error.\<close>

definition ks_incr_val :: "key \<Rightarrow> keyspace \<Rightarrow> int option" where
  "ks_incr_val k v =
     (case k_str v k of
        None \<Rightarrow> Some 1
      | Some x \<Rightarrow> (case atoi x of None \<Rightarrow> None | Some n \<Rightarrow> if in_int64 (n + 1) then Some (n + 1) else None))"

definition ks_incr :: "key \<Rightarrow> keyspace \<Rightarrow> keyspace" where
  "ks_incr k v =
     (case ks_incr_val k v of None \<Rightarrow> v | Some n \<Rightarrow> v\<lparr>k_str := (k_str v)(k \<mapsto> show_int n)\<rparr>)"

lemmas ks_defs = ks_hset_def ks_sadd_def ks_srem_def ks_expire_def ks_rpush_def ks_lpush_def ks_lrem_def
  ks_ltrim_def ks_lmove_def ks_set_ex_def ks_del_def ks_incr_def

section \<open>The server\<close>

record 's redis =
  view :: "'s \<Rightarrow> keyspace"
  cmd_hset :: "key \<Rightarrow> (string \<times> string) list \<Rightarrow> 's \<Rightarrow> 's"
  cmd_sadd :: "key \<Rightarrow> string \<Rightarrow> 's \<Rightarrow> 's"
  cmd_srem :: "key \<Rightarrow> string \<Rightarrow> 's \<Rightarrow> 's"
  cmd_expire :: "key \<Rightarrow> int \<Rightarrow> 's \<Rightarrow> 's"
  cmd_rpush :: "key \<Rightarrow> string \<Rightarrow> 's \<Rightarrow> 's"
  cmd_lpush :: "key \<Rightarrow> string \<Rightarrow> 's \<Rightarrow> 's"
  cmd_lrem :: "key \<Rightarrow> string \<Rightarrow> 's \<Rightarrow> int \<times> 's"
  cmd_ltrim :: "key \<Rightarrow> int \<Rightarrow> int \<Rightarrow> 's \<Rightarrow> 's"
  cmd_lmove :: "key \<Rightarrow> key \<Rightarrow> 's \<Rightarrow> string option \<times> 's"
  cmd_set_ex :: "key \<Rightarrow> string \<Rightarrow> int \<Rightarrow> 's \<Rightarrow> 's"
  cmd_del :: "key \<Rightarrow> 's \<Rightarrow> 's"
  cmd_incr :: "key \<Rightarrow> 's \<Rightarrow> int option \<times> 's"
  cmd_sscan :: "key \<Rightarrow> 's \<Rightarrow> string list"
  cmd_scan :: "int \<Rightarrow> string \<Rightarrow> 's \<Rightarrow> key list \<times> int"

text \<open>
  The documented effects.  \<^verbatim>\<open>SSCAN\<close> returns some batch of members and \<^verbatim>\<open>SCAN\<close> some batch of the keys
  with the requested prefix and a cursor; both leave the data alone.
\<close>

locale redis_server =
  fixes R :: "'s redis"
  assumes view_hset: "view R (cmd_hset R k fs s) = ks_hset k fs (view R s)"
    and view_sadd: "view R (cmd_sadd R k x s) = ks_sadd k x (view R s)"
    and view_srem: "view R (cmd_srem R k x s) = ks_srem k x (view R s)"
    and view_expire: "view R (cmd_expire R k n s) = ks_expire k n (view R s)"
    and view_rpush: "view R (cmd_rpush R k x s) = ks_rpush k x (view R s)"
    and view_lpush: "view R (cmd_lpush R k x s) = ks_lpush k x (view R s)"
    and lrem_count: "fst (cmd_lrem R k x s) = (if x \<in> set (k_list (view R s) k) then 1 else 0)"
    and view_lrem: "view R (snd (cmd_lrem R k x s)) = ks_lrem k x (view R s)"
    and view_ltrim: "view R (cmd_ltrim R k a b s) = ks_ltrim k a b (view R s)"
    and lmove_value: "fst (cmd_lmove R k k' s) = (case k_list (view R s) k of [] \<Rightarrow> None | x # xs \<Rightarrow> Some x)"
    and view_lmove: "view R (snd (cmd_lmove R k k' s)) = ks_lmove k k' (view R s)"
    and view_set_ex: "view R (cmd_set_ex R k x n s) = ks_set_ex k x n (view R s)"
    and view_del: "view R (cmd_del R k s) = ks_del k (view R s)"
    and incr_value: "fst (cmd_incr R k s) = ks_incr_val k (view R s)"
    and view_incr: "view R (snd (cmd_incr R k s)) = ks_incr k (view R s)"
    and sscan_members: "set (cmd_sscan R k s) \<subseteq> k_set (view R s) k"
    and scan_prefix: "x \<in> set (fst (cmd_scan R c p s)) \<Longrightarrow> hasPrefix x p"

lemmas server_laws = redis_server.view_hset redis_server.view_sadd redis_server.view_srem
  redis_server.view_expire redis_server.view_rpush redis_server.view_lpush redis_server.lrem_count
  redis_server.view_lrem redis_server.view_ltrim redis_server.lmove_value redis_server.view_lmove
  redis_server.view_set_ex redis_server.view_del redis_server.incr_value redis_server.view_incr

declare server_laws [redis_view]

section \<open>A server in memory\<close>

text \<open>
  The server whose state is the view itself, together with the keys its \<^verbatim>\<open>SCAN\<close> enumerates (one page)
  and the members its \<^verbatim>\<open>SSCAN\<close> enumerates.
\<close>

definition mem_redis :: "key list \<Rightarrow> string list \<Rightarrow> keyspace redis" where
  "mem_redis ks ms =
     \<lparr>view = (\<lambda>v. v), cmd_hset = ks_hset, cmd_sadd = ks_sadd, cmd_srem = ks_srem, cmd_expire = ks_expire,
      cmd_rpush = ks_rpush, cmd_lpush = ks_lpush,
      cmd_lrem = (\<lambda>k x v. (if x \<in> set (k_list v k) then 1 else 0, ks_lrem k x v)),
      cmd_ltrim = ks_ltrim,
      cmd_lmove = (\<lambda>a b v. (case k_list v a of [] \<Rightarrow> None | x # xs \<Rightarrow> Some x, ks_lmove a b v)),
      cmd_set_ex = ks_set_ex, cmd_del = ks_del, cmd_incr = (\<lambda>k v. (ks_incr_val k v, ks_incr k v)),
      cmd_sscan = (\<lambda>k v. List.filter (\<lambda>m. m \<in> k_set v k) ms),
      cmd_scan = (\<lambda>c p v. (List.filter (\<lambda>k. hasPrefix k p) ks, 0))\<rparr>"

interpretation mem: redis_server "mem_redis ks ms"
  by unfold_locales (auto simp: mem_redis_def)

lemma mem_redis_sel [simp]:
  "view (mem_redis ks ms) = (\<lambda>v. v)" "cmd_hset (mem_redis ks ms) = ks_hset"
  "cmd_sadd (mem_redis ks ms) = ks_sadd" "cmd_srem (mem_redis ks ms) = ks_srem"
  "cmd_expire (mem_redis ks ms) = ks_expire" "cmd_rpush (mem_redis ks ms) = ks_rpush"
  "cmd_lpush (mem_redis ks ms) = ks_lpush"
  "cmd_lrem (mem_redis ks ms) = (\<lambda>k x v. (if x \<in> set (k_list v k) then 1 else 0, ks_lrem k x v))"
  "cmd_ltrim (mem_redis ks ms) = ks_ltrim"
  "cmd_lmove (mem_redis ks ms) = (\<lambda>a b v. (case k_list v a of [] \<Rightarrow> None | x # xs \<Rightarrow> Some x, ks_lmove a b v))"
  "cmd_set_ex (mem_redis ks ms) = ks_set_ex" "cmd_del (mem_redis ks ms) = ks_del"
  "cmd_incr (mem_redis ks ms) = (\<lambda>k v. (ks_incr_val k v, ks_incr k v))"
  "cmd_sscan (mem_redis ks ms) = (\<lambda>k v. List.filter (\<lambda>m. m \<in> k_set v k) ms)"
  "cmd_scan (mem_redis ks ms) = (\<lambda>c p v. (List.filter (\<lambda>k. hasPrefix k p) ks, 0))"
  by (simp_all add: mem_redis_def)

section \<open>Facts the clients share\<close>

lemma ks_lrem_not_in: "x \<notin> set (k_list v k) \<Longrightarrow> k_list (ks_lrem k x v) = k_list v"
  by (simp add: ks_lrem_def remove1_idem fun_upd_idem)

lemma redis_range_last: "0 < n \<Longrightarrow> redis_range (- int n) (-1) xs = drop (length xs - n) xs"
  by (auto simp: redis_range_def Let_def nat_diff_distrib' max_def)

lemma redis_range_all: "redis_range 0 (-1) xs = xs"
  by (auto simp: redis_range_def Let_def)

lemma redis_range_page:
  assumes "0 \<le> off" "0 < lim"
  shows "redis_range off (off + lim - 1) xs = take (nat lim) (drop (nat off) xs)"
  using assms by (simp add: redis_range_def Let_def)

lemma foldl_upd_hash: "foldl (\<lambda>h (f, x). h(f \<mapsto> x)) h fs = h ++ map_of (rev fs)"
  by (induction fs arbitrary: h) (auto simp: map_add_def fun_eq_iff split: option.splits)

text \<open>What the effects do to each part of the view.\<close>

lemma ks_expire_sel [simp]:
  "k_list (ks_expire k n v) = k_list v" "k_set (ks_expire k n v) = k_set v"
  "k_hash (ks_expire k n v) = k_hash v" "k_str (ks_expire k n v) = k_str v"
  by (simp_all add: ks_expire_def)

lemma ks_hset_sel [simp]:
  "k_list (ks_hset k fs v) = k_list v" "k_set (ks_hset k fs v) = k_set v"
  "k_str (ks_hset k fs v) = k_str v" "k_ttl (ks_hset k fs v) = k_ttl v"
  "k_hash (ks_hset k fs v) = (k_hash v)(k := k_hash v k ++ map_of (rev fs))"
  by (simp_all add: ks_hset_def foldl_upd_hash)

lemma ks_sadd_sel [simp]:
  "k_list (ks_sadd k x v) = k_list v" "k_set (ks_sadd k x v) = (k_set v)(k := insert x (k_set v k))"
  "k_hash (ks_sadd k x v) = k_hash v" "k_str (ks_sadd k x v) = k_str v" "k_ttl (ks_sadd k x v) = k_ttl v"
  by (simp_all add: ks_sadd_def)

lemma ks_srem_sel [simp]:
  "k_list (ks_srem k x v) = k_list v" "k_set (ks_srem k x v) = (k_set v)(k := k_set v k - {x})"
  "k_hash (ks_srem k x v) = k_hash v" "k_str (ks_srem k x v) = k_str v"
  by (simp_all add: ks_srem_def)

lemma ks_push_sel [simp]:
  "k_list (ks_rpush k x v) = (k_list v)(k := k_list v k @ [x])" "k_list (ks_lpush k x v) = (k_list v)(k := x # k_list v k)"
  "k_set (ks_rpush k x v) = k_set v" "k_set (ks_lpush k x v) = k_set v"
  "k_hash (ks_rpush k x v) = k_hash v" "k_hash (ks_lpush k x v) = k_hash v"
  "k_str (ks_rpush k x v) = k_str v" "k_str (ks_lpush k x v) = k_str v"
  "k_ttl (ks_rpush k x v) = k_ttl v" "k_ttl (ks_lpush k x v) = k_ttl v"
  by (simp_all add: ks_rpush_def ks_lpush_def)

lemma ks_lrem_sel [simp]:
  "k_list (ks_lrem k x v) = (k_list v)(k := remove1 x (k_list v k))"
  "k_set (ks_lrem k x v) = k_set v" "k_hash (ks_lrem k x v) = k_hash v" "k_str (ks_lrem k x v) = k_str v"
  by (simp_all add: ks_lrem_def)

lemma ks_lmove_sel [simp]:
  "k_set (ks_lmove a b v) = k_set v" "k_hash (ks_lmove a b v) = k_hash v" "k_str (ks_lmove a b v) = k_str v"
  by (simp_all add: ks_lmove_def split: list.split)

lemma k_list_lmove:
  "a \<noteq> b \<Longrightarrow> k_list (ks_lmove a b v) =
     (case k_list v a of [] \<Rightarrow> k_list v | x # xs \<Rightarrow> (k_list v)(a := xs, b := k_list v b @ [x]))"
  by (simp add: ks_lmove_def fun_upd_twist split: list.split)

lemma ks_set_ex_sel [simp]:
  "k_list (ks_set_ex k x n v) = (k_list v)(k := [])" "k_set (ks_set_ex k x n v) = (k_set v)(k := {})"
  "k_hash (ks_set_ex k x n v) = (k_hash v)(k := Map.empty)" "k_str (ks_set_ex k x n v) = (k_str v)(k \<mapsto> x)"
  "k_ttl (ks_set_ex k x n v) = (k_ttl v)(k \<mapsto> n)"
  by (simp_all add: ks_set_ex_def)

lemma ks_del_sel [simp]:
  "k_list (ks_del k v) = (k_list v)(k := [])" "k_set (ks_del k v) = (k_set v)(k := {})"
  "k_hash (ks_del k v) = (k_hash v)(k := Map.empty)" "k_str (ks_del k v) = (k_str v)(k := None)"
  "k_ttl (ks_del k v) = (k_ttl v)(k := None)"
  by (simp_all add: ks_del_def)

lemma k_ttl_expire: "k_hash v k f = Some x \<Longrightarrow> k_ttl (ks_expire k n v) k = Some n"
  by (auto simp: ks_expire_def key_exists_def)

end
