(* ===== verification/World.thy ===== *)
theory World
  imports Circuit_Breaker Redis "HOL-Library.Stream"
begin

text \<open>
  The world an operation of the job queue runs in: the Redis server, what the network and the client
  library make of each command, the readings of \<^verbatim>\<open>time.Now\<close>, and the registry of circuit breakers
  with the state changes reported to \<^verbatim>\<open>onStateChange\<close>.  An operation maps a world to its result (an
  error or a value) and the world after it.
\<close>

section \<open>The world\<close>

text \<open>
  A command is answered after the client library sent it \<open>n + 1\<close> times (\<open>Reply n\<close>: it retries on its
  own), or the call fails although the server executed the command \<open>n\<close> times (\<open>NoReply n\<close>).
\<close>

datatype outcome = Reply nat | NoReply nat

record 's world =
  server :: 's
  net :: "outcome stream"
  clock :: "go_time stream"
  breakers :: "(string \<rightharpoonup> circuit_breaker) option"
  state_changes :: "(string \<times> CircuitState \<times> CircuitState) list"

type_synonym ('s, 'a) op = "'s world \<Rightarrow> (go_error + 'a) \<times> 's world"

definition redis_err :: go_error where
  "redis_err = NetError ''redis''"

definition redis_Nil :: go_error where
  "redis_Nil = Sentinel ''redis: nil''"

definition rcall :: "('s \<Rightarrow> 'a \<times> 's) \<Rightarrow> ('s, 'a) op" where
  "rcall f w =
     (case shd (net w) of
        Reply n \<Rightarrow> (let (a, s) = f (((\<lambda>s. snd (f s)) ^^ n) (server w))
                    in (Inr a, w\<lparr>server := s, net := stl (net w)\<rparr>))
      | NoReply n \<Rightarrow> (Inl redis_err, w\<lparr>server := ((\<lambda>s. snd (f s)) ^^ n) (server w), net := stl (net w)\<rparr>))"

text \<open>Commands whose reply the caller does not use, and commands that only read.\<close>

definition write_cmd :: "('s \<Rightarrow> 's) \<Rightarrow> 's \<Rightarrow> unit \<times> 's" where
  "write_cmd c s = ((), c s)"

definition read_cmd :: "('s \<Rightarrow> 'a) \<Rightarrow> 's \<Rightarrow> 'a \<times> 's" where
  "read_cmd g s = (g s, s)"

definition time_now :: "'s world \<Rightarrow> go_time \<times> 's world" where
  "time_now w = (shd (clock w), w\<lparr>clock := stl (clock w)\<rparr>)"

section \<open>Sequencing\<close>

text \<open>
  Go's early return on an error (\<^verbatim>\<open>if err != nil\<close>), the pair of a value and an error that the caller
  inspects, \<^verbatim>\<open>fmt.Errorf("...: %v", err)\<close>, and a loop whose body cannot fail.
\<close>

definition op_ret :: "'a \<Rightarrow> ('s, 'a) op" where
  "op_ret a w = (Inr a, w)"

definition op_fail :: "go_error \<Rightarrow> ('s, 'a) op" where
  "op_fail e w = (Inl e, w)"

definition op_bind :: "('s, 'a) op \<Rightarrow> ('a \<Rightarrow> ('s, 'b) op) \<Rightarrow> ('s, 'b) op" where
  "op_bind m k w = (case m w of (Inl e, w1) \<Rightarrow> (Inl e, w1) | (Inr a, w1) \<Rightarrow> k a w1)"

definition op_seq :: "('s, 'a) op \<Rightarrow> ('s, 'b) op \<Rightarrow> ('s, 'b) op" where
  "op_seq m n = op_bind m (\<lambda>_. n)"

definition op_try :: "('s, 'a) op \<Rightarrow> ('s, go_error + 'a) op" where
  "op_try m w = (case m w of (r, w1) \<Rightarrow> (Inr r, w1))"

definition op_ignore :: "('s, 'a) op \<Rightarrow> ('s, unit) op" where
  "op_ignore m = op_bind (op_try m) (\<lambda>_. op_ret ())"

definition wrapv :: "string \<Rightarrow> ('s, 'a) op \<Rightarrow> ('s, 'a) op" where
  "wrapv msg m w = (case m w of (Inl e, w1) \<Rightarrow> (Inl (Errorf (msg @ err_msg e) []), w1) | (Inr a, w1) \<Rightarrow> (Inr a, w1))"

definition op_now :: "('s, go_time) op" where
  "op_now w = (case time_now w of (t, w1) \<Rightarrow> (Inr t, w1))"

fun op_each :: "('x \<Rightarrow> ('s, unit) op) \<Rightarrow> 'x list \<Rightarrow> ('s, unit) op" where
  "op_each f [] = op_ret ()"
| "op_each f (x # xs) = op_seq (f x) (op_each f xs)"

section \<open>Calls through a breaker\<close>

definition breaker_open :: go_error where
  "breaker_open = Sentinel ''circuit breaker is open''"

definition put_breaker :: "string \<Rightarrow> circuit_breaker \<Rightarrow> 's world \<Rightarrow> 's world" where
  "put_breaker name cb w = w\<lparr>breakers := map_option (\<lambda>reg. reg(name \<mapsto> cb)) (breakers w)\<rparr>"

definition get_breaker :: "string \<Rightarrow> 's world \<Rightarrow> circuit_breaker option" where
  "get_breaker name w = (case breakers w of None \<Rightarrow> None | Some reg \<Rightarrow> reg name)"

definition fireStateChange :: "string \<Rightarrow> transition \<Rightarrow> 's world \<Rightarrow> 's world" where
  "fireStateChange name tr w =
     (case tr of (from, to, changed) \<Rightarrow>
        if changed then w\<lparr>state_changes := state_changes w @ [(name, from, to)]\<rparr> else w)"

fun is_ok :: "go_error + 'a \<Rightarrow> bool" where
  "is_ok (Inl _) = False"
| "is_ok (Inr _) = True"

text \<open>
  \<^verbatim>\<open>Call\<close> once it is past its admission: the protected function runs outside the lock, and the breaker
  it settles is read again afterwards.
\<close>

definition run_admitted :: "string \<Rightarrow> ('s, 'a) op \<Rightarrow> bool \<Rightarrow> ('s, 'a) op" where
  "run_admitted name fn isProbe w =
     (let (r, w1) = fn w; (t, w2) = time_now w1 in
      case get_breaker name w2 of
        None \<Rightarrow> (r, w2)
      | Some cb \<Rightarrow>
          (let (tr, cb1) = settle_call isProbe (is_ok r) (unix_nano t) cb
           in (r, fireStateChange (cb_name cb1) tr (put_breaker name cb1 w2))))"

definition fire_opt :: "string \<Rightarrow> transition option \<Rightarrow> 's world \<Rightarrow> 's world" where
  "fire_opt name tr w = (case tr of None \<Rightarrow> w | Some x \<Rightarrow> fireStateChange name x w)"

definition cb_Call :: "string \<Rightarrow> ('s, 'a) op \<Rightarrow> circuit_breaker \<Rightarrow> ('s, 'a) op" where
  "cb_Call name fn cb w =
     (let (t1, w1) = time_now w; (t2, w2) = time_now w1 in
      case admit (unix_nano t1) (unix_nano t2) cb of
        (Rejected, _, _) \<Rightarrow> (Inl breaker_open, w2)
      | (Admitted p, tr, cb1) \<Rightarrow>
          run_admitted name fn p (fire_opt (cb_name cb1) tr (put_breaker name cb1 w2)))"

definition Do :: "string \<Rightarrow> ('s, 'a) op \<Rightarrow> ('s, 'a) op" where
  "Do name fn w =
     (case breakers w of
        Some reg \<Rightarrow> (case reg name of Some cb \<Rightarrow> cb_Call name fn cb w | None \<Rightarrow> fn w)
      | None \<Rightarrow> fn w)"

definition BreakerState :: "string \<Rightarrow> 's world \<Rightarrow> CircuitState \<times> bool" where
  "BreakerState name w =
     (case breakers w of
        None \<Rightarrow> (StateClosed, False)
      | Some reg \<Rightarrow> (case reg name of None \<Rightarrow> (StateClosed, False) | Some cb \<Rightarrow> (cb_state cb, True)))"

definition IsBreakerOpen :: "string \<Rightarrow> 's world \<Rightarrow> bool" where
  "IsBreakerOpen name w = (case BreakerState name w of (s, ok) \<Rightarrow> if \<not> ok then False else s = StateOpen)"

definition InitCircuitBreakers :: "'s world \<Rightarrow> 's world" where
  "InitCircuitBreakers w =
     (case breakers w of
        Some _ \<Rightarrow> w
      | None \<Rightarrow> w\<lparr>breakers := Some [''db'' \<mapsto> NewCircuitBreaker \<lparr>cfg_name = ''database'', cfg_maxFailures = 5, cfg_resetTimeout = 30 * second_ns\<rparr>,
                                   ''redis'' \<mapsto> NewCircuitBreaker \<lparr>cfg_name = ''redis'', cfg_maxFailures = 5, cfg_resetTimeout = 30 * second_ns\<rparr>]\<rparr>)"

definition redisDo :: "('s, 'a) op \<Rightarrow> ('s, 'a) op" where
  "redisDo fn = Do ''redis'' fn"

section \<open>What every call keeps\<close>

lemma time_now_sel [simp]:
  "server (snd (time_now w)) = server w" "net (snd (time_now w)) = net w"
  "breakers (snd (time_now w)) = breakers w"
  by (simp_all add: time_now_def)

lemma fire_sel [simp]:
  "server (fireStateChange n tr w) = server w" "net (fireStateChange n tr w) = net w"
  "breakers (fireStateChange n tr w) = breakers w" "clock (fireStateChange n tr w) = clock w"
  by (simp_all add: fireStateChange_def split: prod.splits)

lemma put_breaker_sel [simp]:
  "server (put_breaker n cb w) = server w" "net (put_breaker n cb w) = net w"
  "clock (put_breaker n cb w) = clock w"
  by (simp_all add: put_breaker_def)

lemma fire_opt_sel [simp]:
  "server (fire_opt n tr w) = server w" "net (fire_opt n tr w) = net w"
  "breakers (fire_opt n tr w) = breakers w" "clock (fire_opt n tr w) = clock w"
  by (simp_all add: fire_opt_def split: option.split)

text \<open>
  A call through a breaker either is shed, and then nothing happened to the server, or runs the
  function once, in a world with the same server and network.
\<close>

definition same_run :: "('s, 'a) op \<Rightarrow> 's world \<Rightarrow> 's world \<Rightarrow> (go_error + 'a) \<times> 's world \<Rightarrow> bool" where
  "same_run fn w w1 res \<longleftrightarrow> server w1 = server w \<and> net w1 = net w \<and> fst res = fst (fn w1) \<and>
     server (snd res) = server (snd (fn w1)) \<and> net (snd res) = net (snd (fn w1))"

definition was_shed :: "'s world \<Rightarrow> (go_error + 'a) \<times> 's world \<Rightarrow> bool" where
  "was_shed w res \<longleftrightarrow> fst res = Inl breaker_open \<and> server (snd res) = server w \<and> net (snd res) = net w"

lemma run_admitted_same: "server w1 = server w \<Longrightarrow> net w1 = net w \<Longrightarrow> same_run fn w w1 (run_admitted name fn p w1)"
  by (simp add: same_run_def run_admitted_def time_now_def Let_def split: prod.split option.split)

lemma cb_Call_cases: "was_shed w (cb_Call name fn cb w) \<or> (\<exists>w1. same_run fn w w1 (cb_Call name fn cb w))"
proof -
  obtain a tr cb1 where adm: "admit (unix_nano (shd (clock w))) (unix_nano (shd (stl (clock w)))) cb = (a, tr, cb1)"
    by (cases "admit (unix_nano (shd (clock w))) (unix_nano (shd (stl (clock w)))) cb") auto
  show ?thesis
  proof (cases a)
    case Rejected
    then show ?thesis by (simp add: was_shed_def cb_Call_def time_now_def adm)
  next
    case (Admitted p)
    then show ?thesis
      by (simp add: cb_Call_def time_now_def adm) (fastforce intro: run_admitted_same)
  qed
qed

lemma Do_cases: "was_shed w (Do name fn w) \<or> (\<exists>w1. same_run fn w w1 (Do name fn w))"
proof -
  have "\<exists>w1. same_run fn w w1 (fn w)"
    by (intro exI [of _ w]) (simp add: same_run_def)
  then show ?thesis
    by (simp add: Do_def cb_Call_cases split: option.split)
qed

lemma redisDo_cases:
  fixes w :: "'s world"
  obtains "was_shed w (redisDo fn w)" | w1 where "same_run fn w w1 (redisDo fn w)"
  using Do_cases [of w "''redis''" fn] by (auto simp: redisDo_def)

text \<open>
  An operation keeps a predicate of the server whatever the network does, when the commands it
  issues keep it: also when a command is executed and its reply lost, or executed several times.
\<close>

definition keeps :: "('s \<Rightarrow> bool) \<Rightarrow> ('s, 'a) op \<Rightarrow> bool" where
  "keeps P m \<longleftrightarrow> (\<forall>w. P (server w) \<longrightarrow> P (server (snd (m w))))"

lemma keepsD: "keeps P m \<Longrightarrow> P (server w) \<Longrightarrow> P (server (snd (m w)))"
  by (simp add: keeps_def)

lemma funpow_keeps: "(\<And>s. P s \<Longrightarrow> P (g s)) \<Longrightarrow> P s \<Longrightarrow> P ((g ^^ n) s)"
  by (induction n) auto

lemma keeps_rcall: "(\<And>s. P s \<Longrightarrow> P (snd (f s))) \<Longrightarrow> keeps P (rcall f)"
  unfolding keeps_def rcall_def
  by (auto simp: Let_def intro: funpow_keeps split: outcome.split prod.split)
    (metis funpow_keeps snd_conv)

lemma keeps_redisDo: "keeps P fn \<Longrightarrow> keeps P (redisDo fn)"
proof (unfold keeps_def, intro allI impI)
  fix w :: "'a world" assume k: "\<forall>w. P (server w) \<longrightarrow> P (server (snd (fn w)))" and P: "P (server w)"
  show "P (server (snd (redisDo fn w)))"
    by (rule redisDo_cases [of w fn]) (use k P in \<open>auto simp: was_shed_def same_run_def\<close>)
qed

section \<open>A healthy world\<close>

text \<open>
  Every command is answered after one execution, the Redis breaker is closed (or not set up), and the
  readings of the clock still to come satisfy \<open>C\<close>.
\<close>

definition breaker_quiet :: "circuit_breaker option \<Rightarrow> bool" where
  "breaker_quiet b = (case b of None \<Rightarrow> True | Some cb \<Rightarrow> cb_state cb = StateClosed)"

definition calm :: "(go_time \<Rightarrow> bool) \<Rightarrow> 's world \<Rightarrow> bool" where
  "calm C w \<longleftrightarrow> net w = sconst (Reply 0) \<and> breaker_quiet (get_breaker ''redis'' w) \<and> (\<forall>t\<in>sset (clock w). C t)"

abbreviation healthy :: "'s world \<Rightarrow> bool" where
  "healthy \<equiv> calm (\<lambda>_. True)"

lemma stl_subset [dest]: "t \<in> sset (stl c) \<Longrightarrow> t \<in> sset c"
  by (cases c) auto

lemma calm_True: "calm C w \<Longrightarrow> healthy w"
  by (simp add: calm_def)

lemma rcall_healthy:
  assumes "calm C w"
  shows "fst (rcall f w) = Inr (fst (f (server w)))" "server (snd (rcall f w)) = snd (f (server w))"
    "calm C (snd (rcall f w))" "breakers (snd (rcall f w)) = breakers w"
  using assms by (simp_all add: rcall_def calm_def get_breaker_def Let_def split: prod.splits)

lemma time_now_healthy: "calm C w \<Longrightarrow> calm C (snd (time_now w))"
  by (auto simp: calm_def time_now_def get_breaker_def)

lemma quiet_settle: "cb_state cb = StateClosed \<Longrightarrow> cb_state (snd (settle_call False True t cb)) = StateClosed"
  by (simp add: breaker_defs)

lemma run_admitted_healthy:
  assumes "fst (fn w) = Inr a \<and> server (snd (fn w)) = s \<and> calm C (snd (fn w))"
  shows "fst (run_admitted ''redis'' fn False w) = Inr a \<and>
    server (snd (run_admitted ''redis'' fn False w)) = s \<and> calm C (snd (run_admitted ''redis'' fn False w))"
proof -
  obtain r w1 where fn: "fn w = (r, w1)" by (cases "fn w") auto
  show ?thesis
    using assms quiet_settle [of "the (get_breaker ''redis'' w1)" "unix_nano (shd (clock w1))"]
    by (cases "breakers w1")
      (auto simp: fn run_admitted_def time_now_def calm_def get_breaker_def put_breaker_def
        breaker_quiet_def split: option.splits prod.splits)
qed

text \<open>A function that keeps the breakers and succeeds is run by \<^const>\<open>Do\<close> as if there were no breaker.\<close>

lemma redisDo_healthy:
  assumes w: "calm C w"
    and fn: "\<And>w1. calm C w1 \<Longrightarrow> server w1 = server w \<Longrightarrow>
      fst (fn w1) = Inr a \<and> server (snd (fn w1)) = s \<and> calm C (snd (fn w1))"
  shows "fst (redisDo fn w) = Inr a \<and> server (snd (redisDo fn w)) = s \<and> calm C (snd (redisDo fn w))"
proof (cases "get_breaker ''redis'' w")
  case None
  then have "redisDo fn w = fn w"
    by (simp add: redisDo_def Do_def get_breaker_def split: option.splits)
  with fn w show ?thesis by simp
next
  case (Some cb)
  with w have cb: "cb_state cb = StateClosed" by (simp add: calm_def breaker_quiet_def)
  define w3 where "w3 = put_breaker ''redis'' cb (w\<lparr>clock := stl (stl (clock w))\<rparr>)"
  have w3: "calm C w3" "server w3 = server w"
    using w cb Some
    by (auto simp: w3_def calm_def put_breaker_def get_breaker_def breaker_quiet_def split: option.split_asm)
  have "redisDo fn w = cb_Call ''redis'' fn cb w"
    using Some by (cases "breakers w") (simp_all add: redisDo_def Do_def get_breaker_def)
  also have "\<dots> = run_admitted ''redis'' fn False w3"
    by (simp add: cb_Call_def time_now_def admit_def cb fire_opt_def w3_def)
  finally show ?thesis
    using run_admitted_healthy [of "fn" w3 a s C] fn [OF w3] by simp
qed

lemma redisDo_rcall_healthy:
  assumes "calm C w"
  shows "fst (redisDo (rcall f) w) = Inr (fst (f (server w)))"
    "server (snd (redisDo (rcall f) w)) = snd (f (server w))" "calm C (snd (redisDo (rcall f) w))"
  using redisDo_healthy [OF assms, of "rcall f" "fst (f (server w))" "snd (f (server w))"]
  by (simp_all add: rcall_healthy)

lemmas healthy_simps = rcall_healthy redisDo_rcall_healthy time_now_healthy

section \<open>Rules for whole operations\<close>

lemma keeps_ret: "keeps P (op_ret a)" and keeps_fail: "keeps P (op_fail e)"
  by (simp_all add: keeps_def op_ret_def op_fail_def)

lemma keeps_bind: "keeps P m \<Longrightarrow> (\<And>a. keeps P (k a)) \<Longrightarrow> keeps P (op_bind m k)"
  unfolding keeps_def op_bind_def by (simp split: prod.split sum.split) (metis snd_conv)

lemma keeps_seq: "keeps P m \<Longrightarrow> keeps P n \<Longrightarrow> keeps P (op_seq m n)"
  unfolding op_seq_def by (rule keeps_bind)

lemma keeps_try: "keeps P m \<Longrightarrow> keeps P (op_try m)"
  unfolding keeps_def op_try_def by (simp add: case_prod_beta)

lemma keeps_ignore: "keeps P m \<Longrightarrow> keeps P (op_ignore m)"
  unfolding op_ignore_def by (intro keeps_bind keeps_try keeps_ret)

lemma keeps_wrapv: "keeps P m \<Longrightarrow> keeps P (wrapv msg m)"
  unfolding keeps_def wrapv_def by (simp split: prod.split sum.split) (metis snd_conv)

lemma keeps_now: "keeps P op_now"
  by (simp add: keeps_def op_now_def case_prod_beta)

lemma keeps_each: "(\<And>x. x \<in> set xs \<Longrightarrow> keeps P (f x)) \<Longrightarrow> keeps P (op_each f xs)"
  by (induction xs) (auto intro: keeps_seq keeps_ret)

lemmas keeps_rules = keeps_rcall keeps_redisDo keeps_ret keeps_fail keeps_bind keeps_seq keeps_try
  keeps_ignore keeps_wrapv keeps_now keeps_each

text \<open>
  Triples for any world: whatever the network, the clock and the breakers do, from a server that
  satisfies \<open>P\<close> the operation ends with a result and a server that satisfy \<open>Q\<close>.
\<close>

definition hoare :: "('s \<Rightarrow> bool) \<Rightarrow> ('s, 'a) op \<Rightarrow> (go_error + 'a \<Rightarrow> 's \<Rightarrow> bool) \<Rightarrow> bool" where
  "hoare P m Q \<longleftrightarrow> (\<forall>w. P (server w) \<longrightarrow> Q (fst (m w)) (server (snd (m w))))"

lemma hoareD: "hoare P m Q \<Longrightarrow> P (server w) \<Longrightarrow> Q (fst (m w)) (server (snd (m w)))"
  by (simp add: hoare_def)

lemma hoare_keeps: "keeps P m \<Longrightarrow> hoare P m (\<lambda>r. P)"
  by (simp add: hoare_def keeps_def)

lemma hoare_ret: "(\<And>s. P s \<Longrightarrow> Q (Inr a) s) \<Longrightarrow> hoare P (op_ret a) Q"
  by (simp add: hoare_def op_ret_def)

lemma hoare_bind:
  assumes "hoare P m M" "\<And>a. hoare (M (Inr a)) (k a) Q" "\<And>e s. M (Inl e) s \<Longrightarrow> Q (Inl e) s"
  shows "hoare P (op_bind m k) Q"
  using assms unfolding hoare_def op_bind_def
  by (auto simp: case_prod_beta split: sum.split)

lemma hoare_seq:
  assumes "hoare P m (\<lambda>r. M)" "hoare M n Q" "\<And>e s. M s \<Longrightarrow> Q (Inl e) s"
  shows "hoare P (op_seq m n) Q"
  unfolding op_seq_def using assms by (rule hoare_bind)

lemma hoare_try: "hoare P m (\<lambda>r. Q (Inr r)) \<Longrightarrow> hoare P (op_try m) Q"
  by (simp add: hoare_def op_try_def case_prod_beta)

lemma hoare_conseq: "hoare P m Q \<Longrightarrow> (\<And>s. P' s \<Longrightarrow> P s) \<Longrightarrow> (\<And>r s. Q r s \<Longrightarrow> Q' r s) \<Longrightarrow> hoare P' m Q'"
  by (auto simp: hoare_def)

text \<open>An answered command was executed, and the last execution established what it establishes.\<close>

lemma hoare_rcall_done: "(\<And>s. D (snd (f s))) \<Longrightarrow> hoare P (rcall f) (\<lambda>r s. is_ok r \<longrightarrow> D s)"
  unfolding hoare_def rcall_def by (auto simp: Let_def split: outcome.split prod.split) (metis snd_conv)

lemma hoare_redisDo_done:
  assumes "hoare (\<lambda>_. True) fn (\<lambda>r s. is_ok r \<longrightarrow> D s)"
  shows "hoare (\<lambda>_. True) (redisDo fn) (\<lambda>r s. is_ok r \<longrightarrow> D s)"
  unfolding hoare_def
proof (intro allI impI)
  fix w :: "'a world" assume ok: "is_ok (fst (redisDo fn w))"
  show "D (server (snd (redisDo fn w)))"
  proof (rule redisDo_cases [of w fn])
    fix w1 assume "same_run fn w w1 (redisDo fn w)"
    with ok hoareD [OF assms, of w1] show ?thesis by (simp add: same_run_def)
  qed (use ok in \<open>simp add: was_shed_def\<close>)
qed

lemma hoare_redisDo:
  assumes "hoare P fn Q" "\<And>s. P s \<Longrightarrow> Q (Inl breaker_open) s"
  shows "hoare P (redisDo fn) Q"
  unfolding hoare_def
proof (intro allI impI)
  fix w :: "'a world" assume P: "P (server w)"
  show "Q (fst (redisDo fn w)) (server (snd (redisDo fn w)))"
  proof (rule redisDo_cases [of w fn])
    fix w1 assume "same_run fn w w1 (redisDo fn w)"
    with P hoareD [OF assms(1), of w1] show ?thesis by (simp add: same_run_def)
  qed (use P assms(2) in \<open>simp add: was_shed_def\<close>)
qed

text \<open>A command that reads leaves the server as it is, and the answer is what it read.\<close>

lemma funpow_read [simp]: "((\<lambda>s. snd (read_cmd g s)) ^^ n) s = s"
  by (induction n) (simp_all add: read_cmd_def)

lemma hoare_read:
  assumes "\<And>s. P s \<Longrightarrow> Q (Inr (g s)) s" "\<And>e s. P s \<Longrightarrow> Q (Inl e) s"
  shows "hoare P (rcall (read_cmd g)) Q"
  using assms by (auto simp: hoare_def rcall_def Let_def case_prod_beta split: outcome.split)
    (simp_all add: read_cmd_def)

text \<open>A command that is executed any number of times, the last one of which gives the answer.\<close>

lemma hoare_rcall:
  assumes "\<And>s. P s \<Longrightarrow> P (snd (f s))" "\<And>s. P s \<Longrightarrow> Q (Inr (fst (f s))) (snd (f s))" "\<And>e s. P s \<Longrightarrow> Q (Inl e) s"
  shows "hoare P (rcall f) Q"
  unfolding hoare_def
proof (intro allI impI)
  fix w :: "'a world" assume "P (server w)"
  then have "P (((\<lambda>s. snd (f s)) ^^ n) (server w))" for n by (induction n) (auto intro: assms(1))
  then show "Q (fst (rcall f w)) (server (snd (rcall f w)))"
    using assms(2,3) by (auto simp: rcall_def Let_def case_prod_beta split: outcome.split)
qed

lemma hoare_wrapv_done: "hoare P m (\<lambda>r s. is_ok r \<longrightarrow> D s) \<Longrightarrow> hoare P (wrapv msg m) (\<lambda>r s. is_ok r \<longrightarrow> D s)"
  by (auto simp: hoare_def wrapv_def case_prod_beta split: sum.splits)

lemma hoare_seq_done:
  assumes "hoare P m (\<lambda>r s. is_ok r \<longrightarrow> D s)" "hoare D n Q" "\<And>e s. Q (Inl e) s"
  shows "hoare P (op_seq m n) Q"
  unfolding op_seq_def by (rule hoare_bind [OF assms(1)]) (use assms in simp_all)

lemma hoare_try_done:
  assumes "hoare P m (\<lambda>r s. is_ok r \<longrightarrow> D s)" "\<And>x. hoare D (k (Inr x)) Q" "\<And>e. hoare (\<lambda>_. True) (k (Inl e)) Q"
  shows "hoare P (op_bind (op_try m) k) Q"
  unfolding hoare_def
proof (intro allI impI)
  fix w :: "'a world" assume "P (server w)"
  with assms(1) have "is_ok (fst (m w)) \<longrightarrow> D (server (snd (m w)))" by (rule hoareD)
  then show "Q (fst (op_bind (op_try m) k w)) (server (snd (op_bind (op_try m) k w)))"
    using assms(2,3) by (cases "fst (m w)") (auto simp: op_bind_def op_try_def case_prod_beta hoare_def)
qed

text \<open>
  The weakest precondition of an operation in a healthy world, as a predicate of the server: whatever
  the clock reads, the operation ends with a result and a server that satisfy \<open>Q\<close>, and the world stays
  healthy.
\<close>

definition wp :: "(go_time \<Rightarrow> bool) \<Rightarrow> ('s, 'a) op \<Rightarrow> (go_error + 'a \<Rightarrow> 's \<Rightarrow> bool) \<Rightarrow> 's \<Rightarrow> bool" where
  "wp C m Q s \<longleftrightarrow> (\<forall>w. calm C w \<and> server w = s \<longrightarrow>
     Q (fst (m w)) (server (snd (m w))) \<and> calm C (snd (m w)))"

lemma wpD: "wp C m Q (server w) \<Longrightarrow> calm C w \<Longrightarrow> Q (fst (m w)) (server (snd (m w))) \<and> calm C (snd (m w))"
  by (simp add: wp_def)

lemma wp_mono: "wp C m Q s \<Longrightarrow> (\<And>r s. Q r s \<Longrightarrow> Q' r s) \<Longrightarrow> wp C m Q' s"
  by (simp add: wp_def)

lemma wp_ret: "Q (Inr a) s \<Longrightarrow> wp C (op_ret a) Q s" and wp_fail: "Q (Inl e) s \<Longrightarrow> wp C (op_fail e) Q s"
  by (simp_all add: wp_def op_ret_def op_fail_def)

lemma wp_rcall: "Q (Inr (fst (f s))) (snd (f s)) \<Longrightarrow> wp C (rcall f) Q s"
  by (auto simp: wp_def rcall_healthy)

lemma wp_bind: "wp C m (\<lambda>r s1. case r of Inl e \<Rightarrow> Q (Inl e) s1 | Inr a \<Rightarrow> wp C (k a) Q s1) s \<Longrightarrow> wp C (op_bind m k) Q s"
  by (simp add: wp_def op_bind_def case_prod_beta split: sum.splits) blast

lemma wp_seq: "wp C m (\<lambda>r s1. case r of Inl e \<Rightarrow> Q (Inl e) s1 | Inr a \<Rightarrow> wp C n Q s1) s \<Longrightarrow> wp C (op_seq m n) Q s"
  unfolding op_seq_def by (rule wp_bind)

lemma wp_try: "wp C m (\<lambda>r. Q (Inr r)) s \<Longrightarrow> wp C (op_try m) Q s"
  by (simp add: wp_def op_try_def case_prod_beta)

lemma wp_ignore: "wp C m (\<lambda>r. Q (Inr ())) s \<Longrightarrow> wp C (op_ignore m) Q s"
  unfolding op_ignore_def by (intro wp_bind wp_try) (simp add: wp_def op_ret_def)

lemma wp_wrapv:
  "wp C m (\<lambda>r s1. case r of Inl e \<Rightarrow> Q (Inl (Errorf (msg @ err_msg e) [])) s1 | Inr a \<Rightarrow> Q (Inr a) s1) s \<Longrightarrow>
   wp C (wrapv msg m) Q s"
  by (simp add: wp_def wrapv_def case_prod_beta split: sum.splits)

lemma wp_now: "(\<And>t. C t \<Longrightarrow> Q (Inr t) s) \<Longrightarrow> wp C op_now Q s"
  by (auto simp: wp_def op_now_def case_prod_beta time_now_healthy) (simp add: calm_def time_now_def shd_sset)

lemma wp_redisDo_rcall: "Q (Inr (fst (f s))) (snd (f s)) \<Longrightarrow> wp C (redisDo (rcall f)) Q s"
  by (auto simp: wp_def redisDo_rcall_healthy)

lemma wp_redisDo:
  assumes "wp C fn (\<lambda>r s1. r = Inr a \<and> s1 = s') s" "Q (Inr a) s'"
  shows "wp C (redisDo fn) Q s"
  using assms redisDo_healthy [where fn = fn and a = a and s = s' and C = C] unfolding wp_def by (metis (no_types, lifting))

lemmas wp_rules = wp_ret wp_fail wp_rcall wp_bind wp_seq wp_try wp_ignore wp_wrapv wp_now wp_redisDo_rcall

text \<open>Symbolic execution: in a healthy world a single command always answers.\<close>

lemma wp_if: "(c \<Longrightarrow> wp C m Q s) \<Longrightarrow> (\<not> c \<Longrightarrow> wp C n Q s) \<Longrightarrow> wp C (if c then m else n) Q s"
  by simp

lemma wp_step_bind:
  "wp C (k (fst (f s))) Q (snd (f s)) \<Longrightarrow> wp C (op_bind (rcall f) k) Q s"
  "wp C (k (fst (f s))) Q (snd (f s)) \<Longrightarrow> wp C (op_bind (redisDo (rcall f)) k) Q s"
  "wp C (k (fst (f s))) Q (snd (f s)) \<Longrightarrow> wp C (op_bind (wrapv msg (rcall f)) k) Q s"
  "wp C (k (fst (f s))) Q (snd (f s)) \<Longrightarrow> wp C (op_bind (wrapv msg (redisDo (rcall f))) k) Q s"
  "wp C (k' (Inr (fst (f s)))) Q (snd (f s)) \<Longrightarrow> wp C (op_bind (op_try (rcall f)) k') Q s"
  "wp C (k' (Inr (fst (f s)))) Q (snd (f s)) \<Longrightarrow> wp C (op_bind (op_try (redisDo (rcall f))) k') Q s"
  by (auto intro!: wp_rules)

lemma wp_step_seq:
  "wp C n Q (snd (f s)) \<Longrightarrow> wp C (op_seq (rcall f) n) Q s"
  "wp C n Q (snd (f s)) \<Longrightarrow> wp C (op_seq (redisDo (rcall f)) n) Q s"
  "wp C n Q (snd (f s)) \<Longrightarrow> wp C (op_seq (wrapv msg (rcall f)) n) Q s"
  "wp C n Q (snd (f s)) \<Longrightarrow> wp C (op_seq (wrapv msg (redisDo (rcall f))) n) Q s"
  "wp C n Q (snd (f s)) \<Longrightarrow> wp C (op_seq (op_ignore (rcall f)) n) Q s"
  "wp C n Q (snd (f s)) \<Longrightarrow> wp C (op_seq (op_ignore (redisDo (rcall f))) n) Q s"
  "wp C n Q s \<Longrightarrow> wp C (op_seq (op_ret a) n) Q s"
  by (auto intro!: wp_rules)

lemma wp_step_now: "(\<And>t. C t \<Longrightarrow> wp C (k t) Q s) \<Longrightarrow> wp C (op_bind op_now k) Q s"
  by (auto intro!: wp_rules)

lemma op_seq_assoc: "op_seq (op_seq m n) l = op_seq m (op_seq n l)"
  by (auto simp: op_seq_def op_bind_def fun_eq_iff split: prod.split sum.split)

lemma op_seq_if: "op_seq (if c then m else n) l = (if c then op_seq m l else op_seq n l)"
  by simp

lemmas wp_steps = wp_step_bind wp_step_seq wp_step_now wp_if

section \<open>Load shedding\<close>

text \<open>
  While the Redis breaker is open and its reset timeout has not elapsed, a call through it fails
  at once: the server is not contacted, no outcome of the network is consumed, and the breaker and
  the reported state changes stay as they are.
\<close>
theorem open_breaker_sheds:
  assumes "breakers w = Some reg" "reg ''redis'' = Some cb" "cb_state cb = StateOpen"
    "unix_nano (shd (clock w)) - lastFailTime cb < resetTimeout cb"
  shows "fst (redisDo fn w) = Inl breaker_open \<and> server (snd (redisDo fn w)) = server w \<and> net (snd (redisDo fn w)) = net w
    \<and> breakers (snd (redisDo fn w)) = breakers w \<and> state_changes (snd (redisDo fn w)) = state_changes w"
  using assms by (simp add: redisDo_def Do_def cb_Call_def time_now_def admit_def)

section \<open>Concrete worlds\<close>

text \<open>A world with an answering network and a clock that stands at \<open>t\<close>, for the concrete instances of the theorems.\<close>

definition quiet_world :: "go_time \<Rightarrow> 's \<Rightarrow> 's world" where
  "quiet_world t s = \<lparr>server = s, net = sconst (Reply 0), clock = sconst t, breakers = None, state_changes = []\<rparr>"

lemma sset_sconst: "sset (sconst t) = {t}"
  by (auto simp: sset_siterate)

lemma calm_quiet_world: "C t \<Longrightarrow> calm C (quiet_world t s)"
  by (simp add: calm_def quiet_world_def get_breaker_def breaker_quiet_def sset_sconst)

lemma server_quiet_world [simp]: "server (quiet_world t s) = s"
  by (simp add: quiet_world_def)

definition tripped :: circuit_breaker where
  "tripped = (NewCircuitBreaker \<lparr>cfg_name = ''redis'', cfg_maxFailures = 5, cfg_resetTimeout = 30 * second_ns\<rparr>)
     \<lparr>cb_state := StateOpen, failureCount := 5\<rparr>"

theorem open_breaker_sheds_witness:
  "fst (redisDo (rcall (write_cmd Suc)) ((quiet_world \<lparr>year = 1970, month = 1, day = 1, hour = 0, minute = 0, second = 1, nano = 0, zone = 0\<rparr> 0)
     \<lparr>breakers := Some [''redis'' \<mapsto> tripped]\<rparr>)) = Inl breaker_open"
proof -
  let ?t = "\<lparr>year = 1970, month = 1, day = 1, hour = 0, minute = 0, second = 1, nano = 0, zone = 0\<rparr>"
  have "unix_nano ?t - lastFailTime tripped < resetTimeout tripped"
    by (simp add: tripped_def NewCircuitBreaker_def second_ns_def unix_nano_def day_number_def days_before_year_def)
  moreover have "cb_state tripped = StateOpen" by (simp add: tripped_def)
  ultimately show ?thesis
    by (intro conjunct1 [OF open_breaker_sheds [where reg = "[''redis'' \<mapsto> tripped]" and cb = tripped]])
      (simp_all add: quiet_world_def)
qed

end
