(* ===== verification/Json.thy ===== *)
theory Json
  imports Prelude
begin

text \<open>
  The part of Go's \<^verbatim>\<open>encoding/json\<close> the program relies on: a value type, the compact printer of
  \<^verbatim>\<open>json.Marshal\<close> (with its string escapes, including the HTML ones) and the reader of
  \<^verbatim>\<open>json.Unmarshal\<close> into an \<^verbatim>\<open>interface{}\<close>.  A number is kept as its token; an object keeps its
  members in the order of the text, and a lookup takes the last one, as decoding into a Go map
  does.  The reader takes fuel, which \<open>json_unmarshal\<close> sets from the length of the text; that this
  is enough is part of the round trip \<open>unmarshal_marshal\<close>.  Bytes from 128 up are passed through,
  so a string is expected to be valid UTF-8 without U+2028 and U+2029.
\<close>

datatype json =
    JNull
  | JBool bool
  | JNum string
  | JStr string
  | JArr "json list"
  | JObj "(string \<times> json) list"

section \<open>Marshal\<close>

definition hex_digit :: "nat \<Rightarrow> char" where
  "hex_digit d = (if d < 10 then char_of (48 + d) else char_of (87 + d))"

definition escape_char :: "char \<Rightarrow> string" where
  "escape_char c =
     (let n = (of_char c :: nat) in
      if n = 34 then [CHR 0x5C, CHR 0x22]
      else if n = 92 then [CHR 0x5C, CHR 0x5C]
      else if n = 8 then CHR 0x5C # ''b''
      else if n = 12 then CHR 0x5C # ''f''
      else if n = 10 then CHR 0x5C # ''n''
      else if n = 13 then CHR 0x5C # ''r''
      else if n = 9 then CHR 0x5C # ''t''
      else if n < 32 \<or> n = 60 \<or> n = 62 \<or> n = 38
        then CHR 0x5C # ''u00'' @ [hex_digit (n div 16), hex_digit (n mod 16)]
      else [c])"

definition marshal_str :: "string \<Rightarrow> string" where
  "marshal_str s = CHR 0x22 # concat (map escape_char s) @ [CHR 0x22]"

fun marshal :: "json \<Rightarrow> string"
  and marshal_elems :: "json list \<Rightarrow> string"
  and marshal_members :: "(string \<times> json) list \<Rightarrow> string" where
  "marshal JNull = ''null''"
| "marshal (JBool b) = (if b then ''true'' else ''false'')"
| "marshal (JNum s) = s"
| "marshal (JStr s) = marshal_str s"
| "marshal (JArr vs) = CHR ''['' # marshal_elems vs"
| "marshal (JObj ms) = CHR ''{'' # marshal_members ms"
| "marshal_elems [] = '']''"
| "marshal_elems [v] = marshal v @ '']''"
| "marshal_elems (v # w # vs) = marshal v @ '','' @ marshal_elems (w # vs)"
| "marshal_members [] = ''}''"
| "marshal_members [(k, v)] = marshal_str k @ '':'' @ marshal v @ ''}''"
| "marshal_members ((k, v) # m # ms) = marshal_str k @ '':'' @ marshal v @ '','' @ marshal_members (m # ms)"

section \<open>Unmarshal\<close>

definition is_json_space :: "char \<Rightarrow> bool" where
  "is_json_space c = (let n = (of_char c :: nat) in n = 32 \<or> n = 9 \<or> n = 10 \<or> n = 13)"

definition skip_ws :: "string \<Rightarrow> string" where
  "skip_ws s = dropWhile is_json_space s"

definition hex_val :: "char \<Rightarrow> nat option" where
  "hex_val c =
     (let n = (of_char c :: nat) in
      if 48 \<le> n \<and> n \<le> 57 then Some (n - 48)
      else if 97 \<le> n \<and> n \<le> 102 then Some (n - 87)
      else if 65 \<le> n \<and> n \<le> 70 then Some (n - 55)
      else None)"

definition hex4 :: "char \<Rightarrow> char \<Rightarrow> char \<Rightarrow> char \<Rightarrow> nat option" where
  "hex4 a b c d =
     (case (hex_val a, hex_val b, hex_val c, hex_val d) of
        (Some w, Some x, Some y, Some z) \<Rightarrow> Some (((w * 16 + x) * 16 + y) * 16 + z)
      | _ \<Rightarrow> None)"

text \<open>The UTF-8 bytes of a code point; a lone surrogate becomes U+FFFD.\<close>

definition utf8_enc :: "nat \<Rightarrow> string" where
  "utf8_enc n =
     (if n < 128 then [char_of n]
      else if n < 2048 then [char_of (192 + n div 64), char_of (128 + n mod 64)]
      else if 55296 \<le> n \<and> n < 57344 then [char_of (239::nat), char_of (191::nat), char_of (189::nat)]
      else if n < 65536
        then [char_of (224 + n div 4096), char_of (128 + n div 64 mod 64), char_of (128 + n mod 64)]
      else [char_of (240 + n div 262144), char_of (128 + n div 4096 mod 64),
            char_of (128 + n div 64 mod 64), char_of (128 + n mod 64)])"

fun parse_str :: "string \<Rightarrow> (string \<times> string) option" where
  "parse_str [] = None"
| "parse_str (c # r) =
     (if c = CHR 0x22 then Some ([], r)
      else if (of_char c :: nat) < 32 then None
      else if c \<noteq> CHR 0x5C then map_option (\<lambda>(t, r'). (c # t, r')) (parse_str r)
      else (case r of
              e # r1 \<Rightarrow>
                if e = CHR ''u'' then
                  (case r1 of
                     a # b # x # y # r2 \<Rightarrow>
                       (case hex4 a b x y of
                          Some n \<Rightarrow>
                            (case r2 of
                               b1 # u1 # a' # b' # x' # y' # r3 \<Rightarrow>
                                 (case hex4 a' b' x' y' of
                                    Some m \<Rightarrow>
                                      if b1 = CHR 0x5C \<and> u1 = CHR ''u'' \<and> 55296 \<le> n \<and> n < 56320 \<and>
                                         56320 \<le> m \<and> m < 57344
                                      then map_option (\<lambda>(t, r'). (utf8_enc (65536 + (n - 55296) * 1024 + (m - 56320)) @ t, r'))
                                             (parse_str r3)
                                      else map_option (\<lambda>(t, r'). (utf8_enc n @ t, r')) (parse_str r2)
                                  | None \<Rightarrow> map_option (\<lambda>(t, r'). (utf8_enc n @ t, r')) (parse_str r2))
                             | _ \<Rightarrow> map_option (\<lambda>(t, r'). (utf8_enc n @ t, r')) (parse_str r2))
                        | None \<Rightarrow> None)
                   | _ \<Rightarrow> None)
                else
                  (case map_of (zip [CHR 0x22, CHR 0x5C, CHR ''/'', CHR ''b'', CHR ''f'', CHR ''n'', CHR ''r'', CHR ''t'']
                                    [CHR 0x22, CHR 0x5C, CHR ''/'', CHR 0x08, CHR 0x0C, CHR 0x0A, CHR 0x0D, CHR 0x09]) e of
                     Some d \<Rightarrow> map_option (\<lambda>(t, r'). (d # t, r')) (parse_str r1)
                   | None \<Rightarrow> None)
            | [] \<Rightarrow> None))"

declare parse_str.simps [simp del]

definition is_num_char :: "char \<Rightarrow> bool" where
  "is_num_char c \<longleftrightarrow> is_digit c \<or> c \<in> set ''+-.eE''"

text \<open>The number grammar of JSON: \<^verbatim>\<open>-?(0|[1-9][0-9]*)(\.[0-9]+)?([eE][+-]?[0-9]+)?\<close>.\<close>

definition valid_exp :: "string \<Rightarrow> bool" where
  "valid_exp s =
     (case s of
        [] \<Rightarrow> True
      | e # r \<Rightarrow>
          (let ds = (case r of c # r' \<Rightarrow> (if c = CHR ''+'' \<or> c = CHR ''-'' then r' else r) | [] \<Rightarrow> [])
           in e \<in> set ''eE'' \<and> ds \<noteq> [] \<and> list_all is_digit ds))"

definition valid_frac_exp :: "string \<Rightarrow> bool" where
  "valid_frac_exp s =
     (case s of
        c # r \<Rightarrow>
          if c = CHR ''.''
          then takeWhile is_digit r \<noteq> [] \<and> valid_exp (dropWhile is_digit r)
          else valid_exp s
      | [] \<Rightarrow> True)"

definition valid_num :: "string \<Rightarrow> bool" where
  "valid_num s =
     (let u = (if hasPrefix s ''-'' then tl s else s); ds = takeWhile is_digit u
      in ds \<noteq> [] \<and> (hd ds = CHR ''0'' \<longrightarrow> length ds = 1) \<and> valid_frac_exp (dropWhile is_digit u))"

fun parse_value :: "nat \<Rightarrow> string \<Rightarrow> (json \<times> string) option"
  and parse_elems :: "nat \<Rightarrow> string \<Rightarrow> (json list \<times> string) option"
  and parse_members :: "nat \<Rightarrow> string \<Rightarrow> ((string \<times> json) list \<times> string) option" where
  "parse_value 0 s = None"
| "parse_value (Suc n) s =
     (case skip_ws s of
        [] \<Rightarrow> None
      | c # r \<Rightarrow>
          if c = CHR 0x22 then map_option (\<lambda>(t, r'). (JStr t, r')) (parse_str r)
          else if c = CHR ''['' then
            (if hasPrefix (skip_ws r) '']'' then Some (JArr [], tl (skip_ws r))
             else map_option (\<lambda>(vs, r'). (JArr vs, r')) (parse_elems n r))
          else if c = CHR ''{'' then
            (if hasPrefix (skip_ws r) ''}'' then Some (JObj [], tl (skip_ws r))
             else map_option (\<lambda>(ms, r'). (JObj ms, r')) (parse_members n r))
          else if hasPrefix (c # r) ''null'' then Some (JNull, drop 4 (c # r))
          else if hasPrefix (c # r) ''true'' then Some (JBool True, drop 4 (c # r))
          else if hasPrefix (c # r) ''false'' then Some (JBool False, drop 5 (c # r))
          else (let t = takeWhile is_num_char (c # r) in
                if valid_num t then Some (JNum t, dropWhile is_num_char (c # r)) else None))"
| "parse_elems 0 s = None"
| "parse_elems (Suc n) s =
     (case parse_value n s of
        None \<Rightarrow> None
      | Some (v, r) \<Rightarrow>
          (case skip_ws r of
             c # r' \<Rightarrow>
               if c = CHR '','' then map_option (\<lambda>(vs, r''). (v # vs, r'')) (parse_elems n r')
               else if c = CHR '']'' then Some ([v], r')
               else None
           | [] \<Rightarrow> None))"
| "parse_members 0 s = None"
| "parse_members (Suc n) s =
     (case skip_ws s of
        q # r0 \<Rightarrow>
          if q = CHR 0x22 then
            (case parse_str r0 of
               None \<Rightarrow> None
             | Some (k, r1) \<Rightarrow>
                 (case skip_ws r1 of
                    d # r2 \<Rightarrow>
                      if d = CHR '':'' then
                        (case parse_value n r2 of
                           None \<Rightarrow> None
                         | Some (v, r3) \<Rightarrow>
                             (case skip_ws r3 of
                                c # r' \<Rightarrow>
                                  if c = CHR '','' then map_option (\<lambda>(ms, r''). ((k, v) # ms, r'')) (parse_members n r')
                                  else if c = CHR ''}'' then Some ([(k, v)], r')
                                  else None
                              | [] \<Rightarrow> None))
                      else None
                  | [] \<Rightarrow> None))
          else None
      | [] \<Rightarrow> None)"

definition json_unmarshal :: "string \<Rightarrow> json option" where
  "json_unmarshal s =
     (case parse_value (Suc (length s)) s of
        Some (v, r) \<Rightarrow> if skip_ws r = [] then Some v else None
      | None \<Rightarrow> None)"

text \<open>A lookup in a decoded object: the last member with the key wins.\<close>

definition obj_get :: "(string \<times> json) list \<Rightarrow> string \<Rightarrow> json option" where
  "obj_get ms k = map_of (rev ms) k"

section \<open>Round trip\<close>

fun json_ok :: "json \<Rightarrow> bool" where
  "json_ok (JNum s) = (valid_num s \<and> list_all is_num_char s)"
| "json_ok (JArr vs) = list_all json_ok vs"
| "json_ok (JObj ms) = list_all (\<lambda>m. json_ok (snd m)) ms"
| "json_ok _ = True"

text \<open>What may follow a value inside a text.\<close>

definition json_stop :: "string \<Rightarrow> bool" where
  "json_stop r \<longleftrightarrow> (r = [] \<or> hd r \<in> set '',]}'')"

lemma hex_val_hex_digit [simp]: "d < 16 \<Longrightarrow> hex_val (hex_digit d) = Some d"
  by (auto simp: hex_val_def hex_digit_def of_char_of Let_def)

lemma hex4_00: "h < 16 \<Longrightarrow> l < 16 \<Longrightarrow> hex4 (CHR ''0'') (CHR ''0'') (hex_digit h) (hex_digit l) = Some (h * 16 + l)"
  by (simp add: hex4_def hex_val_def [of "CHR ''0''"])

lemma parse_str_u:
  assumes "hex4 a b x y = Some n" "n < 55296"
  shows "parse_str (CHR 0x5C # CHR ''u'' # a # b # x # y # r) = map_option (\<lambda>(t, r'). (utf8_enc n @ t, r')) (parse_str r)"
  using assms by (subst parse_str.simps) (auto split: list.split option.split)

lemma of_char_eq_lit:
  "(of_char c :: nat) = of_char d \<Longrightarrow> c = d"
  by simp

lemma parse_str_escape:
  "parse_str (escape_char c @ r) = map_option (\<lambda>(t, r'). (c # t, r')) (parse_str r)"
proof -
  let ?n = "of_char c :: nat"
  have c: "c = char_of ?n" by simp
  have n: "?n < 256" by (rule nat_of_char_less_256)
  consider (simple) "?n \<in> {34, 92, 8, 12, 10, 13, 9}"
    | (uni) "?n \<notin> {34, 92, 8, 12, 10, 13, 9}" "?n < 32 \<or> ?n = 60 \<or> ?n = 62 \<or> ?n = 38"
    | (plain) "?n \<notin> {34, 92, 8, 12, 10, 13, 9}" "\<not> (?n < 32 \<or> ?n = 60 \<or> ?n = 62 \<or> ?n = 38)"
    by blast
  then show ?thesis
  proof cases
    case simple
    then have "c \<in> {CHR 0x22, CHR 0x5C, CHR 0x08, CHR 0x0C, CHR 0x0A, CHR 0x0D, CHR 0x09}"
      using of_char_eq_lit [of c "CHR 0x22"] of_char_eq_lit [of c "CHR 0x5C"] of_char_eq_lit [of c "CHR 0x08"]
        of_char_eq_lit [of c "CHR 0x0C"] of_char_eq_lit [of c "CHR 0x0A"] of_char_eq_lit [of c "CHR 0x0D"]
        of_char_eq_lit [of c "CHR 0x09"]
      by simp blast
    then show ?thesis by (auto simp: escape_char_def parse_str.simps(2))
  next
    case uni
    then have "?n < 128" by auto
    have "escape_char c = CHR 0x5C # ''u00'' @ [hex_digit (?n div 16), hex_digit (?n mod 16)]"
      using uni by (auto simp: escape_char_def Let_def)
    moreover have "hex4 (CHR ''0'') (CHR ''0'') (hex_digit (?n div 16)) (hex_digit (?n mod 16)) = Some ?n"
      using hex4_00 [of "?n div 16" "?n mod 16"] \<open>?n < 128\<close> by simp
    ultimately show ?thesis
      using \<open>?n < 128\<close> by (simp add: parse_str_u utf8_enc_def)
  next
    case plain
    then have "c \<noteq> CHR 0x22" "c \<noteq> CHR 0x5C" by auto
    with plain show ?thesis
      by (auto simp: escape_char_def Let_def parse_str.simps(2) [of c r])
  qed
qed

lemma parse_str_concat: "parse_str (concat (map escape_char s) @ CHR 0x22 # r) = Some (s, r)"
proof (induction s)
  case Nil
  show ?case by (simp add: parse_str.simps(2))
next
  case (Cons c s)
  then show ?case by (simp add: parse_str_escape)
qed

lemma marshal_str_ok: "parse_value (Suc n) (marshal_str s @ r) = Some (JStr s, r)"
  by (simp add: marshal_str_def skip_ws_def is_json_space_def parse_str_concat)

lemma json_stop_num: "json_stop r \<Longrightarrow> takeWhile is_num_char r = [] \<and> dropWhile is_num_char r = r"
  by (cases r) (auto simp: json_stop_def is_num_char_def is_digit_def)

lemma valid_num_first:
  assumes "valid_num s"
  shows "\<exists>c t. s = c # t \<and> (is_digit c \<or> c = CHR ''-'')"
proof (cases s)
  case Nil
  with assms show ?thesis by (simp add: valid_num_def)
next
  case (Cons c t)
  with assms show ?thesis by (auto simp: valid_num_def split: if_splits)
qed

lemma digit_or_minus:
  assumes "is_digit c \<or> c = CHR ''-''"
  shows "\<not> is_json_space c" "c \<noteq> CHR 0x22" "c \<noteq> CHR ''[''" "c \<noteq> CHR ''{''" "c \<noteq> CHR ''n''" "c \<noteq> CHR ''t''"
    "c \<noteq> CHR ''f''" "c \<noteq> CHR '']''" "c \<noteq> CHR ''}''"
  using assms by (auto simp: is_digit_def is_json_space_def Let_def)

lemma parse_num:
  assumes "json_ok (JNum s)" "json_stop r"
  shows "parse_value (Suc n) (s @ r) = Some (JNum s, r)"
proof -
  from assms obtain c t where s: "s = c # t" and c: "is_digit c \<or> c = CHR ''-''"
    using valid_num_first [of s] by auto
  have "takeWhile is_num_char (s @ r) = s" "dropWhile is_num_char (s @ r) = r"
    using assms json_stop_num [OF assms(2)]
    by (auto simp: list_all_iff takeWhile_append dropWhile_append)
  with assms(1) s digit_or_minus [OF c] show ?thesis
    by (simp add: skip_ws_def Let_def)
qed

lemma marshal_first:
  "json_ok v \<Longrightarrow> \<exists>c r. marshal v = c # r \<and> \<not> is_json_space c \<and> c \<noteq> CHR '']'' \<and> c \<noteq> CHR ''}''"
proof (cases v)
  case (JNum s)
  assume "json_ok v"
  with JNum have "valid_num s" by simp
  with valid_num_first obtain c t where "s = c # t" "is_digit c \<or> c = CHR ''-''" by blast
  with JNum digit_or_minus show ?thesis by auto
qed (auto simp: marshal_str_def is_json_space_def)

lemma skip_ws_marshal: "json_ok v \<Longrightarrow> skip_ws (marshal v @ r) = marshal v @ r"
  using marshal_first [of v] by (auto simp: skip_ws_def)

lemma marshal_not_close:
  "json_ok v \<Longrightarrow> \<not> hasPrefix (marshal v @ r) '']'' \<and> \<not> hasPrefix (marshal v @ r) ''}''"
  using marshal_first [of v] by auto

lemma skip_ws_stop: "json_stop r \<Longrightarrow> skip_ws r = r"
  by (cases r) (auto simp: json_stop_def skip_ws_def is_json_space_def)

lemma marshal_elems_first: "json_ok v \<Longrightarrow> \<exists>r'. marshal_elems (v # vs) @ r = marshal v @ r'"
  by (cases vs) auto

lemma marshal_members_first: "\<exists>r'. marshal_members (m # ms) @ r = CHR 0x22 # r'"
  by (cases m; cases ms) (auto simp: marshal_str_def)

lemma unmarshal_marshal_gen:
  shows "json_ok v \<Longrightarrow> json_stop r \<Longrightarrow> length (marshal v) < n \<Longrightarrow>
      parse_value n (marshal v @ r) = Some (v, r)"
    and "vs \<noteq> [] \<Longrightarrow> list_all json_ok vs \<Longrightarrow> length (marshal_elems vs) < n \<Longrightarrow>
      parse_elems n (marshal_elems vs @ r) = Some (vs, r)"
    and "ms \<noteq> [] \<Longrightarrow> list_all (\<lambda>m. json_ok (snd m)) ms \<Longrightarrow> length (marshal_members ms) < n \<Longrightarrow>
      parse_members n (marshal_members ms @ r) = Some (ms, r)"
proof (induction v and vs and ms arbitrary: n r and n r and n r rule: marshal_marshal_elems_marshal_members.induct)
  case 1
  then show ?case by (cases n) (auto simp: skip_ws_def is_json_space_def)
next
  case (2 b)
  then show ?case by (cases n) (auto simp: skip_ws_def is_json_space_def)
next
  case (3 s)
  then show ?case by (cases n) (simp_all add: parse_num del: parse_value.simps)
next
  case (4 s)
  then show ?case by (cases n) (simp_all add: marshal_str_ok del: parse_value.simps)
next
  case (5 vs)
  then obtain m where n: "n = Suc m" by (cases n) auto
  show ?case
  proof (cases vs)
    case Nil
    with n show ?thesis by (simp add: skip_ws_def is_json_space_def)
  next
    case (Cons w ws)
    with 5 obtain r' where r': "marshal_elems vs @ r = marshal w @ r'" and w: "json_ok w"
      using marshal_elems_first [of w ws r] by auto
    have "parse_elems m (marshal_elems vs @ r) = Some (vs, r)"
      using 5 n Cons by simp
    with n r' skip_ws_marshal [OF w] marshal_not_close [OF w] show ?thesis
      by (simp add: skip_ws_def [of "CHR ''['' # _"] is_json_space_def del: parse_elems.simps)
  qed
next
  case (6 ms)
  then obtain m where n: "n = Suc m" by (cases n) auto
  show ?case
  proof (cases ms)
    case Nil
    with n show ?thesis by (simp add: skip_ws_def is_json_space_def)
  next
    case (Cons w ws)
    then obtain r' where r': "marshal_members ms @ r = CHR 0x22 # r'"
      using marshal_members_first by blast
    have "parse_members m (marshal_members ms @ r) = Some (ms, r)"
      using 6 n Cons by simp
    with n r' show ?thesis
      by (simp add: skip_ws_def is_json_space_def del: parse_members.simps)
  qed
next
  case 7
  then show ?case by simp
next
  case (8 v)
  then obtain m where n: "n = Suc m" by (cases n) auto
  have "parse_value m (marshal v @ CHR '']'' # r) = Some (v, CHR '']'' # r)"
    using 8 n by (auto simp: json_stop_def)
  with n show ?case by (simp add: skip_ws_def is_json_space_def)
next
  case (9 v w vs)
  then obtain m where n: "n = Suc m" by (cases n) auto
  let ?r = "CHR '','' # marshal_elems (w # vs) @ r"
  have "parse_value m (marshal v @ ?r) = Some (v, ?r)"
    using 9 n by (auto simp: json_stop_def)
  moreover have "parse_elems m (marshal_elems (w # vs) @ r) = Some (w # vs, r)"
    using 9 n by auto
  ultimately show ?case using n by (simp add: skip_ws_def is_json_space_def)
next
  case 10
  then show ?case by simp
next
  case (11 k v)
  then obtain m where n: "n = Suc m" by (cases n) auto
  have "parse_value m (marshal v @ CHR ''}'' # r) = Some (v, CHR ''}'' # r)"
    using 11 n by (auto simp: json_stop_def marshal_str_def)
  with n show ?case by (simp add: skip_ws_def is_json_space_def marshal_str_def parse_str_concat)
next
  case (12 k v m' ms)
  then obtain m where n: "n = Suc m" by (cases n) auto
  let ?r = "CHR '','' # marshal_members (m' # ms) @ r"
  have "parse_value m (marshal v @ ?r) = Some (v, ?r)"
    using 12 n by (auto simp: json_stop_def marshal_str_def)
  moreover have "parse_members m (marshal_members (m' # ms) @ r) = Some (m' # ms, r)"
    using 12 n by (auto simp: marshal_str_def)
  ultimately show ?case
    using n by (simp add: skip_ws_def is_json_space_def marshal_str_def parse_str_concat)
qed

lemma unmarshal_marshal: "json_ok v \<Longrightarrow> json_unmarshal (marshal v) = Some v"
  using unmarshal_marshal_gen(1) [of v "[]" "Suc (length (marshal v))"]
  by (simp add: json_unmarshal_def json_stop_def skip_ws_def del: parse_value.simps)

lemma marshal_nonempty: "json_ok v \<Longrightarrow> marshal v \<noteq> []"
  using marshal_first [of v] by auto

text \<open>The decimal form of an integer is a number token.\<close>

lemma num_show_int: "valid_num (show_int i)" "list_all is_num_char (show_int i)"
proof -
  have d: "\<forall>c\<in>set (show_nat n). is_digit c" for n
    using show_nat_digits [of n] by (simp add: list_all_iff)
  have drop: "dropWhile is_digit (show_nat n) = []" for n
    using d by (simp add: dropWhile_eq_Nil_conv)
  have zero: "hd (show_nat n) = CHR ''0'' \<longrightarrow> length (show_nat n) = 1" for n
  proof (cases "n = 0")
    case True
    then show ?thesis by (simp add: show_nat.simps [of 0])
  next
    case False
    then show ?thesis using show_nat_no_leading_zero [of n] by simp
  qed
  show "valid_num (show_int i)"
    using zero by (simp add: valid_num_def show_int_def Let_def drop valid_frac_exp_def valid_exp_def)
  show "list_all is_num_char (show_int i)"
    using d by (auto simp: show_int_def list_all_iff is_num_char_def)
qed

end
