(* ===== verification/Scan_Job.thy ===== *)
theory Scan_Job
  imports Go_Time Json "HOL-Library.List_Lexorder" "HOL-Library.Char_ord"
begin

text \<open>
  The scan job of \<^verbatim>\<open>models/ScanJob.go\<close> and its storage form, the fields of a Redis hash: \<^verbatim>\<open>ToMap\<close>,
  \<^verbatim>\<open>FromMap\<close>, and what reading back a written job gives.
\<close>

section \<open>The job\<close>

type_synonym JobStatus = string

definition JobStatusQueued :: JobStatus where "JobStatusQueued = ''queued''"
definition JobStatusProcessing :: JobStatus where "JobStatusProcessing = ''processing''"
definition JobStatusCompleted :: JobStatus where "JobStatusCompleted = ''completed''"
definition JobStatusFailed :: JobStatus where "JobStatusFailed = ''failed''"
definition JobStatusCancelled :: JobStatus where "JobStatusCancelled = ''cancelled''"

lemmas status_defs = JobStatusQueued_def JobStatusProcessing_def JobStatusCompleted_def
  JobStatusFailed_def JobStatusCancelled_def

text \<open>A \<^verbatim>\<open>map[string]string\<close> is kept as the list of its entries in the order of their keys.\<close>

record ScanJob =
  ID :: string
  Status :: JobStatus
  APKPath :: string
  FileType :: string
  OriginalFilename :: string
  CreatedAt :: go_time
  StartedAt :: "go_time option"
  CompletedAt :: "go_time option"
  FailedAt :: "go_time option"
  Error :: string
  Phase :: string
  Result :: string
  WorkerID :: string
  RetryCount :: int
  WebhookURL :: string
  WebhookSecret :: string
  ScanTimeout :: int
  StorageKey :: string
  RequestID :: string
  TraceContext :: "(string \<times> string) list"

text \<open>The zero value of \<^verbatim>\<open>time.Time\<close> and of the job.\<close>

definition zero_time :: go_time where
  "zero_time = \<lparr>year = 1, month = 1, day = 1, hour = 0, minute = 0, second = 0, nano = 0, zone = 0\<rparr>"

definition zero_job :: ScanJob where
  "zero_job =
     \<lparr>ID = [], Status = [], APKPath = [], FileType = [], OriginalFilename = [], CreatedAt = zero_time,
      StartedAt = None, CompletedAt = None, FailedAt = None, Error = [], Phase = [], Result = [],
      WorkerID = [], RetryCount = 0, WebhookURL = [], WebhookSecret = [], ScanTimeout = 0,
      StorageKey = [], RequestID = [], TraceContext = []\<rparr>"

section \<open>Storage form\<close>

text \<open>The dynamic types the map holds.\<close>

datatype iface = VStr string | VInt int

definition formatTimePtr :: "go_time option \<Rightarrow> string" where
  "formatTimePtr t = (case t of None \<Rightarrow> [] | Some t \<Rightarrow> format_rfc3339 t)"

definition marshal_map :: "(string \<times> string) list \<Rightarrow> string" where
  "marshal_map m = marshal (JObj (map (\<lambda>(k, v). (k, JStr v)) m))"

definition ToMap :: "ScanJob \<Rightarrow> (string \<times> iface) list" where
  "ToMap j =
     [(''id'', VStr (ID j)), (''apk_path'', VStr (APKPath j)),
      (''original_filename'', VStr (OriginalFilename j)),
      (''created_at'', VStr (format_rfc3339 (CreatedAt j))),
      (''status'', VStr (Status j)), (''error'', VStr (Error j)), (''worker_id'', VStr (WorkerID j)),
      (''retry_count'', VInt (RetryCount j)), (''storage_key'', VStr (StorageKey j)),
      (''started_at'', VStr (formatTimePtr (StartedAt j))),
      (''completed_at'', VStr (formatTimePtr (CompletedAt j))),
      (''failed_at'', VStr (formatTimePtr (FailedAt j)))]
     @ (if Result j \<noteq> [] then [(''result'', VStr (Result j))] else [])
     @ (if WebhookURL j \<noteq> [] then [(''webhook_url'', VStr (WebhookURL j))] else [])
     @ (if WebhookSecret j \<noteq> [] then [(''webhook_secret'', VStr (WebhookSecret j))] else [])
     @ (if ScanTimeout j > 0 then [(''scan_timeout'', VInt (ScanTimeout j))] else [])
     @ (if RequestID j \<noteq> [] then [(''request_id'', VStr (RequestID j))] else [])
     @ (if FileType j \<noteq> [] then [(''file_type'', VStr (FileType j))] else [])
     @ (if TraceContext j \<noteq> [] then [(''trace_context'', VStr (marshal_map (TraceContext j)))] else [])"

text \<open>
  \<^verbatim>\<open>json.Unmarshal\<close> into a \<^verbatim>\<open>map[string]string\<close>: \<^verbatim>\<open>null\<close> gives the nil map, a member that is not a
  string is an error, except \<^verbatim>\<open>null\<close>, which leaves the empty string.
\<close>

definition str_member :: "json \<Rightarrow> string option" where
  "str_member v = (case v of JStr s \<Rightarrow> Some s | JNull \<Rightarrow> Some [] | _ \<Rightarrow> None)"

definition canon_map :: "(string \<times> string) list \<Rightarrow> (string \<times> string) list" where
  "canon_map m = map (\<lambda>k. (k, the (map_of (rev m) k))) (sort (remdups (map fst m)))"

definition unmarshal_map :: "string \<Rightarrow> (string \<times> string) list option" where
  "unmarshal_map s =
     (case json_unmarshal s of
        Some JNull \<Rightarrow> Some []
      | Some (JObj ms) \<Rightarrow>
          if list_all (\<lambda>(k, v). str_member v \<noteq> None) ms
          then Some (canon_map (map (\<lambda>(k, v). (k, the (str_member v))) ms)) else None
      | _ \<Rightarrow> None)"

definition str_field :: "(string \<rightharpoonup> iface) \<Rightarrow> string \<Rightarrow> string \<Rightarrow> string" where
  "str_field m k old = (case m k of Some (VStr s) \<Rightarrow> s | _ \<Rightarrow> old)"

definition time_ptr_field :: "(string \<rightharpoonup> iface) \<Rightarrow> string \<Rightarrow> go_time option \<Rightarrow> go_time option" where
  "time_ptr_field m k old =
     (case m k of
        Some (VStr s) \<Rightarrow> if s = [] then None else (case parse_rfc3339 s of Some t \<Rightarrow> Some t | None \<Rightarrow> old)
      | _ \<Rightarrow> old)"

definition int_field :: "(string \<rightharpoonup> iface) \<Rightarrow> string \<Rightarrow> int \<Rightarrow> int" where
  "int_field m k old =
     (case m k of
        Some (VInt i) \<Rightarrow> i
      | Some (VStr s) \<Rightarrow> (case sscanf_d s of Some i \<Rightarrow> i | None \<Rightarrow> old)
      | None \<Rightarrow> old)"

definition trace_field :: "(string \<rightharpoonup> iface) \<Rightarrow> (string \<times> string) list \<Rightarrow> (string \<times> string) list" where
  "trace_field m old =
     (case m ''trace_context'' of
        Some (VStr s) \<Rightarrow> if s \<noteq> [] then (case unmarshal_map s of Some tc \<Rightarrow> tc | None \<Rightarrow> old) else old
      | _ \<Rightarrow> old)"

definition FromMap :: "(string \<rightharpoonup> iface) \<Rightarrow> ScanJob \<Rightarrow> ScanJob" where
  "FromMap m j =
     j\<lparr>ID := str_field m ''id'' (ID j), Status := str_field m ''status'' (Status j),
       APKPath := str_field m ''apk_path'' (APKPath j),
       OriginalFilename := str_field m ''original_filename'' (OriginalFilename j),
       CreatedAt := (case m ''created_at'' of
          Some (VStr s) \<Rightarrow> (case parse_rfc3339 s of Some t \<Rightarrow> t | None \<Rightarrow> CreatedAt j) | _ \<Rightarrow> CreatedAt j),
       StartedAt := time_ptr_field m ''started_at'' (StartedAt j),
       CompletedAt := time_ptr_field m ''completed_at'' (CompletedAt j),
       FailedAt := time_ptr_field m ''failed_at'' (FailedAt j),
       Error := str_field m ''error'' (Error j), Phase := str_field m ''phase'' (Phase j),
       Result := str_field m ''result'' (Result j), WorkerID := str_field m ''worker_id'' (WorkerID j),
       StorageKey := str_field m ''storage_key'' (StorageKey j),
       RetryCount := int_field m ''retry_count'' (RetryCount j),
       WebhookURL := str_field m ''webhook_url'' (WebhookURL j),
       WebhookSecret := str_field m ''webhook_secret'' (WebhookSecret j),
       RequestID := str_field m ''request_id'' (RequestID j),
       FileType := str_field m ''file_type'' (FileType j),
       ScanTimeout := int_field m ''scan_timeout'' (ScanTimeout j),
       TraceContext := trace_field m (TraceContext j)\<rparr>"

text \<open>
  The client library sends every value as a string (an integer in decimal), and \<^verbatim>\<open>convertMap\<close> of
  \<^verbatim>\<open>queue/queue.go\<close> wraps the strings that come back.
\<close>

definition wire :: "iface \<Rightarrow> string" where
  "wire v = (case v of VStr s \<Rightarrow> s | VInt i \<Rightarrow> show_int i)"

definition job_fields :: "ScanJob \<Rightarrow> (string \<times> string) list" where
  "job_fields j = map (\<lambda>(k, v). (k, wire v)) (ToMap j)"

definition convertMap :: "(string \<rightharpoonup> string) \<Rightarrow> (string \<rightharpoonup> iface)" where
  "convertMap m = (\<lambda>k. map_option VStr (m k))"

section \<open>Reading back\<close>

text \<open>What storage keeps: whole seconds, and neither the phase nor a timeout that is not positive.\<close>

definition trunc_time :: "go_time \<Rightarrow> go_time" where
  "trunc_time t = t\<lparr>nano := 0\<rparr>"

definition stored :: "ScanJob \<Rightarrow> ScanJob" where
  "stored j =
     j\<lparr>CreatedAt := trunc_time (CreatedAt j), StartedAt := map_option trunc_time (StartedAt j),
       CompletedAt := map_option trunc_time (CompletedAt j), FailedAt := map_option trunc_time (FailedAt j),
       Phase := [], ScanTimeout := max 0 (ScanTimeout j)\<rparr>"

definition valid_time_ptr :: "go_time option \<Rightarrow> bool" where
  "valid_time_ptr t = (case t of None \<Rightarrow> True | Some t \<Rightarrow> valid_time t)"

definition job_ok :: "ScanJob \<Rightarrow> bool" where
  "job_ok j \<longleftrightarrow> valid_time (CreatedAt j) \<and> valid_time_ptr (StartedAt j) \<and> valid_time_ptr (CompletedAt j) \<and>
     valid_time_ptr (FailedAt j) \<and> in_int64 (RetryCount j) \<and> in_int64 (ScanTimeout j) \<and>
     sorted (map fst (TraceContext j)) \<and> distinct (map fst (TraceContext j))"

lemma canon_map_id: "sorted (map fst m) \<Longrightarrow> distinct (map fst m) \<Longrightarrow> canon_map m = m"
proof -
  assume s: "sorted (map fst m)" and d: "distinct (map fst m)"
  have "canon_map m = map (\<lambda>k. (k, the (map_of m k))) (map fst m)"
    using s d by (simp add: canon_map_def map_of_rev_distinct sorted_sort_id distinct_remdups_id)
  also have "\<dots> = map (\<lambda>x. (fst x, the (map_of m (fst x)))) m" by simp
  also have "\<dots> = m" using d by (intro map_idI) (auto simp: map_of_is_SomeI)
  finally show ?thesis .
qed

lemma marshal_map_nonempty [simp]: "marshal_map m \<noteq> []"
  by (simp add: marshal_map_def)

lemma unmarshal_marshal_map:
  assumes "sorted (map fst m)" "distinct (map fst m)"
  shows "unmarshal_map (marshal_map m) = Some m"
proof -
  have "json_unmarshal (marshal_map m) = Some (JObj (map (\<lambda>(k, v). (k, JStr v)) m))"
    unfolding marshal_map_def by (rule unmarshal_marshal) (auto simp: list_all_iff)
  moreover have "map (\<lambda>(k, v). (k, the (str_member v))) (map (\<lambda>(k, v). (k, JStr v)) m) = m"
    by (auto simp: str_member_def comp_def case_prod_beta)
  ultimately show ?thesis
    using canon_map_id [OF assms] by (auto simp: unmarshal_map_def list_all_iff str_member_def)
qed

lemma formatTimePtr_Some [simp]: "formatTimePtr (Some t) \<noteq> []"
  by (simp add: formatTimePtr_def)

lemma time_ptr_field_format:
  assumes "m k = Some (VStr (formatTimePtr t))" "valid_time_ptr t"
  shows "time_ptr_field m k old = map_option trunc_time t"
  using assms
  by (cases t) (simp_all add: time_ptr_field_def formatTimePtr_def valid_time_ptr_def parse_format_rfc3339 trunc_time_def)

text \<open>The value of every field of the hash after a write over the fields \<open>h\<close>.\<close>

definition written :: "(string \<rightharpoonup> string) \<Rightarrow> ScanJob \<Rightarrow> (string \<rightharpoonup> string)" where
  "written h j = h ++ map_of (rev (job_fields j))"

lemma map_of_if_single: "map_of (if c then [(k, v)] else []) x = (if k = x then (if c then Some v else None) else None)"
  by simp

lemma map_if_single: "map f (if c then [x] else []) = (if c then [f x] else [])"
  by simp

lemma job_fields_eq:
  "job_fields j =
     [(''id'', ID j), (''apk_path'', APKPath j), (''original_filename'', OriginalFilename j),
      (''created_at'', format_rfc3339 (CreatedAt j)), (''status'', Status j), (''error'', Error j),
      (''worker_id'', WorkerID j), (''retry_count'', show_int (RetryCount j)), (''storage_key'', StorageKey j),
      (''started_at'', formatTimePtr (StartedAt j)), (''completed_at'', formatTimePtr (CompletedAt j)),
      (''failed_at'', formatTimePtr (FailedAt j))]
     @ (if Result j \<noteq> [] then [(''result'', Result j)] else [])
     @ (if WebhookURL j \<noteq> [] then [(''webhook_url'', WebhookURL j)] else [])
     @ (if WebhookSecret j \<noteq> [] then [(''webhook_secret'', WebhookSecret j)] else [])
     @ (if ScanTimeout j > 0 then [(''scan_timeout'', show_int (ScanTimeout j))] else [])
     @ (if RequestID j \<noteq> [] then [(''request_id'', RequestID j)] else [])
     @ (if FileType j \<noteq> [] then [(''file_type'', FileType j)] else [])
     @ (if TraceContext j \<noteq> [] then [(''trace_context'', marshal_map (TraceContext j))] else [])"
  unfolding job_fields_def ToMap_def map_append list.map map_if_single prod.case wire_def iface.case ..

lemma subseq_opt: "subseq xs ys \<Longrightarrow> subseq ((if c then [x] else []) @ xs) (x # ys)"
  by (auto intro: subseq_Cons')

lemma subseq_opt1: "subseq (if c then [x] else []) [x]"
  by simp

lemma distinct_fields: "distinct (map fst (job_fields j))"
proof -
  define ks where "ks = [''id'', ''apk_path'', ''original_filename'', ''created_at'', ''status'', ''error'',
    ''worker_id'', ''retry_count'', ''storage_key'', ''started_at'', ''completed_at'', ''failed_at'',
    ''result'', ''webhook_url'', ''webhook_secret'', ''scan_timeout'', ''request_id'', ''file_type'', ''trace_context'']"
  have "distinct ks" by (simp add: ks_def)
  moreover have "subseq (map fst (job_fields j)) ks"
    unfolding job_fields_eq ks_def map_append map_if_single list.map fst_conv append_Cons append_Nil
    by (intro subseq_Cons2 subseq_opt subseq_opt1)
  ultimately show ?thesis by (auto simp: subseq_conv_nths distinct_nthsI)
qed

lemma written_eq: "written h j = h ++ map_of (job_fields j)"
  by (simp add: written_def map_of_rev_distinct distinct_fields)

lemma written_always:
  "written h j ''id'' = Some (ID j)" "written h j ''apk_path'' = Some (APKPath j)"
  "written h j ''original_filename'' = Some (OriginalFilename j)"
  "written h j ''created_at'' = Some (format_rfc3339 (CreatedAt j))"
  "written h j ''status'' = Some (Status j)" "written h j ''error'' = Some (Error j)"
  "written h j ''worker_id'' = Some (WorkerID j)" "written h j ''retry_count'' = Some (show_int (RetryCount j))"
  "written h j ''storage_key'' = Some (StorageKey j)"
  "written h j ''started_at'' = Some (formatTimePtr (StartedAt j))"
  "written h j ''completed_at'' = Some (formatTimePtr (CompletedAt j))"
  "written h j ''failed_at'' = Some (formatTimePtr (FailedAt j))"
  unfolding written_eq job_fields_eq map_of_append map_add_def map_of_if_single by simp_all

lemma written_optional:
  "written h j ''phase'' = h ''phase''"
  "written h j ''result'' = (if Result j \<noteq> [] then Some (Result j) else h ''result'')"
  "written h j ''webhook_url'' = (if WebhookURL j \<noteq> [] then Some (WebhookURL j) else h ''webhook_url'')"
  "written h j ''webhook_secret'' = (if WebhookSecret j \<noteq> [] then Some (WebhookSecret j) else h ''webhook_secret'')"
  "written h j ''scan_timeout'' = (if ScanTimeout j > 0 then Some (show_int (ScanTimeout j)) else h ''scan_timeout'')"
  "written h j ''request_id'' = (if RequestID j \<noteq> [] then Some (RequestID j) else h ''request_id'')"
  "written h j ''file_type'' = (if FileType j \<noteq> [] then Some (FileType j) else h ''file_type'')"
  "written h j ''trace_context'' =
     (if TraceContext j \<noteq> [] then Some (marshal_map (TraceContext j)) else h ''trace_context'')"
  unfolding written_eq job_fields_eq map_of_append map_add_def map_of_if_single by simp_all

text \<open>
  What a job reads back as: what was written, except that the fields a job omits when they are empty
  keep what the hash held.
\<close>

definition overlay :: "(string \<rightharpoonup> string) \<Rightarrow> ScanJob \<Rightarrow> ScanJob" where
  "overlay h j =
     (let old = FromMap (convertMap h) zero_job in
      (stored j)\<lparr>Phase := Phase old,
        Result := (if Result j \<noteq> [] then Result j else Result old),
        WebhookURL := (if WebhookURL j \<noteq> [] then WebhookURL j else WebhookURL old),
        WebhookSecret := (if WebhookSecret j \<noteq> [] then WebhookSecret j else WebhookSecret old),
        ScanTimeout := (if ScanTimeout j > 0 then ScanTimeout j else ScanTimeout old),
        RequestID := (if RequestID j \<noteq> [] then RequestID j else RequestID old),
        FileType := (if FileType j \<noteq> [] then FileType j else FileType old),
        TraceContext := (if TraceContext j \<noteq> [] then TraceContext j else TraceContext old)\<rparr>)"

lemma str_field_convert: "str_field (convertMap m) k old = (case m k of Some s \<Rightarrow> s | None \<Rightarrow> old)"
  by (simp add: str_field_def convertMap_def split: option.split)

lemma int_field_convert:
  "int_field (convertMap m) k old = (case m k of Some s \<Rightarrow> (case sscanf_d s of Some i \<Rightarrow> i | None \<Rightarrow> old) | None \<Rightarrow> old)"
  by (simp add: int_field_def convertMap_def split: option.split)

lemma trace_field_convert:
  "trace_field (convertMap m) old =
     (case m ''trace_context'' of
        Some s \<Rightarrow> if s \<noteq> [] then (case unmarshal_map s of Some tc \<Rightarrow> tc | None \<Rightarrow> old) else old
      | None \<Rightarrow> old)"
  by (simp add: trace_field_def convertMap_def split: option.split)

lemma read_written:
  assumes "job_ok j"
  shows "FromMap (convertMap (written h j)) zero_job = overlay h j"
proof -
  have tm: "time_ptr_field (convertMap (written h j)) ''started_at'' old = map_option trunc_time (StartedAt j)"
    "time_ptr_field (convertMap (written h j)) ''completed_at'' old = map_option trunc_time (CompletedAt j)"
    "time_ptr_field (convertMap (written h j)) ''failed_at'' old = map_option trunc_time (FailedAt j)" for old
    using assms by (auto intro!: time_ptr_field_format simp: convertMap_def written_always job_ok_def)
  have tc: "unmarshal_map (marshal_map (TraceContext j)) = Some (TraceContext j)"
    using assms by (simp add: unmarshal_marshal_map job_ok_def)
  have ca: "(case convertMap (written h j) ''created_at'' of
      Some (VStr s) \<Rightarrow> (case parse_rfc3339 s of Some t \<Rightarrow> t | None \<Rightarrow> old) | _ \<Rightarrow> old) = trunc_time (CreatedAt j)" for old
    using assms by (simp add: convertMap_def written_always job_ok_def parse_format_rfc3339 trunc_time_def)
  have rc: "in_int64 (RetryCount j)" "in_int64 (ScanTimeout j)"
    using assms by (simp_all add: job_ok_def)
  show ?thesis
    by (rule ScanJob.equality)
      (simp_all add: FromMap_def str_field_convert int_field_convert trace_field_convert tm tc ca rc
        written_always written_optional overlay_def stored_def Let_def zero_job_def)
qed

lemma overlay_empty: "overlay Map.empty j = stored j"
  by (rule ScanJob.equality)
    (simp_all add: overlay_def stored_def FromMap_def zero_job_def str_field_convert int_field_convert
      trace_field_convert Let_def)

text \<open>Reading back a field the job always writes does not depend on what the hash held.\<close>

lemma overlay_sel [simp]:
  "ID (overlay h j) = ID j" "Status (overlay h j) = Status j" "RetryCount (overlay h j) = RetryCount j"
  "Error (overlay h j) = Error j" "WorkerID (overlay h j) = WorkerID j"
  "StorageKey (overlay h j) = StorageKey j" "APKPath (overlay h j) = APKPath j"
  by (simp_all add: overlay_def stored_def Let_def)

section \<open>Storing and reading a job\<close>


definition stored_sample :: ScanJob where
  "stored_sample = zero_job\<lparr>ID := ''j1'', Status := JobStatusQueued, RetryCount := 2, ScanTimeout := -5,
     Phase := ''scanning'', WebhookURL := ''https://h'', TraceContext := [(''a'', ''1''), (''b'', ''2'')],
     CreatedAt := \<lparr>year = 2024, month = 2, day = 29, hour = 23, minute = 59, second = 58, nano = 7, zone = 0\<rparr>\<rparr>"


end
