(* ===== verification/Job_Queue.thy ===== *)
theory Job_Queue
  imports World Scan_Job
begin

text \<open>
  The job queue of \<^verbatim>\<open>queue/queue.go\<close> and the reaper of \<^verbatim>\<open>queue/reaper.go\<close>: the Lua scripts as
  functions of the server (a script is one atomic unit), the methods of \<^verbatim>\<open>JobQueue\<close> as operations of
  the world, and the protocol of the reliable queue as a transition system of atomic server commands.
\<close>

section \<open>Keys\<close>

definition jobKey :: "string \<Rightarrow> key" where
  "jobKey i = ''morf:jobs:'' @ i"

definition statusKey :: "string \<Rightarrow> key" where
  "statusKey s = ''morf:jobs:status:'' @ s"

definition jobLeaseKey :: "string \<Rightarrow> key" where
  "jobLeaseKey i = ''morf:jobs:lease:'' @ i"

definition jobQueueKey :: key where
  "jobQueueKey = ''morf:job_queue''"

definition dlqKey :: key where
  "dlqKey = ''morf:dlq''"

definition webhookDLQKey :: key where
  "webhookDLQKey = ''morf:webhook_dlq''"

definition processingKey :: "string \<Rightarrow> key" where
  "processingKey w = ''morf:processing:'' @ w"

definition workerKeyPrefix :: string where
  "workerKeyPrefix = ''morf:workers:''"

definition workerKey :: "string \<Rightarrow> key" where
  "workerKey w = ''morf:workers:'' @ w"

lemmas key_defs = jobKey_def statusKey_def jobLeaseKey_def jobQueueKey_def dlqKey_def webhookDLQKey_def
  processingKey_def workerKey_def

lemma key_distinct [simp]:
  "jobQueueKey \<noteq> processingKey w" "processingKey w \<noteq> jobQueueKey"
  "dlqKey \<noteq> processingKey w" "processingKey w \<noteq> dlqKey" "dlqKey \<noteq> jobQueueKey" "jobQueueKey \<noteq> dlqKey"
  "(processingKey w = processingKey w') = (w = w')" "(statusKey a = statusKey b) = (a = b)"
  "(jobKey i = jobKey i') = (i = i')" "(jobLeaseKey i = jobLeaseKey i') = (i = i')"
  by (auto simp: key_defs)

definition ErrNoJob :: go_error where
  "ErrNoJob = Sentinel ''no job available''"

definition ErrQueueFull :: go_error where
  "ErrQueueFull = Sentinel ''queue is full''"

definition ttlSeconds :: int where
  "ttlSeconds = 7 * 24 * 3600"

section \<open>Scripts\<close>

definition enqueueScript :: "'s redis \<Rightarrow> key \<Rightarrow> key \<Rightarrow> key \<Rightarrow> string \<Rightarrow> int \<Rightarrow> (string \<times> string) list \<Rightarrow> 's \<Rightarrow> int \<times> 's" where
  "enqueueScript R k1 k2 k3 i ttl fs s =
     (1, cmd_rpush R k3 i (cmd_expire R k1 ttl (cmd_sadd R k2 i (cmd_hset R k1 fs s))))"

definition llen :: "'s redis \<Rightarrow> key \<Rightarrow> 's \<Rightarrow> int" where
  "llen R k s = int (length (k_list (view R s) k))"

definition enqueueWithLimitScript ::
  "'s redis \<Rightarrow> key \<Rightarrow> key \<Rightarrow> key \<Rightarrow> string \<Rightarrow> int \<Rightarrow> int \<Rightarrow> int \<Rightarrow> (string \<times> string) list \<Rightarrow> 's \<Rightarrow> int \<times> 's" where
  "enqueueWithLimitScript R k1 k2 k3 i ttl limit cnt fs s =
     (if limit > 0 \<and> llen R k3 s + cnt > limit then (0, s)
      else (1, cmd_rpush R k3 i (cmd_expire R k1 ttl (cmd_sadd R k2 i (cmd_hset R k1 fs s)))))"

definition moveToDLQScript :: "'s redis \<Rightarrow> key \<Rightarrow> key \<Rightarrow> key \<Rightarrow> key \<Rightarrow> string \<Rightarrow> 's \<Rightarrow> int \<times> 's" where
  "moveToDLQScript R k1 k2 k3 k4 i s =
     (1, cmd_srem R k4 i (cmd_srem R k3 i (cmd_srem R k2 i (cmd_lpush R k1 i s))))"

definition retryDLQRemoveScript :: "'s redis \<Rightarrow> key \<Rightarrow> string \<Rightarrow> 's \<Rightarrow> int \<times> 's" where
  "retryDLQRemoveScript R k1 i s =
     (let (removed, s1) = cmd_lrem R k1 i s in if removed = 0 then (0, s1) else (1, s1))"

definition hget :: "'s redis \<Rightarrow> key \<Rightarrow> string \<Rightarrow> 's \<Rightarrow> string option" where
  "hget R k f s = k_hash (view R s) k f"

definition cancelJobScript ::
  "'s redis \<Rightarrow> key \<Rightarrow> key \<Rightarrow> key \<Rightarrow> key \<Rightarrow> key \<Rightarrow> string \<Rightarrow> string \<Rightarrow> string \<Rightarrow> string \<Rightarrow> 's \<Rightarrow> int \<times> 's" where
  "cancelJobScript R k1 k2 k3 k4 k5 i cancelled failed_at msg s =
     (if \<not> key_exists k1 (view R s) then (0, s)
      else
        (let status = hget R k1 ''status'' s in
         if status \<noteq> Some ''queued'' \<and> status \<noteq> Some ''processing'' then (- 1, s)
         else
           (let s1 = cmd_hset R k1 [(''status'', cancelled), (''failed_at'', failed_at), (''error'', msg)] s;
                s2 = cmd_srem R k3 i s1;
                s3 = cmd_srem R k4 i s2;
                s4 = cmd_sadd R k5 i s3;
                s5 = (if status = Some ''queued'' then snd (cmd_lrem R k2 i s4) else s4)
            in (1, s5))))"

section \<open>Publishing\<close>

definition CreateJob :: "'s redis \<Rightarrow> ScanJob \<Rightarrow> ('s, unit) op" where
  "CreateJob R job =
     op_seq (wrapv ''failed to create job: '' (rcall (write_cmd (cmd_hset R (jobKey (ID job)) (job_fields job)))))
    (op_seq (wrapv ''failed to add to status set: '' (rcall (write_cmd (cmd_sadd R (statusKey (Status job)) (ID job)))))
            (op_ignore (rcall (write_cmd (cmd_expire R (jobKey (ID job)) ttlSeconds)))))"

definition EnqueueJobAtomic :: "'s redis \<Rightarrow> ScanJob \<Rightarrow> ('s, unit) op" where
  "EnqueueJobAtomic R job =
     op_seq (wrapv ''failed to atomically enqueue job: ''
       (redisDo (rcall (enqueueScript R (jobKey (ID job)) (statusKey (Status job)) jobQueueKey (ID job) ttlSeconds (job_fields job)))))
     (op_ret ())"

definition EnqueueJobAtomicWithLimit :: "'s redis \<Rightarrow> ScanJob \<Rightarrow> int \<Rightarrow> int \<Rightarrow> ('s, unit) op" where
  "EnqueueJobAtomicWithLimit R job limit cnt =
     op_bind (wrapv ''failed to atomically enqueue job: ''
       (redisDo (rcall (enqueueWithLimitScript R (jobKey (ID job)) (statusKey (Status job)) jobQueueKey (ID job) ttlSeconds
          limit cnt (job_fields job)))))
     (\<lambda>admitted. if admitted = 0 then op_fail ErrQueueFull else op_ret ())"

definition PushJob :: "'s redis \<Rightarrow> string \<Rightarrow> ('s, unit) op" where
  "PushJob R i = redisDo (rcall (write_cmd (cmd_rpush R jobQueueKey i)))"

section \<open>The webhook dead-letter list\<close>

definition webhookDLQMaxLen :: int where
  "webhookDLQMaxLen = 1000"

record FailedWebhook =
  fw_JobID :: string
  fw_WebhookURL :: string
  fw_JobStatus :: string
  fw_Error :: string
  fw_RecordedAt :: int

definition webhook_json :: "FailedWebhook \<Rightarrow> json" where
  "webhook_json r = JObj [(''job_id'', JStr (fw_JobID r)), (''webhook_url'', JStr (fw_WebhookURL r)),
     (''job_status'', JStr (fw_JobStatus r)), (''error'', JStr (fw_Error r)), (''recorded_at'', JNum (show_int (fw_RecordedAt r)))]"

definition RecordFailedWebhook :: "'s redis \<Rightarrow> FailedWebhook \<Rightarrow> ('s, unit) op" where
  "RecordFailedWebhook R r =
     op_seq (wrapv ''failed to record failed webhook: '' (rcall (write_cmd (cmd_rpush R webhookDLQKey (marshal (webhook_json r))))))
            (op_ignore (rcall (write_cmd (cmd_ltrim R webhookDLQKey (- webhookDLQMaxLen) (- 1)))))"

definition GetWebhookDLQDepth :: "'s redis \<Rightarrow> ('s, int) op" where
  "GetWebhookDLQDepth R = rcall (read_cmd (llen R webhookDLQKey))"

definition lrange :: "'s redis \<Rightarrow> key \<Rightarrow> int \<Rightarrow> int \<Rightarrow> 's \<Rightarrow> string list" where
  "lrange R k a b s = redis_range a b (k_list (view R s) k)"

definition GetWebhookDLQPage :: "'s redis \<Rightarrow> int \<Rightarrow> int \<Rightarrow> ('s, string list) op" where
  "GetWebhookDLQPage R off limit =
     (let limit = (if limit \<le> 0 then 50 else limit)
      in rcall (read_cmd (lrange R webhookDLQKey off (off + limit - 1))))"

section \<open>Status sets and leases\<close>

definition terminalJobStatuses :: "string list" where
  "terminalJobStatuses = [''completed'', ''failed'', ''cancelled'']"

definition trim_member :: "'s redis \<Rightarrow> key \<Rightarrow> string \<Rightarrow> ('s, unit) op" where
  "trim_member R setKey i =
     op_bind (op_try (rcall (read_cmd (\<lambda>s. key_exists (jobKey i) (view R s)))))
       (\<lambda>r. if r = Inr False then op_ignore (rcall (write_cmd (cmd_srem R setKey i))) else op_ret ())"

definition TrimTerminalStatusSets :: "'s redis \<Rightarrow> ('s, unit) op" where
  "TrimTerminalStatusSets R =
     op_each (\<lambda>status. op_bind (rcall (read_cmd (cmd_sscan R (statusKey status))))
       (\<lambda>ids. op_each (trim_member R (statusKey status)) ids)) terminalJobStatuses"

definition jobLeaseTTL :: int where
  "jobLeaseTTL = 2 * 3600"

definition SetJobLease :: "'s redis \<Rightarrow> string \<Rightarrow> string \<Rightarrow> ('s, unit) op" where
  "SetJobLease R i wid = redisDo (rcall (write_cmd (cmd_set_ex R (jobLeaseKey i) wid jobLeaseTTL)))"

definition CheckJobLease :: "'s redis \<Rightarrow> string \<Rightarrow> string \<Rightarrow> ('s, bool \<times> go_error option) op" where
  "CheckJobLease R i wid =
     op_bind (op_try (redisDo (rcall (read_cmd (\<lambda>s. k_str (view R s) (jobLeaseKey i))))))
       (\<lambda>r. op_ret (case r of
          Inl e \<Rightarrow> (True, Some e)
        | Inr got \<Rightarrow> (let owner = (case got of None \<Rightarrow> [] | Some x \<Rightarrow> x)
                     in if owner = [] then (True, None) else (owner = wid, None))))"

definition ClearJobLease :: "'s redis \<Rightarrow> string \<Rightarrow> ('s, unit) op" where
  "ClearJobLease R i = op_ignore (rcall (write_cmd (cmd_del R (jobLeaseKey i))))"

section \<open>The reliable queue\<close>

definition PopJobReliable :: "'s redis \<Rightarrow> string \<Rightarrow> ('s, string) op" where
  "PopJobReliable R wid =
     op_bind (rcall (cmd_lmove R jobQueueKey (processingKey wid)))
       (\<lambda>r. case r of None \<Rightarrow> op_fail ErrNoJob | Some i \<Rightarrow> op_ret i)"

definition AckJob :: "'s redis \<Rightarrow> string \<Rightarrow> string \<Rightarrow> ('s, unit) op" where
  "AckJob R wid i = op_seq (redisDo (rcall (cmd_lrem R (processingKey wid) i))) (op_ret ())"

definition RequeueProcessing :: "'s redis \<Rightarrow> string \<Rightarrow> string \<Rightarrow> ('s, unit) op" where
  "RequeueProcessing R wid i =
     redisDo (op_bind (wrapv ''failed to remove from processing list: '' (rcall (cmd_lrem R (processingKey wid) i)))
       (\<lambda>n. if n = 0 then op_ret ()
            else wrapv ''failed to requeue job: '' (rcall (write_cmd (cmd_rpush R jobQueueKey i)))))"

section \<open>Reading and updating jobs\<close>

definition GetJob :: "'s redis \<Rightarrow> string \<Rightarrow> ('s, ScanJob) op" where
  "GetJob R i =
     op_bind (wrapv ''failed to get job: '' (redisDo (rcall (read_cmd (\<lambda>s. k_hash (view R s) (jobKey i))))))
       (\<lambda>result. if result = Map.empty then op_fail (Errorf (''job not found: '' @ i) [])
                 else op_ret (FromMap (convertMap result) zero_job))"

definition isTerminalStatus :: "JobStatus \<Rightarrow> bool" where
  "isTerminalStatus st \<longleftrightarrow> st = JobStatusCompleted \<or> st = JobStatusFailed \<or> st = JobStatusCancelled"

definition nonTerminalStatuses :: "JobStatus list" where
  "nonTerminalStatuses = [JobStatusQueued, JobStatusProcessing]"

text \<open>The bookkeeping of the status sets that follows the write of the hash.\<close>

definition update_status_sets :: "'s redis \<Rightarrow> ScanJob \<Rightarrow> string \<Rightarrow> ('s, unit) op" where
  "update_status_sets R job oldStatus =
     op_seq (if oldStatus \<noteq> [] \<and> oldStatus \<noteq> Status job
             then op_seq (op_ignore (rcall (write_cmd (cmd_srem R (statusKey oldStatus) (ID job)))))
                         (op_ignore (rcall (write_cmd (cmd_sadd R (statusKey (Status job)) (ID job)))))
             else op_ret ())
            (if isTerminalStatus (Status job)
             then op_each (\<lambda>st. op_ignore (rcall (write_cmd (cmd_srem R (statusKey st) (ID job))))) nonTerminalStatuses
             else op_ret ())"

definition UpdateJob :: "'s redis \<Rightarrow> ScanJob \<Rightarrow> ('s, unit) op" where
  "UpdateJob R job =
     op_bind (op_try (rcall (read_cmd (hget R (jobKey (ID job)) ''status''))))
    (\<lambda>r. let oldStatus = (case r of Inr (Some st) \<Rightarrow> st | _ \<Rightarrow> []) in
     op_seq (wrapv ''failed to update job: '' (redisDo (rcall (write_cmd (cmd_hset R (jobKey (ID job)) (job_fields job))))))
    (op_seq (op_ignore (rcall (write_cmd (cmd_expire R (jobKey (ID job)) ttlSeconds))))
            (update_status_sets R job oldStatus)))"

definition MoveToDLQ :: "'s redis \<Rightarrow> string \<Rightarrow> ('s, unit) op" where
  "MoveToDLQ R i =
     op_seq (wrapv ''failed to move to DLQ: ''
       (redisDo (rcall (moveToDLQScript R dlqKey (statusKey ''queued'') (statusKey ''processing'') (statusKey ''failed'') i))))
     (op_ret ())"

definition SetJobPhase :: "'s redis \<Rightarrow> string \<Rightarrow> string \<Rightarrow> ('s, unit) op" where
  "SetJobPhase R i phase = rcall (write_cmd (cmd_hset R (jobKey i) [(''phase'', phase)]))"

definition RegisterWorker :: "'s redis \<Rightarrow> string \<Rightarrow> ('s, unit) op" where
  "RegisterWorker R wid =
     op_bind op_now (\<lambda>now. rcall (write_cmd (cmd_hset R (workerKey wid)
       [(''id'', wid), (''started_at'', format_rfc3339 now), (''last_heartbeat'', format_rfc3339 now)])))"

definition UnregisterWorker :: "'s redis \<Rightarrow> string \<Rightarrow> ('s, unit) op" where
  "UnregisterWorker R wid = rcall (write_cmd (cmd_del R (workerKey wid)))"

definition UpdateWorkerHeartbeat :: "'s redis \<Rightarrow> string \<Rightarrow> ('s, unit) op" where
  "UpdateWorkerHeartbeat R wid =
     op_bind op_now (\<lambda>now. rcall (write_cmd (cmd_hset R (workerKey wid) [(''last_heartbeat'', format_rfc3339 now)])))"

definition GetQueueDepth :: "'s redis \<Rightarrow> ('s, int) op" where
  "GetQueueDepth R = redisDo (rcall (read_cmd (llen R jobQueueKey)))"

definition GetDLQDepth :: "'s redis \<Rightarrow> ('s, int) op" where
  "GetDLQDepth R = redisDo (rcall (read_cmd (llen R dlqKey)))"

definition GetDLQJobsPage :: "'s redis \<Rightarrow> int \<Rightarrow> int \<Rightarrow> ('s, string list) op" where
  "GetDLQJobsPage R off limit =
     (let off = (if off < 0 then 0 else off) in
      if limit \<le> 0 then op_ret []
      else redisDo (rcall (read_cmd (lrange R dlqKey off (off + limit - 1)))))"

definition reset_job :: "ScanJob \<Rightarrow> ScanJob" where
  "reset_job job = job\<lparr>Status := JobStatusQueued, RetryCount := 0, Error := [], StartedAt := None,
     FailedAt := None, WorkerID := []\<rparr>"

definition RetryDLQJob :: "'s redis \<Rightarrow> string \<Rightarrow> ('s, unit) op" where
  "RetryDLQJob R i =
     op_bind (wrapv ''failed to remove from DLQ: '' (redisDo (rcall (retryDLQRemoveScript R dlqKey i))))
    (\<lambda>removed. if removed = 0 then op_fail (Errorf (''job not found in DLQ: '' @ i) [])
     else op_bind (wrapv ''failed to get job: '' (GetJob R i))
    (\<lambda>job. wrapv ''failed to re-enqueue job: '' (EnqueueJobAtomic R (reset_job job))))"

definition CancelJob :: "'s redis \<Rightarrow> string \<Rightarrow> ('s, unit) op" where
  "CancelJob R i =
     op_bind op_now (\<lambda>now.
     op_bind (wrapv ''failed to cancel job: ''
       (redisDo (rcall (cancelJobScript R (jobKey i) jobQueueKey (statusKey ''queued'') (statusKey ''processing'')
          (statusKey ''cancelled'') i JobStatusCancelled (format_rfc3339 now) ''Job cancelled by user''))))
    (\<lambda>res. if res = 0 then op_fail (Errorf (''job not found: '' @ i) [])
           else if res = - 1 then op_fail (Errorf ''cannot cancel job: not in a queued or processing state'' [])
           else op_ret ()))"

section \<open>The reaper\<close>

definition reaperInterval :: "int \<Rightarrow> int" where
  "reaperInterval staleAfter =
     (let interval = staleAfter div 2 in if interval < second_ns then second_ns else interval)"

definition reapWorker :: "'s redis \<Rightarrow> int \<Rightarrow> key \<Rightarrow> ('s, unit) op" where
  "reapWorker R staleAfter wkey =
     (let wid = trimPrefix wkey workerKeyPrefix in
      if wid = wkey \<or> wid = [] then op_ret ()
      else op_bind (op_try (rcall (read_cmd (hget R wkey ''last_heartbeat''))))
       (\<lambda>hb. case hb of
          Inr (Some hb) \<Rightarrow>
            (case parse_rfc3339 hb of
               None \<Rightarrow> op_ret ()
             | Some beat \<Rightarrow> op_bind op_now (\<lambda>now.
                 if time_since now beat < staleAfter then op_ret ()
                 else op_bind (op_try (rcall (read_cmd (lrange R (processingKey wid) 0 (- 1)))))
                  (\<lambda>r. case r of
                     Inl e \<Rightarrow> op_ret ()
                   | Inr ids \<Rightarrow> op_seq (op_each (\<lambda>i. op_ignore (RequeueProcessing R wid i)) ids)
                                      (op_ignore (rcall (write_cmd (cmd_del R wkey)))))))
        | _ \<Rightarrow> op_ret ()))"

text \<open>
  One sweep, with a bound on the number of pages of the cursor's iteration (\<^const>\<open>None\<close> when the bound
  is reached before the cursor returns to 0), and what one tick of \<^verbatim>\<open>StartReaper\<close> does.
\<close>

fun reap_pages :: "'s redis \<Rightarrow> int \<Rightarrow> nat \<Rightarrow> int \<Rightarrow> 's world \<Rightarrow> ((go_error + unit) \<times> 's world) option" where
  "reap_pages R staleAfter 0 cursor w = None"
| "reap_pages R staleAfter (Suc n) cursor w =
     (case rcall (read_cmd (cmd_scan R cursor workerKeyPrefix)) w of
        (Inl e, w1) \<Rightarrow> Some (Inl e, w1)
      | (Inr (keys, next_cursor), w1) \<Rightarrow>
          (case op_each (reapWorker R staleAfter) keys w1 of
             (_, w2) \<Rightarrow> if next_cursor = 0 then Some (Inr (), w2) else reap_pages R staleAfter n next_cursor w2))"

definition reapOnce :: "'s redis \<Rightarrow> int \<Rightarrow> nat \<Rightarrow> 's world \<Rightarrow> ((go_error + unit) \<times> 's world) option" where
  "reapOnce R staleAfter n w = reap_pages R staleAfter n 0 w"

definition reaper_tick :: "'s redis \<Rightarrow> int \<Rightarrow> nat \<Rightarrow> 's world \<Rightarrow> 's world option" where
  "reaper_tick R staleAfter n w =
     (case reapOnce R staleAfter n w of
        None \<Rightarrow> None
      | Some (_, w1) \<Rightarrow> Some (snd (TrimTerminalStatusSets R w1)))"

end
