(* ===== verification/Reliable_Queue.thy ===== *)
theory Reliable_Queue
  imports Job_Queue
begin

text \<open>
  The protocol of the reliable queue under concurrency.  The steps are single Redis commands and
  scripts, in any interleaving: producers publish, workers pop and acknowledge, users cancel, and any
  number of reapers requeue, each in the two commands of \<^verbatim>\<open>RequeueProcessing\<close>, between which the job
  is held by the reaper alone.  A reaper may fail between its two commands.
\<close>

section \<open>The fleet\<close>

text \<open>
  The server, the jobs reapers hold between their two commands, and three ghost sets: the jobs ever
  published, those acknowledged or cancelled, and those a failing reaper dropped.
\<close>

record 's fleet =
  srv :: 's
  hand :: "string multiset"
  enqueued :: "string set"
  settled :: "string set"
  dropped :: "string set"

datatype fleet_event =
    EvEnqueue ScanJob
  | EvPop string
  | EvAck string string
  | EvReapRemove string string
  | EvReapPush string
  | EvReapFail string
  | EvCancel string string
  | EvHSet key "(string \<times> string) list"

definition cancel_at :: "'s redis \<Rightarrow> string \<Rightarrow> string \<Rightarrow> 's \<Rightarrow> int \<times> 's" where
  "cancel_at R i t = cancelJobScript R (jobKey i) jobQueueKey (statusKey ''queued'') (statusKey ''processing'')
     (statusKey ''cancelled'') i JobStatusCancelled t ''Job cancelled by user''"

text \<open>
  One step of the fleet, \<^const>\<open>None\<close> when the event cannot occur: job identifiers are published once (they
  are UUIDs), and the workers are those of \<open>ws\<close>.
\<close>

fun fleet_step :: "'s redis \<Rightarrow> string list \<Rightarrow> fleet_event \<Rightarrow> 's fleet \<Rightarrow> 's fleet option" where
  "fleet_step R ws (EvEnqueue job) F =
     (if ID job \<in> enqueued F then None
      else Some (F\<lparr>srv := snd (enqueueScript R (jobKey (ID job)) (statusKey (Status job)) jobQueueKey (ID job)
                          ttlSeconds (job_fields job) (srv F)),
                   enqueued := insert (ID job) (enqueued F)\<rparr>))"
| "fleet_step R ws (EvPop w) F =
     (if w \<in> set ws then Some (F\<lparr>srv := snd (cmd_lmove R jobQueueKey (processingKey w) (srv F))\<rparr>) else None)"
| "fleet_step R ws (EvAck w i) F =
     (if w \<in> set ws
      then Some (F\<lparr>srv := snd (cmd_lrem R (processingKey w) i (srv F)), settled := insert i (settled F)\<rparr>) else None)"
| "fleet_step R ws (EvReapRemove w i) F =
     (if w \<in> set ws
      then (case cmd_lrem R (processingKey w) i (srv F) of
              (n, s) \<Rightarrow> Some (F\<lparr>srv := s, hand := if n = 0 then hand F else add_mset i (hand F)\<rparr>)) else None)"
| "fleet_step R ws (EvReapPush i) F =
     (if i \<in># hand F
      then Some (F\<lparr>srv := cmd_rpush R jobQueueKey i (srv F), hand := hand F - {#i#}\<rparr>) else None)"
| "fleet_step R ws (EvReapFail i) F =
     (if i \<in># hand F
      then Some (F\<lparr>hand := hand F - {#i#}, dropped := insert i (dropped F)\<rparr>) else None)"
| "fleet_step R ws (EvCancel i t) F =
     Some (F\<lparr>srv := snd (cancel_at R i t (srv F)), settled := insert i (settled F)\<rparr>)"
| "fleet_step R ws (EvHSet k fs) F = Some (F\<lparr>srv := cmd_hset R k fs (srv F)\<rparr>)"

fun fleet_run :: "'s redis \<Rightarrow> string list \<Rightarrow> fleet_event list \<Rightarrow> 's fleet \<Rightarrow> 's fleet option" where
  "fleet_run R ws [] F = Some F"
| "fleet_run R ws (e # es) F = (case fleet_step R ws e F of None \<Rightarrow> None | Some F' \<Rightarrow> fleet_run R ws es F')"

definition fleet_start :: "'s \<Rightarrow> 's fleet" where
  "fleet_start s = \<lparr>srv = s, hand = {#}, enqueued = {}, settled = {}, dropped = {}\<rparr>"

inductive fleet_reach :: "'s redis \<Rightarrow> string list \<Rightarrow> 's fleet \<Rightarrow> 's fleet \<Rightarrow> bool" for R ws F0 where
  refl: "fleet_reach R ws F0 F0"
| step: "fleet_reach R ws F0 F \<Longrightarrow> fleet_step R ws e F = Some F' \<Longrightarrow> fleet_reach R ws F0 F'"

inductive_cases fleet_reachE: "fleet_reach R ws F0 F"

lemma fleet_run_reach: "fleet_reach R ws F0 F \<Longrightarrow> fleet_run R ws es F = Some F' \<Longrightarrow> fleet_reach R ws F0 F'"
  by (induction es arbitrary: F) (auto split: option.splits intro: fleet_reach.step)

section \<open>Copies of a job\<close>

text \<open>The copies of a job: in the queue, in the processing lists, and in a reaper's hand.\<close>

definition held :: "string list \<Rightarrow> (key \<Rightarrow> string list) \<Rightarrow> string \<Rightarrow> nat" where
  "held ws l i = (\<Sum>w\<in>set ws. count_list (l (processingKey w)) i)"

definition copies_in :: "string list \<Rightarrow> (key \<Rightarrow> string list) \<Rightarrow> string \<Rightarrow> nat" where
  "copies_in ws l i = count_list (l jobQueueKey) i + held ws l i"

definition copies :: "'s redis \<Rightarrow> string list \<Rightarrow> 's fleet \<Rightarrow> string \<Rightarrow> nat" where
  "copies R ws F i = copies_in ws (k_list (view R (srv F))) i + count (hand F) i"

lemma held_queue [simp]: "held ws (l(jobQueueKey := xs)) i = held ws l i"
  by (simp add: held_def)

lemma held_upd:
  assumes "w \<in> set ws"
  shows "held ws (l(processingKey w := xs)) i + count_list (l (processingKey w)) i = held ws l i + count_list xs i"
proof -
  have "held ws (l(processingKey w := xs)) i = count_list xs i + (\<Sum>v\<in>set ws - {w}. count_list (l (processingKey v)) i)"
    unfolding held_def using assms by (subst sum.remove [of _ w]) (auto intro!: sum.cong)
  moreover have "held ws l i = count_list (l (processingKey w)) i + (\<Sum>v\<in>set ws - {w}. count_list (l (processingKey v)) i)"
    unfolding held_def using assms by (subst sum.remove [of _ w]) auto
  ultimately show ?thesis by simp
qed

lemma copies_push: "copies_in ws (l(jobQueueKey := l jobQueueKey @ [j])) i = copies_in ws l i + (if i = j then 1 else 0)"
  by (simp add: copies_in_def)

lemma copies_queue_rem:
  "copies_in ws (l(jobQueueKey := remove1 j (l jobQueueKey))) i =
     copies_in ws l i - (if i = j \<and> j \<in> set (l jobQueueKey) then 1 else 0)"
  using count_list_pos_iff [of "l jobQueueKey" j] by (auto simp: copies_in_def count_list_0_iff)

lemma copies_held_rem:
  assumes "w \<in> set ws"
  shows "copies_in ws (l(processingKey w := remove1 j (l (processingKey w)))) i +
      (if i = j \<and> j \<in> set (l (processingKey w)) then 1 else 0) = copies_in ws l i"
proof (cases "j \<in> set (l (processingKey w))")
  case True
  then have "0 < count_list (l (processingKey w)) j" by (simp add: count_list_pos_iff)
  with True held_upd [OF assms, of l "remove1 j (l (processingKey w))" i] show ?thesis
    by (auto simp: copies_in_def)
next
  case False
  then show ?thesis by (simp add: remove1_idem)
qed

lemma copies_move:
  assumes "w \<in> set ws" "l jobQueueKey = j # q"
  shows "copies_in ws (l(jobQueueKey := q, processingKey w := l (processingKey w) @ [j])) i = copies_in ws l i"
  using held_upd [OF assms(1), of "l(jobQueueKey := q)" "l (processingKey w) @ [j]" i] assms(2)
  by (auto simp: copies_in_def)

lemma cancel_lists:
  assumes "redis_server R"
  shows "\<exists>b. k_list (view R (snd (cancel_at R i t s))) =
    (if b then (k_list (view R s))(jobQueueKey := remove1 i (k_list (view R s) jobQueueKey)) else k_list (view R s))"
proof -
  show ?thesis
    using assms
    by (intro exI [of _ "key_exists (jobKey i) (view R s) \<and> hget R (jobKey i) ''status'' s = Some ''queued''"])
      (auto simp: cancel_at_def cancelJobScript_def Let_def redis_view)
qed

section \<open>No job is lost or duplicated\<close>

definition fleet_inv :: "'s redis \<Rightarrow> string list \<Rightarrow> 's fleet \<Rightarrow> bool" where
  "fleet_inv R ws F \<longleftrightarrow>
     (\<forall>i. copies R ws F i \<le> 1 \<and> (i \<notin> enqueued F \<longrightarrow> copies R ws F i = 0) \<and>
          (i \<in> enqueued F - settled F - dropped F \<longrightarrow> copies R ws F i = 1))"

text \<open>How each step changes the number of copies.\<close>

definition copies_change :: "'s redis \<Rightarrow> string list \<Rightarrow> fleet_event \<Rightarrow> 's fleet \<Rightarrow> 's fleet \<Rightarrow> string \<Rightarrow> bool" where
  "copies_change R ws e F F' i \<longleftrightarrow>
     (case e of
        EvEnqueue job \<Rightarrow> copies R ws F' i = copies R ws F i + (if i = ID job then 1 else 0)
      | EvAck w j \<Rightarrow> copies R ws F' i \<le> copies R ws F i \<and> (i \<noteq> j \<longrightarrow> copies R ws F' i = copies R ws F i)
      | EvCancel j t \<Rightarrow> copies R ws F' i \<le> copies R ws F i \<and> (i \<noteq> j \<longrightarrow> copies R ws F' i = copies R ws F i)
      | EvReapFail j \<Rightarrow> copies R ws F' i \<le> copies R ws F i \<and> (i \<noteq> j \<longrightarrow> copies R ws F' i = copies R ws F i)
      | _ \<Rightarrow> copies R ws F' i = copies R ws F i)"

lemma step_copies:
  assumes "redis_server R" "fleet_step R ws e F = Some F'"
  shows "copies_change R ws e F F' i"
proof (cases e)
  case (EvEnqueue job)
  with assms show ?thesis
    by (auto simp: copies_change_def copies_def copies_push enqueueScript_def redis_view split: if_splits)
next
  case (EvPop w)
  then have w: "w \<in> set ws" and F': "F' = F\<lparr>srv := snd (cmd_lmove R jobQueueKey (processingKey w) (srv F))\<rparr>"
    using assms(2) by (auto split: if_splits)
  show ?thesis
    using copies_move [OF w, of "k_list (view R (srv F))" _ _ i] assms(1)
    by (simp add: EvPop F' copies_change_def copies_def redis_view k_list_lmove split: list.split)
next
  case (EvAck w j)
  with assms copies_held_rem [of w ws "k_list (view R (srv F))" j i] show ?thesis
    by (auto simp: copies_change_def copies_def redis_view split: if_splits)
next
  case (EvReapRemove w j)
  with assms copies_held_rem [of w ws "k_list (view R (srv F))" j i] show ?thesis
    using redis_server.lrem_count [OF assms(1), of "processingKey w" j "srv F"]
      redis_server.view_lrem [OF assms(1), of "processingKey w" j "srv F"]
    by (auto simp: copies_change_def copies_def split: if_splits prod.splits)
next
  case (EvReapPush j)
  with assms show ?thesis
    by (auto simp: copies_change_def copies_def copies_push redis_view split: if_splits)
next
  case (EvReapFail j)
  with assms show ?thesis
    by (auto simp: copies_change_def copies_def split: if_splits)
next
  case (EvCancel j t)
  with assms cancel_lists [OF assms(1), of j t "srv F"] copies_queue_rem [of ws "k_list (view R (srv F))" j i]
  show ?thesis
    by (auto simp: copies_change_def copies_def split: if_splits)
next
  case (EvHSet k fs)
  with assms show ?thesis
    by (auto simp: copies_change_def copies_def redis_view)
qed

lemma fleet_inv_step:
  assumes "redis_server R" "fleet_step R ws e F = Some F'" "fleet_inv R ws F"
  shows "fleet_inv R ws F'"
  unfolding fleet_inv_def
proof
  fix i
  have inv: "copies R ws F i \<le> 1" "i \<notin> enqueued F \<Longrightarrow> copies R ws F i = 0"
    "i \<in> enqueued F - settled F - dropped F \<Longrightarrow> copies R ws F i = 1"
    using assms(3) by (simp_all add: fleet_inv_def)
  show "copies R ws F' i \<le> 1 \<and> (i \<notin> enqueued F' \<longrightarrow> copies R ws F' i = 0) \<and>
      (i \<in> enqueued F' - settled F' - dropped F' \<longrightarrow> copies R ws F' i = 1)"
    using step_copies [OF assms(1,2), of i] assms(2) inv
    by (cases e) (auto simp: copies_change_def split: if_splits prod.splits)
qed

lemma fleet_inv_start:
  assumes "k_list (view R s) jobQueueKey = []" "\<And>w. k_list (view R s) (processingKey w) = []"
  shows "fleet_inv R ws (fleet_start s)"
  using assms by (simp add: fleet_inv_def copies_def copies_in_def held_def fleet_start_def)

lemma fleet_reach_inv:
  assumes "redis_server R" "fleet_reach R ws F0 F" "fleet_inv R ws F0"
  shows "fleet_inv R ws F"
  using assms(2,3)
proof (induction rule: fleet_reach.induct)
  case refl
  then show ?case .
next
  case (step F e F')
  then show ?case using fleet_inv_step [OF assms(1)] by blast
qed


text \<open>A run in which one worker dies with the job and two reapers sweep it at the same time.\<close>

definition demo_job :: ScanJob where
  "demo_job = zero_job\<lparr>ID := ''j1'', Status := JobStatusQueued\<rparr>"

definition demo_events :: "fleet_event list" where
  "demo_events = [EvEnqueue demo_job, EvPop ''w1'', EvReapRemove ''w1'' ''j1'', EvReapRemove ''w1'' ''j1'',
     EvReapPush ''j1'', EvPop ''w2'']"

definition demo_fleet :: "keyspace fleet" where
  "demo_fleet = the (fleet_run (mem_redis [] []) [''w1'', ''w2''] demo_events (fleet_start empty_keyspace))"

lemma demo_run: "fleet_run (mem_redis [] []) [''w1'', ''w2''] demo_events (fleet_start empty_keyspace) = Some demo_fleet"
  by (simp add: demo_fleet_def demo_events_def demo_job_def fleet_start_def enqueueScript_def empty_keyspace_def
    k_list_lmove)


end
