(* ===== verification/Queue_Laws.thy ===== *)
theory Queue_Laws
  imports Job_Queue
begin

text \<open>
  What the operations of the job queue do.  Exact effects are stated for a healthy world (every
  command answered once, breaker closed); safety properties hold whatever the network and the breaker
  do.
\<close>

section \<open>Publishing\<close>

lemma view_enqueueScript:
  "redis_server R \<Longrightarrow> view R (snd (enqueueScript R k1 k2 k3 i ttl fs s)) =
     ks_rpush k3 i (ks_expire k1 ttl (ks_sadd k2 i (ks_hset k1 fs (view R s))))"
  by (simp add: enqueueScript_def redis_view)

lemma view_limitScript:
  "redis_server R \<Longrightarrow> view R (snd (enqueueWithLimitScript R k1 k2 k3 i ttl limit cnt fs s)) =
     (if limit > 0 \<and> int (length (k_list (view R s) k3)) + cnt > limit then view R s
      else ks_rpush k3 i (ks_expire k1 ttl (ks_sadd k2 i (ks_hset k1 fs (view R s)))))"
  by (simp add: enqueueWithLimitScript_def llen_def redis_view)

definition published :: "ScanJob \<Rightarrow> keyspace \<Rightarrow> keyspace \<Rightarrow> bool" where
  "published job v v' \<longleftrightarrow>
     k_list v' = (k_list v)(jobQueueKey := k_list v jobQueueKey @ [ID job]) \<and>
     k_set v' = (k_set v)(statusKey (Status job) := insert (ID job) (k_set v (statusKey (Status job)))) \<and>
     k_hash v' = (k_hash v)(jobKey (ID job) := written (k_hash v (jobKey (ID job))) job) \<and> k_str v' = k_str v \<and>
     k_ttl v' (jobKey (ID job)) = Some ttlSeconds"

lemma published_script:
  "published job v (ks_rpush jobQueueKey (ID job) (ks_expire (jobKey (ID job)) ttlSeconds
     (ks_sadd (statusKey (Status job)) (ID job) (ks_hset (jobKey (ID job)) (job_fields job) v))))"
proof -
  have "(k_hash v (jobKey (ID job)) ++ map_of (rev (job_fields job))) ''id'' = Some (ID job)"
    using written_always(1) [of "k_hash v (jobKey (ID job))" job] by (simp only: written_def)
  then show ?thesis
    by (simp add: published_def written_def k_ttl_expire)
qed

lemma wp_EnqueueLimit:
  assumes "redis_server R"
  shows "wp C (EnqueueJobAtomicWithLimit R job limit cnt)
    (\<lambda>r s'. if 0 < limit \<and> int (length (k_list (view R s) jobQueueKey)) + cnt > limit
            then r = Inl ErrQueueFull \<and> s' = s
            else r = Inr () \<and> published job (view R s) (view R s')) s"
  unfolding EnqueueJobAtomicWithLimit_def
  using assms
  by (intro wp_rules) (auto intro!: wp_rules simp: enqueueWithLimitScript_def llen_def redis_view published_script)

text \<open>
  Admission is exact: in a healthy world \<^verbatim>\<open>EnqueueJobAtomicWithLimit\<close> rejects a job with
  \<^verbatim>\<open>ErrQueueFull\<close>, and changes nothing, exactly when a positive limit would be exceeded; otherwise the
  job is published as a whole: at the tail of the queue, in its status set, its hash written and the
  seven-day expiry set.
\<close>

theorem enqueue_limit_exact:
  assumes "redis_server R" "healthy w"
  shows "let v = view R (server w); (r, w') = EnqueueJobAtomicWithLimit R job limit cnt w in
    if 0 < limit \<and> int (length (k_list v jobQueueKey)) + cnt > limit
    then r = Inl ErrQueueFull \<and> server w' = server w
    else r = Inr () \<and> published job v (view R (server w'))"
  using wpD [OF wp_EnqueueLimit [OF assms(1)] assms(2)]
  by (simp add: Let_def case_prod_beta split: if_splits)

text \<open>
  C6 (the limit is never exceeded): whatever the network, the client library's retries and the breaker
  do, an admission with a positive limit and count leaves a queue within the limit within the limit.
\<close>

theorem enqueue_limit_holds:
  assumes "redis_server R" "0 < limit" "0 < cnt" "int (length (k_list (view R (server w)) jobQueueKey)) \<le> limit"
  shows "int (length (k_list (view R (server (snd (EnqueueJobAtomicWithLimit R job limit cnt w)))) jobQueueKey)) \<le> limit"
proof -
  have "keeps (\<lambda>s. int (length (k_list (view R s) jobQueueKey)) \<le> limit) (EnqueueJobAtomicWithLimit R job limit cnt)"
    unfolding EnqueueJobAtomicWithLimit_def
    using assms(1-3) by (intro keeps_rules) (auto intro!: keeps_rules simp: view_limitScript)
  with assms(4) show ?thesis by (simp add: keeps_def)
qed

section \<open>First in, first out\<close>

fun enqueue_all :: "'s redis \<Rightarrow> ScanJob list \<Rightarrow> ('s, unit) op" where
  "enqueue_all R [] = op_ret ()"
| "enqueue_all R (job # jobs) = op_seq (EnqueueJobAtomic R job) (enqueue_all R jobs)"

fun pop_all :: "'s redis \<Rightarrow> string list \<Rightarrow> ('s, string list) op" where
  "pop_all R [] = op_ret []"
| "pop_all R (wid # wids) = op_bind (PopJobReliable R wid) (\<lambda>i. op_bind (pop_all R wids) (\<lambda>is. op_ret (i # is)))"

lemma wp_Enqueue:
  assumes "redis_server R"
  shows "wp C (EnqueueJobAtomic R job) (\<lambda>r s'. r = Inr () \<and> published job (view R s) (view R s')) s"
  unfolding EnqueueJobAtomic_def
  using assms by (intro wp_rules) (auto intro!: wp_rules simp: view_enqueueScript published_script)

lemma wp_enqueue_all:
  assumes "redis_server R"
  shows "wp C (enqueue_all R jobs) (\<lambda>r s'. r = Inr () \<and>
    k_list (view R s') jobQueueKey = k_list (view R s) jobQueueKey @ map ID jobs) s"
proof (induction jobs arbitrary: s)
  case Nil
  show ?case by (auto intro!: wp_rules)
next
  case (Cons job jobs)
  show ?case
    unfolding enqueue_all.simps
    by (intro wp_seq wp_mono [OF wp_Enqueue [OF assms]])
      (auto simp: published_def intro!: wp_mono [OF Cons.IH])
qed

lemma wp_Pop:
  assumes "redis_server R"
  shows "wp C (PopJobReliable R wid)
    (\<lambda>r s'. case k_list (view R s) jobQueueKey of
        [] \<Rightarrow> r = Inl ErrNoJob \<and> k_list (view R s') = k_list (view R s)
      | x # xs \<Rightarrow> r = Inr x \<and> k_list (view R s') =
          (k_list (view R s))(jobQueueKey := xs, processingKey wid := k_list (view R s) (processingKey wid) @ [x])) s"
  unfolding PopJobReliable_def
  using assms by (intro wp_rules) (auto intro!: wp_rules simp: redis_view k_list_lmove split: list.split)

lemma wp_pop_all:
  assumes "redis_server R"
  shows "length wids \<le> length (k_list (view R s) jobQueueKey) \<Longrightarrow>
    wp C (pop_all R wids) (\<lambda>r s'. r = Inr (take (length wids) (k_list (view R s) jobQueueKey))) s"
proof (induction wids arbitrary: s)
  case Nil
  show ?case by (auto intro!: wp_rules)
next
  case (Cons wid wids)
  then obtain x xs where q: "k_list (view R s) jobQueueKey = x # xs"
    by (cases "k_list (view R s) jobQueueKey") auto
  show ?case
    unfolding pop_all.simps
    using Cons.prems
    by (intro wp_bind wp_mono [OF wp_Pop [OF assms]])
      (auto simp: q intro!: wp_rules wp_mono [OF Cons.IH] split: sum.split)
qed

text \<open>
  C7 (first in, first out): jobs published one after the other are handed out after the jobs already
  queued and in the order of their publication, whichever workers pop them.
\<close>

theorem queue_fifo:
  assumes "redis_server R" "healthy w"
    "length wids = length (k_list (view R (server w)) jobQueueKey) + length jobs"
  shows "fst (op_seq (enqueue_all R jobs) (pop_all R wids) w) =
    Inr (k_list (view R (server w)) jobQueueKey @ map ID jobs)"
proof -
  have "wp (\<lambda>_. True) (op_seq (enqueue_all R jobs) (pop_all R wids))
    (\<lambda>r s'. r = Inr (k_list (view R (server w)) jobQueueKey @ map ID jobs)) (server w)"
    using assms(3)
    by (intro wp_seq wp_mono [OF wp_enqueue_all [OF assms(1)]])
      (auto intro!: wp_mono [OF wp_pop_all [OF assms(1)]])
  from wpD [OF this assms(2)] show ?thesis by simp
qed

section \<open>Acknowledging and requeueing\<close>

definition requeued :: "string \<Rightarrow> string \<Rightarrow> (key \<Rightarrow> string list) \<Rightarrow> key \<Rightarrow> string list" where
  "requeued wid i l =
     (if i \<in> set (l (processingKey wid))
      then l(processingKey wid := remove1 i (l (processingKey wid)), jobQueueKey := l jobQueueKey @ [i])
      else l)"

lemma wp_Requeue:
  assumes "redis_server R"
  shows "wp C (RequeueProcessing R wid i)
    (\<lambda>r s'. r = Inr () \<and> k_list (view R s') = requeued wid i (k_list (view R s)) \<and>
            k_hash (view R s') = k_hash (view R s) \<and> k_set (view R s') = k_set (view R s)) s"
proof -
  let ?lrem = "cmd_lrem R (processingKey wid) i s"
  let ?s' = "if fst ?lrem = 0 then snd ?lrem else cmd_rpush R jobQueueKey i (snd ?lrem)"
  have "wp C (op_bind (wrapv ''failed to remove from processing list: '' (rcall (cmd_lrem R (processingKey wid) i)))
       (\<lambda>n. if n = 0 then op_ret ()
            else wrapv ''failed to requeue job: '' (rcall (write_cmd (cmd_rpush R jobQueueKey i)))))
       (\<lambda>r s1. r = Inr () \<and> s1 = ?s') s"
    by (intro wp_rules) (auto intro!: wp_rules simp: write_cmd_def)
  then show ?thesis
    unfolding RequeueProcessing_def
    by (rule wp_redisDo) (use assms in \<open>auto simp: redis_view requeued_def remove1_idem fun_upd_twist\<close>)
qed

text \<open>
  Requeueing is idempotent: in a healthy world \<^verbatim>\<open>RequeueProcessing\<close> moves one occurrence of the job from
  the worker's processing list to the tail of the queue, and a second call for a job that occurred
  once changes no list.
\<close>

theorem requeue_idempotent:
  assumes "redis_server R" "healthy w" "distinct (k_list (view R (server w)) (processingKey wid))"
  shows "let w1 = snd (RequeueProcessing R wid i w); w2 = snd (RequeueProcessing R wid i w1) in
    k_list (view R (server w1)) = requeued wid i (k_list (view R (server w))) \<and>
    k_list (view R (server w2)) = k_list (view R (server w1))"
proof -
  let ?w1 = "snd (RequeueProcessing R wid i w)"
  from wpD [OF wp_Requeue [OF assms(1)] assms(2), of wid i]
  have 1: "k_list (view R (server ?w1)) = requeued wid i (k_list (view R (server w)))" and h: "healthy ?w1"
    by simp_all
  from 1 assms(3) have "i \<notin> set (k_list (view R (server ?w1)) (processingKey wid))"
    by (auto simp: requeued_def)
  with wpD [OF wp_Requeue [OF assms(1)] h, of wid i] 1 show ?thesis
    by (simp add: Let_def requeued_def)
qed

section \<open>Cancelling\<close>

definition cancelled_view :: "string \<Rightarrow> string \<Rightarrow> keyspace \<Rightarrow> keyspace \<Rightarrow> bool" where
  "cancelled_view i t v v' \<longleftrightarrow>
     k_hash v' = (k_hash v)(jobKey i := (k_hash v (jobKey i))(''status'' \<mapsto> JobStatusCancelled, ''failed_at'' \<mapsto> t,
       ''error'' \<mapsto> ''Job cancelled by user'')) \<and>
     k_set v' = (k_set v)(statusKey ''queued'' := k_set v (statusKey ''queued'') - {i},
       statusKey ''processing'' := k_set v (statusKey ''processing'') - {i},
       statusKey ''cancelled'' := insert i (k_set v (statusKey ''cancelled''))) \<and>
     k_list v' = (if k_hash v (jobKey i) ''status'' = Some ''queued''
       then (k_list v)(jobQueueKey := remove1 i (k_list v jobQueueKey)) else k_list v)"

lemma cancel_script:
  assumes "redis_server R"
  shows "let res = cancelJobScript R (jobKey i) jobQueueKey (statusKey ''queued'') (statusKey ''processing'')
      (statusKey ''cancelled'') i JobStatusCancelled t ''Job cancelled by user'' s; v = view R s in
    if \<not> key_exists (jobKey i) v then res = (0, s)
    else if k_hash v (jobKey i) ''status'' \<notin> {Some ''queued'', Some ''processing''} then res = (- 1, s)
    else fst res = 1 \<and> cancelled_view i t v (view R (snd res))"
  using assms
  by (auto simp: cancelJobScript_def Let_def hget_def redis_view cancelled_view_def fun_eq_iff)

text \<open>
  C8 (cancellation is exact): in a healthy world \<^verbatim>\<open>CancelJob\<close> reports a missing job and a job that is
  neither queued nor processing without changing anything; any other job becomes cancelled in its
  hash and in the status sets, and leaves the queue when it was queued.
\<close>

theorem cancel_exact:
  assumes "redis_server R" "healthy w"
  shows "let v = view R (server w); (r, w') = CancelJob R i w in
    if \<not> key_exists (jobKey i) v then r = Inl (Errorf (''job not found: '' @ i) []) \<and> server w' = server w
    else if k_hash v (jobKey i) ''status'' \<notin> {Some ''queued'', Some ''processing''}
    then r = Inl (Errorf ''cannot cancel job: not in a queued or processing state'' []) \<and> server w' = server w
    else r = Inr () \<and> (\<exists>t. cancelled_view i (format_rfc3339 t) v (view R (server w')))"
proof -
  have "wp (\<lambda>_. True) (CancelJob R i)
    (\<lambda>r s'. let v = view R (server w) in
      if \<not> key_exists (jobKey i) v then r = Inl (Errorf (''job not found: '' @ i) []) \<and> s' = server w
      else if k_hash v (jobKey i) ''status'' \<notin> {Some ''queued'', Some ''processing''}
      then r = Inl (Errorf ''cannot cancel job: not in a queued or processing state'' []) \<and> s' = server w
      else r = Inr () \<and> (\<exists>t. cancelled_view i (format_rfc3339 t) v (view R s'))) (server w)"
    unfolding CancelJob_def
    apply (intro wp_rules)
    subgoal for t
      using cancel_script [OF assms(1), of i "format_rfc3339 t" "server w"]
      by (auto simp: Let_def intro!: wp_rules split: if_splits)
    done
  from wpD [OF this assms(2)] show ?thesis by (simp add: Let_def case_prod_beta)
qed

section \<open>Status sets\<close>

text \<open>No status set holds a job whose hash says another status.\<close>

definition status_sets_ok :: "keyspace \<Rightarrow> bool" where
  "status_sets_ok v \<longleftrightarrow> (\<forall>st i. i \<in> k_set v (statusKey st) \<longrightarrow> st \<noteq> [] \<and> k_hash v (jobKey i) ''status'' = Some st)"

text \<open>The status \<^verbatim>\<open>UpdateJob\<close> reads before it writes, and the membership of the job after it.\<close>

definition old_status :: "keyspace \<Rightarrow> string \<Rightarrow> string" where
  "old_status v i = (case k_hash v (jobKey i) ''status'' of Some st \<Rightarrow> st | None \<Rightarrow> [])"

definition member_after :: "ScanJob \<Rightarrow> string \<Rightarrow> string \<Rightarrow> bool \<Rightarrow> bool" where
  "member_after job old st was \<longleftrightarrow>
     (let changed = (old \<noteq> [] \<and> old \<noteq> Status job) in
      (was \<and> \<not> (changed \<and> st = old) \<or> changed \<and> st = Status job) \<and>
      \<not> (isTerminalStatus (Status job) \<and> (st = ''queued'' \<or> st = ''processing'')))"

definition updated :: "ScanJob \<Rightarrow> keyspace \<Rightarrow> keyspace \<Rightarrow> bool" where
  "updated job v v' \<longleftrightarrow>
     k_list v' = k_list v \<and> k_str v' = k_str v \<and>
     k_hash v' = (k_hash v)(jobKey (ID job) := written (k_hash v (jobKey (ID job))) job) \<and>
     (\<forall>st i. i \<in> k_set v' (statusKey st) \<longleftrightarrow>
        (if i = ID job then member_after job (old_status v i) st (i \<in> k_set v (statusKey st))
         else i \<in> k_set v (statusKey st)))"

lemma wp_update_status_sets:
  assumes "redis_server R"
  shows "wp C (update_status_sets R job old)
    (\<lambda>r s'. let v = view R s; v' = view R s' in r = Inr () \<and>
       k_list v' = k_list v \<and> k_str v' = k_str v \<and> k_hash v' = k_hash v \<and>
       (\<forall>st i. i \<in> k_set v' (statusKey st) \<longleftrightarrow>
          (if i = ID job then member_after job old st (i \<in> k_set v (statusKey st)) else i \<in> k_set v (statusKey st)))) s"
  unfolding update_status_sets_def nonTerminalStatuses_def op_each.simps op_seq_if op_seq_assoc
  using assms
  by (intro wp_steps wp_rules; auto simp: write_cmd_def redis_view status_defs member_after_def)

lemma wp_Update:
  assumes "redis_server R"
  shows "wp C (UpdateJob R job) (\<lambda>r s'. r = Inr () \<and> updated job (view R s) (view R s')) s"
  unfolding UpdateJob_def Let_def
  using assms
  by (intro wp_steps wp_mono [OF wp_update_status_sets [OF assms]])
    (simp add: read_cmd_def write_cmd_def redis_view updated_def written_def hget_def old_status_def Let_def
      split: option.splits)


section \<open>Dead letters\<close>

lemma wp_MoveToDLQ:
  assumes "redis_server R"
  shows "wp C (MoveToDLQ R i)
    (\<lambda>r s'. let v = view R s; v' = view R s' in r = Inr () \<and>
       k_list v' = (k_list v)(dlqKey := i # k_list v dlqKey) \<and> k_hash v' = k_hash v \<and> k_str v' = k_str v \<and>
       (\<forall>k. k_set v' k = (if k \<in> statusKey ` {''queued'', ''processing'', ''failed''} then k_set v k - {i} else k_set v k))) s"
  unfolding MoveToDLQ_def
  using assms by (intro wp_steps wp_rules) (simp add: moveToDLQScript_def Let_def redis_view)

lemma wp_GetJob:
  "wp C (GetJob R i)
    (\<lambda>r s'. s' = s \<and> r = (let h = k_hash (view R s) (jobKey i) in
       if h = Map.empty then Inl (Errorf (''job not found: '' @ i) []) else Inr (FromMap (convertMap h) zero_job))) s"
  unfolding GetJob_def by (intro wp_steps wp_rules) (auto simp: read_cmd_def Let_def intro!: wp_rules)

lemma wp_RetryDLQ:
  assumes "redis_server R" "i \<in> set (k_list (view R s) dlqKey)" "k_hash (view R s) (jobKey i) ''id'' = Some i"
  shows "wp C (RetryDLQJob R i)
    (\<lambda>r s'. let v = view R s; v' = view R s'; job = reset_job (FromMap (convertMap (k_hash v (jobKey i))) zero_job) in
       r = Inr () \<and> k_list v' = (k_list v)(dlqKey := remove1 i (k_list v dlqKey), jobQueueKey := k_list v jobQueueKey @ [i]) \<and>
       k_hash v' (jobKey i) = written (k_hash v (jobKey i)) job \<and>
       i \<in> k_set v' (statusKey ''queued'')) s"
proof -
  let ?job = "reset_job (FromMap (convertMap (k_hash (view R s) (jobKey i))) zero_job)"
  have id: "ID ?job = i" "Status ?job = ''queued''"
    using assms(3) by (simp_all add: reset_job_def FromMap_def str_field_convert status_defs)
  have ne: "k_hash (view R s) (jobKey i) \<noteq> Map.empty" using assms(3) by auto
  show ?thesis
    unfolding RetryDLQJob_def
    apply (intro wp_steps)
    using assms(1,2) id ne
    by (auto simp: retryDLQRemoveScript_def Let_def case_prod_beta redis_view published_def
      intro!: wp_rules wp_mono [OF wp_GetJob] wp_mono [OF wp_Enqueue [OF assms(1)]])
qed

text \<open>
  Retrying a dead letter: in a healthy world, moving a job to the dead-letter list and retrying it
  leaves that list as it was, puts the job at the tail of the queue and in the queued set only, and
  rewrites its hash with the status, the retry counter, the error, the start and failure times and
  the worker reset.
\<close>

theorem dlq_round_trip:
  assumes "redis_server R" "healthy w" "k_hash (view R (server w)) (jobKey i) ''id'' = Some i"
  shows "let v = view R (server w); (r, w') = op_seq (MoveToDLQ R i) (RetryDLQJob R i) w; v' = view R (server w') in
    r = Inr () \<and> k_list v' = (k_list v)(jobQueueKey := k_list v jobQueueKey @ [i]) \<and>
    k_hash v' (jobKey i) = written (k_hash v (jobKey i)) (reset_job (FromMap (convertMap (k_hash v (jobKey i))) zero_job)) \<and>
    i \<in> k_set v' (statusKey ''queued'')"
proof -
  have "wp (\<lambda>_. True) (op_seq (MoveToDLQ R i) (RetryDLQJob R i))
    (\<lambda>r s'. let v = view R (server w); v' = view R s' in r = Inr () \<and>
      k_list v' = (k_list v)(jobQueueKey := k_list v jobQueueKey @ [i]) \<and>
      k_hash v' (jobKey i) = written (k_hash v (jobKey i)) (reset_job (FromMap (convertMap (k_hash v (jobKey i))) zero_job)) \<and>
      i \<in> k_set v' (statusKey ''queued'')) (server w)"
    using assms(3)
    by (intro wp_seq wp_mono [OF wp_MoveToDLQ [OF assms(1)]])
      (auto simp: Let_def fun_upd_idem fun_upd_twist intro!: wp_mono [OF wp_RetryDLQ [OF assms(1)]])
  from wpD [OF this assms(2)] show ?thesis by (simp add: Let_def case_prod_beta)
qed

section \<open>Leases\<close>

lemma CheckJobLease_result:
  "\<exists>w1 got. CheckJobLease R i wid w =
     (Inr (case got of Inl e \<Rightarrow> (True, Some e)
           | Inr None \<Rightarrow> (True, None)
           | Inr (Some owner) \<Rightarrow> if owner = [] then (True, None) else (owner = wid, None)), w1) \<and>
     (\<forall>x. got = Inr x \<longrightarrow> x = k_str (view R (server w)) (jobLeaseKey i))"
proof -
  let ?m = "redisDo (rcall (read_cmd (\<lambda>s. k_str (view R s) (jobLeaseKey i))))"
  have same: "((\<lambda>s. s) ^^ n) s = s" for n and s :: 'a
    by (induction n) simp_all
  have "fst (?m w) = Inr x \<Longrightarrow> x = k_str (view R (server w)) (jobLeaseKey i)" for x
    by (rule redisDo_cases [of w "rcall (read_cmd (\<lambda>s. k_str (view R s) (jobLeaseKey i)))"])
      (auto simp: was_shed_def same_run_def rcall_def same read_cmd_def Let_def split: outcome.splits)
  then show ?thesis
    by (intro exI [of _ "snd (?m w)"] exI [of _ "fst (?m w)"])
      (auto simp: CheckJobLease_def op_bind_def op_try_def op_ret_def case_prod_beta Let_def split: sum.split option.split)
qed

text \<open>
  The lease fences only stale writers: whatever the network and the breaker do, \<^verbatim>\<open>CheckJobLease\<close>
  returns no error in place of an answer, and it answers no only to a worker that is not the recorded
  owner of the lease.
\<close>

theorem lease_fails_open:
  "\<exists>ok err. fst (CheckJobLease R i wid w) = Inr (ok, err) \<and>
     (\<not> ok \<longrightarrow> (\<exists>owner. k_str (view R (server w)) (jobLeaseKey i) = Some owner \<and> owner \<noteq> [] \<and> owner \<noteq> wid))"
proof -
  from CheckJobLease_result [of R i wid w] obtain w1 got where
    r: "CheckJobLease R i wid w =
     (Inr (case got of Inl e \<Rightarrow> (True, Some e)
           | Inr None \<Rightarrow> (True, None)
           | Inr (Some owner) \<Rightarrow> if owner = [] then (True, None) else (owner = wid, None)), w1)"
    and got: "\<And>x. got = Inr x \<Longrightarrow> x = k_str (view R (server w)) (jobLeaseKey i)" by blast
  show ?thesis
  proof (cases got)
    case (Inr x)
    with got have "k_str (view R (server w)) (jobLeaseKey i) = x" by simp
    with r Inr show ?thesis by (cases x) auto
  qed (auto simp: r)
qed

text \<open>
  The lease goes to the last worker that took it: in a healthy world, after two workers set the lease
  of a job one after the other, the second holds it and the first is fenced off.
\<close>

theorem lease_last_owner:
  assumes "redis_server R" "healthy w" "b \<noteq> []"
  shows "fst (op_seq (SetJobLease R i a) (op_seq (SetJobLease R i b) (CheckJobLease R i b)) w) = Inr (True, None) \<and>
    fst (op_seq (SetJobLease R i a) (op_seq (SetJobLease R i b) (CheckJobLease R i a)) w) = Inr (a = b, None)"
proof -
  have "wp (\<lambda>_. True) (op_seq (SetJobLease R i a) (op_seq (SetJobLease R i b) (CheckJobLease R i c)))
    (\<lambda>r s. r = Inr (c = b, None)) (server w)" for c
    unfolding SetJobLease_def CheckJobLease_def
    using assms(1,3) by (intro wp_steps wp_rules) (auto simp: write_cmd_def read_cmd_def redis_view Let_def)
  from wpD [OF this assms(2)] show ?thesis by simp
qed

section \<open>The reaper\<close>

lemma wp_requeue_each:
  assumes "redis_server R"
  shows "k_list (view R s) (processingKey wid) = ids \<Longrightarrow>
    wp C (op_each (\<lambda>i. op_ignore (RequeueProcessing R wid i)) ids)
      (\<lambda>r s'. r = Inr () \<and> k_list (view R s') = (k_list (view R s))(processingKey wid := [],
         jobQueueKey := k_list (view R s) jobQueueKey @ ids) \<and> k_hash (view R s') = k_hash (view R s)) s"
proof (induction ids arbitrary: s)
  case Nil
  then show ?case by (auto intro!: wp_rules simp: fun_upd_idem)
next
  case (Cons i ids)
  show ?case
    unfolding op_each.simps
    using Cons.prems
    by (intro wp_seq wp_ignore wp_mono [OF wp_Requeue [OF assms]])
      (auto simp: requeued_def fun_upd_twist intro!: wp_mono [OF Cons.IH])
qed

text \<open>
  A dead worker's jobs come back: in a healthy world, when every clock reading is at least the staleness
  bound after the worker's last heartbeat, \<^verbatim>\<open>reapWorker\<close> appends the worker's processing list to the
  queue in its order, empties it and deletes the registration; every other list stays.
\<close>

theorem reap_stale_worker:
  assumes "redis_server R" "wid \<noteq> []" "valid_time beat"
    "k_hash (view R (server w)) (workerKey wid) ''last_heartbeat'' = Some (format_rfc3339 beat)"
    "calm (\<lambda>t. time_since t (trunc_time beat) \<ge> stale) w"
  shows "let v = view R (server w); (r, w') = reapWorker R stale (workerKey wid) w; v' = view R (server w') in
    r = Inr () \<and> k_list v' = (k_list v)(processingKey wid := [], workerKey wid := [],
      jobQueueKey := k_list v jobQueueKey @ k_list v (processingKey wid)) \<and>
    k_hash v' = (k_hash v)(workerKey wid := Map.empty)"
proof -
  have key: "trimPrefix (workerKey wid) workerKeyPrefix = wid" "wid \<noteq> workerKey wid" "workerKey wid \<noteq> jobQueueKey"
    by (auto simp: key_defs workerKeyPrefix_def trimPrefix_def dest: arg_cong [of _ _ length])
  have "wp (\<lambda>t. time_since t (trunc_time beat) \<ge> stale) (reapWorker R stale (workerKey wid))
    (\<lambda>r s'. let v = view R (server w); v' = view R s' in
      r = Inr () \<and> k_list v' = (k_list v)(processingKey wid := [], workerKey wid := [],
      jobQueueKey := k_list v jobQueueKey @ k_list v (processingKey wid)) \<and>
      k_hash v' = (k_hash v)(workerKey wid := Map.empty)) (server w)"
    unfolding reapWorker_def Let_def
    using assms(1-4) key
    by (auto simp: hget_def read_cmd_def parse_format_rfc3339 trunc_time_def [symmetric] lrange_def redis_range_all
      write_cmd_def redis_view fun_upd_twist intro!: wp_steps wp_rules wp_mono [OF wp_requeue_each [OF assms(1)]])
  from wpD [OF this assms(5)] show ?thesis by (simp add: Let_def case_prod_beta)
qed

section \<open>Instances\<close>

text \<open>A job, the server that holds it and a world around that server.\<close>

definition sample_time :: go_time where
  "sample_time = \<lparr>year = 2024, month = 5, day = 17, hour = 10, minute = 30, second = 0, nano = 0, zone = 0\<rparr>"

definition sample_job :: ScanJob where
  "sample_job = zero_job\<lparr>ID := ''j1'', Status := ''queued'', CreatedAt := sample_time\<rparr>"

definition sample_store :: keyspace where
  "sample_store = ks_rpush jobQueueKey ''j1'' (ks_sadd (statusKey ''queued'') ''j1''
     (ks_hset (jobKey ''j1'') (job_fields sample_job) empty_keyspace))"

definition sample_world :: "keyspace world" where
  "sample_world = quiet_world sample_time sample_store"

lemma sample_healthy: "healthy sample_world"
  by (simp add: sample_world_def calm_quiet_world)

lemma server_sample [simp]: "server sample_world = sample_store"
  by (simp add: sample_world_def)

lemma sample_hash: "k_hash sample_store (jobKey ''j1'') = written Map.empty sample_job"
  by (simp add: sample_store_def empty_keyspace_def written_def)

lemma sample_list: "k_list sample_store k = (if k = jobQueueKey then [''j1''] else [])"
  by (simp add: sample_store_def empty_keyspace_def)

lemma sample_set: "k_set sample_store k = (if k = statusKey ''queued'' then {''j1''} else {})"
  by (simp add: sample_store_def empty_keyspace_def)

lemma sample_id: "k_hash sample_store (jobKey ''j1'') ''id'' = Some ''j1''"
  "k_hash sample_store (jobKey ''j1'') ''status'' = Some ''queued''"
  by (simp_all add: sample_hash written_always) (simp_all add: sample_job_def)

lemmas mem_server = mem.redis_server_axioms [of "[]" "[]"]

theorem enqueue_limit_exact_witness:
  "redis_server (mem_redis [] []) \<and> healthy sample_world \<and>
   (let (r, w') = EnqueueJobAtomicWithLimit (mem_redis [] []) sample_job 1 1 sample_world
    in r = Inl ErrQueueFull \<and> server w' = sample_store)"
  using enqueue_limit_exact [OF mem_server sample_healthy, of sample_job 1 1] mem_server sample_healthy
  by (simp add: Let_def case_prod_beta sample_list)

theorem enqueue_limit_holds_witness:
  "int (length (k_list (server (snd (EnqueueJobAtomicWithLimit (mem_redis [] []) sample_job 1 1 sample_world))) jobQueueKey)) \<le> 1"
  using enqueue_limit_holds [OF mem_server, of 1 1 sample_world sample_job] by (simp add: sample_list)

theorem queue_fifo_witness:
  "fst (op_seq (enqueue_all (mem_redis [] []) [sample_job\<lparr>ID := ''j2''\<rparr>]) (pop_all (mem_redis [] []) [''w1'', ''w2'']) sample_world) =
     Inr [''j1'', ''j2'']"
  using queue_fifo [OF mem_server sample_healthy, of "[''w1'', ''w2'']" "[sample_job\<lparr>ID := ''j2''\<rparr>]"]
  by (simp add: sample_list)

theorem requeue_idempotent_witness:
  "healthy sample_world \<and> distinct (k_list sample_store (processingKey ''w1'')) \<and>
   (let w1 = snd (RequeueProcessing (mem_redis [] []) ''w1'' ''j1'' sample_world);
        w2 = snd (RequeueProcessing (mem_redis [] []) ''w1'' ''j1'' w1)
    in k_list (server w1) = k_list sample_store \<and> k_list (server w2) = k_list sample_store)"
  using requeue_idempotent [OF mem_server sample_healthy, of "''w1''" "''j1''"] sample_healthy
  by (simp add: sample_list requeued_def Let_def)

theorem cancel_exact_witness:
  "healthy sample_world \<and>
   (let (r, w') = CancelJob (mem_redis [] []) ''j1'' sample_world
    in r = Inr () \<and> (\<exists>t. cancelled_view ''j1'' (format_rfc3339 t) sample_store (server w')))"
proof -
  have "key_exists (jobKey ''j1'') sample_store"
    using sample_id by (auto simp: key_exists_def)
  with cancel_exact [OF mem_server sample_healthy, of "''j1''"] sample_healthy show ?thesis
    by (simp add: Let_def case_prod_beta sample_id)
qed


theorem dlq_round_trip_witness:
  "healthy sample_world \<and> k_hash sample_store (jobKey ''j1'') ''id'' = Some ''j1'' \<and>
   fst (op_seq (MoveToDLQ (mem_redis [] []) ''j1'') (RetryDLQJob (mem_redis [] []) ''j1'') sample_world) = Inr () \<and>
   k_list (server (snd (op_seq (MoveToDLQ (mem_redis [] []) ''j1'') (RetryDLQJob (mem_redis [] []) ''j1'') sample_world))) jobQueueKey
     = [''j1'', ''j1'']"
  using dlq_round_trip [OF mem_server sample_healthy, of "''j1''"] sample_healthy
  by (simp add: Let_def case_prod_beta sample_id sample_list)

text \<open>The world after worker w2 took the lease of the job.\<close>

definition leased_world :: "keyspace world" where
  "leased_world = quiet_world sample_time (ks_set_ex (jobLeaseKey ''j1'') ''w2'' 7200 empty_keyspace)"

theorem lease_fails_open_witness:
  "fst (CheckJobLease (mem_redis [] []) ''j1'' ''w1'' leased_world) = Inr (False, None) \<and>
   (\<exists>owner. k_str (server leased_world) (jobLeaseKey ''j1'') = Some owner \<and> owner \<noteq> [] \<and> owner \<noteq> ''w1'')"
proof -
  have "fst (CheckJobLease (mem_redis [] []) ''j1'' ''w1'' leased_world) = Inr (False, None)"
    by (simp add: CheckJobLease_def op_bind_def op_try_def op_ret_def redisDo_def Do_def rcall_def read_cmd_def
      leased_world_def quiet_world_def Let_def)
  with lease_fails_open [of "mem_redis [] []" "''j1''" "''w1''" leased_world] show ?thesis by auto
qed

theorem lease_last_owner_witness:
  "healthy sample_world \<and>
   fst (op_seq (SetJobLease (mem_redis [] []) ''j1'' ''w1'') (op_seq (SetJobLease (mem_redis [] []) ''j1'' ''w2'')
     (CheckJobLease (mem_redis [] []) ''j1'' ''w1'')) sample_world) = Inr (False, None)"
  using lease_last_owner [OF mem_server sample_healthy, of "''w2''" "''j1''" "''w1''"] sample_healthy by simp

text \<open>A worker whose last heartbeat is an hour before the clock, with one job in flight.\<close>

definition stale_store :: keyspace where
  "stale_store = ks_rpush (processingKey ''w1'') ''j1''
     (ks_hset (workerKey ''w1'') [(''last_heartbeat'', format_rfc3339 (sample_time\<lparr>hour := 9\<rparr>))] empty_keyspace)"

theorem reap_stale_worker_witness:
  "let (r, w') = reapWorker (mem_redis [] []) (60 * second_ns) (workerKey ''w1'') (quiet_world sample_time stale_store)
   in r = Inr () \<and> k_list (server w') jobQueueKey = [''j1''] \<and> k_list (server w') (processingKey ''w1'') = []"
proof -
  have beat: "valid_time (sample_time\<lparr>hour := 9\<rparr>)"
    by (simp add: valid_time_def sample_time_def days_in_def)
  have stale: "60 * second_ns \<le> time_since sample_time (trunc_time (sample_time\<lparr>hour := 9\<rparr>))"
    by (simp add: second_ns_def time_since_def unix_nano_def day_number_def trunc_time_def sample_time_def)
  have keys: "workerKey ''w1'' \<noteq> jobQueueKey" "processingKey ''w1'' \<noteq> workerKey ''w1''" by (simp_all add: key_defs)
  have store: "k_list stale_store = (\<lambda>k. if k = processingKey ''w1'' then [''j1''] else [])"
    "k_hash stale_store (workerKey ''w1'') ''last_heartbeat'' = Some (format_rfc3339 (sample_time\<lparr>hour := 9\<rparr>))"
    by (auto simp: stale_store_def empty_keyspace_def)
  show ?thesis
    using reap_stale_worker [OF mem_server _ beat _ calm_quiet_world [of "\<lambda>t. 60 * second_ns \<le> time_since t (trunc_time (sample_time\<lparr>hour := 9\<rparr>))", OF stale],
      of "''w1''" stale_store] keys
    by (simp add: Let_def case_prod_beta store)
qed

end
