(* ===== verification/Retry.thy ===== *)
theory Retry
  imports Prelude Complex_Main
begin

text \<open>
  \<^verbatim>\<open>utils/retry.go\<close>: the classification of errors and the retry loop with exponential backoff.  The
  retried function acts on a state of any type, the context is asked once before every attempt and
  once in every wait, and the random numbers of the jitter are a sequence.  Delays are nanoseconds;
  their floating-point product is computed over the reals and converted by a parameter, since Go
  leaves the conversion of a value outside the integer type to the implementation.
\<close>

definition ErrNonRetryable :: go_error where
  "ErrNonRetryable = Sentinel ''non-retryable error''"

definition ErrRetryable :: go_error where
  "ErrRetryable = Sentinel ''retryable error''"

definition contains_any :: "string \<Rightarrow> string list \<Rightarrow> bool" where
  "contains_any s subs = list_ex (str_contains s) subs"

text \<open>\<^const>\<open>NetError\<close> stands for the errors that implement \<^verbatim>\<open>net.Error\<close>, \<^verbatim>\<open>*url.Error\<close> among them.\<close>

definition is_net_error :: "go_error \<Rightarrow> bool" where
  "is_net_error e = (case e of NetError s \<Rightarrow> True | _ \<Rightarrow> False)"

definition IsRetryable :: "go_error option \<Rightarrow> bool" where
  "IsRetryable err =
     (case err of
        None \<Rightarrow> False
      | Some e \<Rightarrow>
          if errors_is e ErrNonRetryable then False
          else if errors_is e ErrRetryable then True
          else (case as_retryable e of
                  Some b \<Rightarrow> b
                | None \<Rightarrow>
                    if is_net_error e then True
                    else if str_contains (err_msg e) ''timeout''
                            \<or> str_contains (err_msg e) ''deadline exceeded'' then True
                    else if contains_any (toLower (err_msg e)) [''500'', ''502'', ''503'', ''504''] then True
                    else if contains_any (toLower (err_msg e))
                              [''400'', ''401'', ''403'', ''404'', ''422'', ''validation''] then False
                    else False))"

record RetryConfig =
  MaxRetries :: int
  InitialDelay :: int
  MaxDelay :: int
  Multiplier :: real
  Jitter :: bool

definition capped_delay :: "(real \<Rightarrow> int) \<Rightarrow> RetryConfig \<Rightarrow> nat \<Rightarrow> int" where
  "capped_delay conv cfg attempt =
     min (conv (real_of_int (InitialDelay cfg) * Multiplier cfg ^ (attempt - 1))) (MaxDelay cfg)"

text \<open>\<^verbatim>\<open>rand.Int63n(q)\<close> is the next random number modulo \<open>q\<close>; \<^verbatim>\<open>delay / 4\<close> truncates towards zero.\<close>

definition retry_delay :: "(real \<Rightarrow> int) \<Rightarrow> RetryConfig \<Rightarrow> int \<Rightarrow> nat \<Rightarrow> int" where
  "retry_delay conv cfg rnd attempt =
     (let delay = capped_delay conv cfg attempt; q = sgn delay * (abs delay div 4) in
      if Jitter cfg \<and> 0 < q then delay + rnd mod q else delay)"

datatype retry_result = Done | Failed go_error | NilPanic

text \<open>
  What the loop consults: the context before an attempt, the context in the wait before it, and the
  random number of the wait.
\<close>

record retry_env =
  ctx_check :: "nat \<Rightarrow> go_error option"
  ctx_wait :: "nat \<Rightarrow> go_error option"
  jitter_rnd :: "nat \<Rightarrow> int"
  to_duration :: "real \<Rightarrow> int"

text \<open>
  One run returns the result, the number of calls of the function, the delays waited for, and the
  state.  The \<^verbatim>\<open>lastErr\<close> of a loop that never ran is nil, and the final log line dereferences it.
\<close>

function retry_loop ::
  "retry_env \<Rightarrow> ('w \<Rightarrow> go_error option \<times> 'w) \<Rightarrow> RetryConfig \<Rightarrow> nat \<Rightarrow> go_error option \<Rightarrow> int list \<Rightarrow> 'w \<Rightarrow>
     retry_result \<times> nat \<times> int list \<times> 'w" where
  "retry_loop E fn cfg attempt lastErr ds w =
     (if MaxRetries cfg < int attempt then
        (case lastErr of None \<Rightarrow> (NilPanic, attempt, ds, w) | Some e \<Rightarrow> (Failed e, attempt, ds, w))
      else case ctx_check E attempt of
        Some e \<Rightarrow> (Failed e, attempt, ds, w)
      | None \<Rightarrow>
          (let ds' = (if 0 < attempt
                      then ds @ [retry_delay (to_duration E) cfg (jitter_rnd E attempt) attempt] else ds);
               stopped = (if 0 < attempt then ctx_wait E attempt else None) in
           case stopped of
             Some e \<Rightarrow> (Failed e, attempt, ds', w)
           | None \<Rightarrow>
               (case fn w of
                  (None, w') \<Rightarrow> (Done, Suc attempt, ds', w')
                | (Some e, w') \<Rightarrow>
                    if \<not> IsRetryable (Some e) then (Failed e, Suc attempt, ds', w')
                    else retry_loop E fn cfg (Suc attempt) (Some e) ds' w')))"
  by pat_completeness auto

termination
  by (relation "measure (\<lambda>(E, fn, cfg, attempt, l, ds, w). nat (MaxRetries cfg + 1 - int attempt))") auto

declare retry_loop.simps [simp del]

definition RetryWithContext ::
  "retry_env \<Rightarrow> ('w \<Rightarrow> go_error option \<times> 'w) \<Rightarrow> RetryConfig \<Rightarrow> 'w \<Rightarrow> retry_result \<times> nat \<times> int list \<times> 'w" where
  "RetryWithContext E fn cfg w = retry_loop E fn cfg 0 None [] w"

section \<open>The calls of the retried function\<close>

fun state_after :: "('w \<Rightarrow> go_error option \<times> 'w) \<Rightarrow> nat \<Rightarrow> 'w \<Rightarrow> 'w" where
  "state_after fn 0 w = w"
| "state_after fn (Suc k) w = snd (fn (state_after fn k w))"

definition outcome :: "('w \<Rightarrow> go_error option \<times> 'w) \<Rightarrow> 'w \<Rightarrow> nat \<Rightarrow> go_error option" where
  "outcome fn w k = fst (fn (state_after fn k w))"

text \<open>What the loop has established when it is about to make call number \<open>k\<close> (counted from 0).\<close>

definition retried :: "('w \<Rightarrow> go_error option \<times> 'w) \<Rightarrow> 'w \<Rightarrow> nat \<Rightarrow> bool" where
  "retried fn w k \<longleftrightarrow> (\<forall>i<k. IsRetryable (outcome fn w i))"

definition retry_spec ::
  "retry_env \<Rightarrow> ('w \<Rightarrow> go_error option \<times> 'w) \<Rightarrow> RetryConfig \<Rightarrow> 'w \<Rightarrow> retry_result \<Rightarrow> nat \<Rightarrow> 'w \<Rightarrow> bool" where
  "retry_spec E fn cfg w r n w' \<longleftrightarrow>
     w' = state_after fn n w \<and> retried fn w (n - 1) \<and>
     (case r of
        Done \<Rightarrow> 0 < n \<and> outcome fn w (n - 1) = None
      | NilPanic \<Rightarrow> n = 0 \<and> MaxRetries cfg < 0
      | Failed e \<Rightarrow>
          (0 < n \<and> outcome fn w (n - 1) = Some e \<and> (\<not> IsRetryable (Some e) \<or> int n = MaxRetries cfg + 1))
          \<or> ctx_check E n = Some e \<or> ctx_wait E n = Some e)"

lemma IsRetryable_None [simp]: "\<not> IsRetryable None"
  by (simp add: IsRetryable_def)

lemma retried_Suc: "retried fn w (Suc k) \<longleftrightarrow> retried fn w k \<and> IsRetryable (outcome fn w k)"
  by (auto simp: retried_def less_Suc_eq)

lemma retried_pred: "retried fn w k \<Longrightarrow> retried fn w (k - Suc 0)"
  by (auto simp: retried_def)

definition last_ok :: "('w \<Rightarrow> go_error option \<times> 'w) \<Rightarrow> 'w \<Rightarrow> nat \<Rightarrow> go_error option \<Rightarrow> bool" where
  "last_ok fn w k l \<longleftrightarrow> (if k = 0 then l = None else l = outcome fn w (k - 1) \<and> l \<noteq> None)"

lemma retry_loop_spec:
  assumes "retry_loop E fn cfg k l ds (state_after fn k w) = (r, n, ds', w')"
    and "retried fn w k" "last_ok fn w k l" "int k \<le> max 0 (MaxRetries cfg + 1)"
  shows "retry_spec E fn cfg w r n w' \<and> int n \<le> max 0 (MaxRetries cfg + 1)"
  using assms
proof (induction "nat (MaxRetries cfg + 1 - int k)" arbitrary: k l ds)
  case 0
  then have "MaxRetries cfg < int k" by simp
  with 0 show ?case
    by (subst (asm) retry_loop.simps)
      (auto simp: retry_spec_def last_ok_def retried_pred split: option.splits if_splits)
next
  case (Suc m)
  then have le: "int k \<le> MaxRetries cfg" by simp
  have m: "m = nat (MaxRetries cfg + 1 - int (Suc k))" using Suc.hyps(2) by simp
  let ?fw = "fn (state_after fn k w)"
  note run = Suc.prems(1) [unfolded retry_loop.simps [of E fn cfg k l ds]]
  consider (check) e where "ctx_check E k = Some e"
    | (wait) e where "ctx_check E k = None" "0 < k" "ctx_wait E k = Some e"
    | (call) "ctx_check E k = None" "(if 0 < k then ctx_wait E k else None) = None"
    by (cases "ctx_check E k"; cases "ctx_wait E k"; cases "0 < k") auto
  then show ?case
  proof cases
    case check
    with run le Suc.prems(2) show ?thesis by (auto simp: retry_spec_def retried_pred)
  next
    case wait
    with run le Suc.prems(2) show ?thesis by (auto simp: retry_spec_def retried_pred Let_def)
  next
    case call
    show ?thesis
    proof (cases "fst ?fw")
      case None
      with run le call Suc.prems(2) show ?thesis
        by (cases ?fw) (auto simp: retry_spec_def Let_def outcome_def)
    next
      case (Some e)
      show ?thesis
      proof (cases "IsRetryable (Some e)")
        case False
        with run le call Some Suc.prems(2) show ?thesis
          by (cases ?fw) (auto simp: retry_spec_def Let_def outcome_def)
      next
        case True
        with run le call Some obtain ds2 where
          "retry_loop E fn cfg (Suc k) (Some e) ds2 (state_after fn (Suc k) w) = (r, n, ds', w')"
          by (cases ?fw) (auto simp: Let_def)
        moreover have "retried fn w (Suc k)" "last_ok fn w (Suc k) (Some e)"
          using Some True Suc.prems(2) by (simp_all add: retried_Suc last_ok_def outcome_def)
        ultimately show ?thesis using Suc.hyps(1) [OF m] le by simp
      qed
    qed
  qed
qed


definition sample_cfg :: RetryConfig where
  "sample_cfg = \<lparr>MaxRetries = 3, InitialDelay = 1000, MaxDelay = 30000, Multiplier = 2, Jitter = False\<rparr>"

definition sample_env :: retry_env where
  "sample_env = \<lparr>ctx_check = \<lambda>_. None, ctx_wait = \<lambda>_. None, jitter_rnd = \<lambda>_. 0, to_duration = floor\<rparr>"

text \<open>A function that fails twice with a network error and then succeeds.\<close>

definition flaky :: "nat \<Rightarrow> go_error option \<times> nat" where
  "flaky k = (if k < 2 then Some (NetError ''i/o timeout'') else None, Suc k)"

lemma IsRetryable_NetError [simp]: "IsRetryable (Some (NetError s))"
  by (simp add: IsRetryable_def ErrNonRetryable_def ErrRetryable_def is_net_error_def)

lemma flaky_run: "RetryWithContext sample_env flaky sample_cfg 0 = (Done, 3, [1000, 2000], 3)"
  by (simp add: RetryWithContext_def retry_loop.simps sample_env_def sample_cfg_def flaky_def
      retry_delay_def capped_delay_def)


text \<open>
  With a negative \<^verbatim>\<open>MaxRetries\<close>, which \<^verbatim>\<open>MORF_RETRY_MAX_RETRIES\<close> may set, the function is never
  called and the final log line dereferences a nil error.
\<close>
theorem retry_negative_panics:
  assumes "MaxRetries cfg < 0"
  shows "RetryWithContext E fn cfg w = (NilPanic, 0, [], w)"
  using assms by (simp add: RetryWithContext_def retry_loop.simps)

theorem retry_negative_panics_witness:
  "RetryWithContext sample_env flaky (sample_cfg\<lparr>MaxRetries := -1\<rparr>) 0 = (NilPanic, 0, [], 0)"
  by (rule retry_negative_panics) simp

end
