(* ===== verification/Go_Path.thy ===== *)
theory Go_Path
  imports Prelude
begin

text \<open>
  Slash-separated paths: \<^verbatim>\<open>path.Clean\<close>, \<^verbatim>\<open>filepath.Clean\<close>, \<^verbatim>\<open>filepath.Join\<close>, \<^verbatim>\<open>filepath.IsAbs\<close> and \<^verbatim>\<open>filepath.Base\<close> on a
  Unix system.
\<close>

definition isAbs :: "string \<Rightarrow> bool" where
  "isAbs p = hasPrefix p ''/''"

text \<open>
  The elements of a cleaned path, last one first: empty elements and \<^verbatim>\<open>.\<close> vanish, and \<^verbatim>\<open>..\<close> cancels the
  element before it; at the root it vanishes, and at the start of a relative path it stays.
\<close>

fun clean_step :: "bool \<Rightarrow> string list \<Rightarrow> string \<Rightarrow> string list" where
  "clean_step rooted st e =
     (if e = [] \<or> e = ''.'' then st
      else if e = ''..'' then
        (case st of
           [] \<Rightarrow> if rooted then [] else [''..'']
         | x # xs \<Rightarrow> if x = ''..'' then ''..'' # st else xs)
      else e # st)"

definition clean_elems :: "string \<Rightarrow> string list" where
  "clean_elems p = rev (foldl (clean_step (isAbs p)) [] (str_split p (CHR ''/'')))"

definition path_clean :: "string \<Rightarrow> string" where
  "path_clean p =
     (if isAbs p then ''/'' @ str_join ''/'' (clean_elems p)
      else if clean_elems p = [] then ''.'' else str_join ''/'' (clean_elems p))"

definition path_join :: "string list \<Rightarrow> string" where
  "path_join ps =
     (case filter (\<lambda>p. p \<noteq> []) ps of [] \<Rightarrow> [] | qs \<Rightarrow> path_clean (str_join ''/'' qs))"

text \<open>The last element, as \<^verbatim>\<open>filepath.Base\<close> gives it.\<close>

definition strip_slashes :: "string \<Rightarrow> string" where
  "strip_slashes p = rev (dropWhile (\<lambda>c. c = CHR ''/'') (rev p))"

definition path_base :: "string \<Rightarrow> string" where
  "path_base p =
     (if p = [] then ''.''
      else (let q = strip_slashes p in
            if q = [] then ''/'' else rev (takeWhile (\<lambda>c. c \<noteq> CHR ''/'') (rev q))))"

text \<open>
  \<^verbatim>\<open>filepath.Rel\<close>: the common leading elements are dropped, and what is left of the base becomes \<^verbatim>\<open>..\<close>
  elements; there is no answer when one path is rooted and the other is not, or when the rest of the
  base begins with \<^verbatim>\<open>..\<close>.
\<close>

fun drop_common :: "string list \<Rightarrow> string list \<Rightarrow> string list \<times> string list" where
  "drop_common (x # xs) (y # ys) = (if x = y then drop_common xs ys else (x # xs, y # ys))"
| "drop_common xs ys = (xs, ys)"

definition path_rel :: "string \<Rightarrow> string \<Rightarrow> string option" where
  "path_rel b t =
     (if isAbs b \<noteq> isAbs t then None
      else (case drop_common (clean_elems b) (clean_elems t) of
        (bs, ts) \<Rightarrow>
          if bs = [] \<and> ts = [] then Some ''.''
          else if bs \<noteq> [] \<and> hd bs = ''..'' then None
          else Some (str_join ''/'' (replicate (length bs) ''..'' @ ts))))"

text \<open>\<^verbatim>\<open>filepath.Dir\<close> and \<^verbatim>\<open>filepath.Ext\<close>.\<close>

definition path_dir :: "string \<Rightarrow> string" where
  "path_dir p = path_clean (rev (dropWhile (\<lambda>c. c \<noteq> CHR ''/'') (rev p)))"

definition path_ext :: "string \<Rightarrow> string" where
  "path_ext p =
     (let b = rev (takeWhile (\<lambda>c. c \<noteq> CHR ''/'') (rev p)) in
      case last_index_char b (CHR ''.'') of None \<Rightarrow> [] | Some i \<Rightarrow> drop i b)"

text \<open>\<^verbatim>\<open>filepath.Abs\<close>, given the working directory or the error of reading it.\<close>

definition abs_path :: "'e + string \<Rightarrow> string \<Rightarrow> 'e + string" where
  "abs_path wd p =
     (if isAbs p then Inr (path_clean p) else case wd of Inl e \<Rightarrow> Inl e | Inr w \<Rightarrow> Inr (path_join [w, p]))"

section \<open>The shape of a cleaned path\<close>

text \<open>
  The elements are non-empty, contain no slash, and none is \<^verbatim>\<open>.\<close>; in a rooted path none is \<^verbatim>\<open>..\<close>, and in
  a relative one the \<^verbatim>\<open>..\<close> elements come first.
\<close>

definition plain_elem :: "string \<Rightarrow> bool" where
  "plain_elem e \<longleftrightarrow> e \<noteq> [] \<and> e \<noteq> ''.'' \<and> CHR ''/'' \<notin> set e"

definition clean_inv :: "bool \<Rightarrow> string list \<Rightarrow> bool" where
  "clean_inv rooted st \<longleftrightarrow>
     (\<exists>n xs. st = xs @ replicate n ''..'' \<and> (rooted \<longrightarrow> n = 0) \<and> (\<forall>e\<in>set xs. plain_elem e \<and> e \<noteq> ''..''))"

lemma clean_inv_step:
  assumes "clean_inv rooted st" "CHR ''/'' \<notin> set e"
  shows "clean_inv rooted (clean_step rooted st e)"
proof -
  from assms(1) obtain n xs where st: "st = xs @ replicate n ''..''" and n: "rooted \<longrightarrow> n = 0"
    and xs: "\<forall>e\<in>set xs. plain_elem e \<and> e \<noteq> ''..''" by (auto simp: clean_inv_def)
  consider "e = [] \<or> e = ''.''" | "e = ''..''" | "e \<noteq> [] \<and> e \<noteq> ''.'' \<and> e \<noteq> ''..''" by blast
  then show ?thesis
  proof cases
    case 1
    with assms show ?thesis by auto
  next
    case 2
    show ?thesis
    proof (cases xs)
      case Nil
      show ?thesis
      proof (cases n)
        case 0
        with Nil st 2 have "clean_step rooted st e = (if rooted then [] else [''..''])" by simp
        moreover have "clean_inv rooted []" by (auto simp: clean_inv_def)
        moreover have "\<not> rooted \<Longrightarrow> clean_inv rooted [''..'']"
          unfolding clean_inv_def by (intro exI [of _ 1] exI [of _ "[]"]) simp
        ultimately show ?thesis by (cases rooted) (simp_all del: clean_step.simps)
      next
        case (Suc m)
        with Nil st 2 have "clean_step rooted st e = [] @ replicate (Suc n) ''..''" by simp
        with n Suc show ?thesis unfolding clean_inv_def by (intro exI [of _ "Suc n"] exI [of _ "[]"]) simp
      qed
    next
      case (Cons x ys)
      with st 2 xs have "clean_step rooted st e = ys @ replicate n ''..''" by simp
      with n xs Cons show ?thesis by (auto simp: clean_inv_def)
    qed
  next
    case 3
    with st assms(2) have "clean_step rooted st e = (e # xs) @ replicate n ''..''" by simp
    with n xs 3 assms(2) show ?thesis
      unfolding clean_inv_def by (intro exI [of _ n] exI [of _ "e # xs"]) (simp add: plain_elem_def)
  qed
qed

lemma clean_inv_fold:
  "clean_inv rooted st \<Longrightarrow> \<forall>e\<in>set es. CHR ''/'' \<notin> set e \<Longrightarrow> clean_inv rooted (foldl (clean_step rooted) st es)"
  by (induction es arbitrary: st) (auto intro: clean_inv_step simp del: clean_step.simps)

lemma clean_elems_shape:
  "\<exists>n xs. clean_elems p = replicate n ''..'' @ xs \<and> (isAbs p \<longrightarrow> n = 0) \<and> (\<forall>e\<in>set xs. plain_elem e \<and> e \<noteq> ''..'')"
proof -
  have "clean_inv (isAbs p) (foldl (clean_step (isAbs p)) [] (str_split p (CHR ''/'')))"
    by (rule clean_inv_fold) (auto simp: clean_inv_def dest: str_split_no_sep)
  then obtain n xs where "foldl (clean_step (isAbs p)) [] (str_split p (CHR ''/'')) = xs @ replicate n ''..''"
    "isAbs p \<longrightarrow> n = 0" "\<forall>e\<in>set xs. plain_elem e \<and> e \<noteq> ''..''" by (auto simp: clean_inv_def)
  then show ?thesis
    unfolding clean_elems_def by (intro exI [of _ n] exI [of _ "rev xs"]) simp
qed

lemma hasPrefix_join_dotdot: "hasPrefix (str_join ''/'' (''..'' # x # xs)) ''../''"
  by (simp add: hasPrefix_iff)

text \<open>A cleaned relative path that is not \<^verbatim>\<open>..\<close> and does not begin with \<^verbatim>\<open>../\<close> has no parent element at all.\<close>

lemma clean_no_parent:
  assumes "\<not> isAbs p" "path_clean p \<noteq> ''..''" "\<not> hasPrefix (path_clean p) ''../''"
  shows "\<forall>e\<in>set (clean_elems p). plain_elem e \<and> e \<noteq> ''..''"
proof -
  obtain n xs where s: "clean_elems p = replicate n ''..'' @ xs" and xs: "\<forall>e\<in>set xs. plain_elem e \<and> e \<noteq> ''..''"
    using clean_elems_shape by blast
  have "n = 0"
  proof (cases n)
    case (Suc m)
    then have "clean_elems p = ''..'' # (replicate m ''..'' @ xs)" using s by simp
    with assms show ?thesis
      by (cases "replicate m ''..'' @ xs") (simp_all add: path_clean_def hasPrefix_join_dotdot)
  qed
  with s xs show ?thesis by simp
qed

section \<open>Joining one plain element\<close>

lemma str_split_append: "str_split (xs @ c # ys) c = str_split xs c @ str_split ys c"
proof (induction xs)
  case (Cons x xs)
  then show ?case by (cases "str_split xs c") (auto split: list.split)
qed simp

lemma str_split_single: "c \<notin> set e \<Longrightarrow> str_split e c = [e]"
  by (induction e) auto

lemma clean_elems_snoc:
  assumes "d \<noteq> []" "plain_elem e" "e \<noteq> ''..''"
  shows "clean_elems (d @ CHR ''/'' # e) = clean_elems d @ [e]" "isAbs (d @ CHR ''/'' # e) = isAbs d"
proof -
  show abs: "isAbs (d @ CHR ''/'' # e) = isAbs d" using assms(1) by (cases d) (simp_all add: isAbs_def)
  show "clean_elems (d @ CHR ''/'' # e) = clean_elems d @ [e]"
    using assms by (simp add: clean_elems_def abs str_split_append str_split_single plain_elem_def)
qed

lemma drop_common_snoc: "drop_common xs (xs @ ys) = ([], ys)"
  by (induction xs) simp_all

lemma path_rel_child: "d \<noteq> [] \<Longrightarrow> plain_elem e \<Longrightarrow> e \<noteq> ''..'' \<Longrightarrow> path_rel d (d @ CHR ''/'' # e) = Some e"
  by (simp add: path_rel_def clean_elems_snoc drop_common_snoc)

lemma path_join_pair: "d \<noteq> [] \<Longrightarrow> e \<noteq> [] \<Longrightarrow> path_join [d, e] = path_clean (d @ CHR ''/'' # e)"
  by (simp add: path_join_def)

section \<open>Cleaning a rooted path twice\<close>

lemma str_split_join:
  "es \<noteq> [] \<Longrightarrow> \<forall>e\<in>set es. c \<notin> set e \<Longrightarrow> str_split (str_join [c] es) c = es"
proof (induction es rule: induct_list012)
  case (3 e f es)
  have "str_split (e @ c # str_join [c] (f # es)) c = str_split e c @ str_split (str_join [c] (f # es)) c"
    by (rule str_split_append)
  with 3 show ?case by (simp add: str_split_single)
qed (simp_all add: str_split_single)

lemma clean_steps_plain:
  "\<forall>e\<in>set es. plain_elem e \<and> e \<noteq> ''..'' \<Longrightarrow> foldl (clean_step b) st es = rev es @ st"
  by (induction es arbitrary: st) (auto simp: plain_elem_def)

lemma clean_elems_rooted:
  assumes "\<forall>e\<in>set es. plain_elem e \<and> e \<noteq> ''..''"
  shows "clean_elems (CHR ''/'' # str_join ''/'' es) = es"
proof (cases "es = []")
  case False
  then have "str_split (str_join ''/'' es) (CHR ''/'') = es"
    using assms by (intro str_split_join) (auto simp: plain_elem_def)
  with assms show ?thesis by (simp add: clean_elems_def isAbs_def clean_steps_plain)
qed (simp add: clean_elems_def isAbs_def)

lemma rooted_elems: "isAbs p \<Longrightarrow> \<forall>e\<in>set (clean_elems p). plain_elem e \<and> e \<noteq> ''..''"
  using clean_elems_shape [of p] by auto

lemma clean_elems_clean: "isAbs p \<Longrightarrow> clean_elems (path_clean p) = clean_elems p"
  by (simp add: path_clean_def clean_elems_rooted rooted_elems)

lemma isAbs_clean [simp]: "isAbs p \<Longrightarrow> isAbs (path_clean p)"
  by (simp add: path_clean_def isAbs_def)

lemma path_clean_idem [simp]: "isAbs p \<Longrightarrow> path_clean (path_clean p) = path_clean p"
  using clean_elems_clean [of p] isAbs_clean [of p] by (simp add: path_clean_def)

lemma isAbs_nonempty: "isAbs p \<Longrightarrow> p \<noteq> []"
  by (auto simp: isAbs_def)

text \<open>Joining a plain element to a rooted directory gives the same path before and after cleaning the directory.\<close>

definition child :: "string \<Rightarrow> string \<Rightarrow> string" where
  "child d e = CHR ''/'' # str_join ''/'' (clean_elems d @ [e])"

lemma path_join_child:
  assumes "isAbs d" "plain_elem e" "e \<noteq> ''..''"
  shows "path_join [d, e] = child d e" "path_join [path_clean d, e] = child d e"
proof -
  have join: "path_join [d, e] = child d e" if "isAbs d" for d
    using that assms(2,3) clean_elems_snoc [of d e] isAbs_nonempty [OF that]
    by (simp add: path_join_pair plain_elem_def path_clean_def child_def)
  from join [OF assms(1)] show "path_join [d, e] = child d e" .
  from join [OF isAbs_clean [OF assms(1)]] assms(1) show "path_join [path_clean d, e] = child d e"
    by (simp add: child_def clean_elems_clean)
qed

lemma child_inj:
  assumes "isAbs d" "plain_elem e" "e \<noteq> ''..''" "plain_elem f" "f \<noteq> ''..''"
  shows "child d e = child d f \<longleftrightarrow> e = f"
proof
  assume "child d e = child d f"
  then have "clean_elems (child d e) = clean_elems (child d f)" by simp
  then show "e = f"
    using assms rooted_elems [OF assms(1)] by (simp add: child_def clean_elems_rooted)
qed simp

section \<open>Paths below a rooted directory\<close>

text \<open>The path with the elements of \<open>d\<close> and then those of a relative path without parent elements.\<close>

definition below :: "string \<Rightarrow> string list \<Rightarrow> string" where
  "below d es = CHR ''/'' # str_join ''/'' (clean_elems d @ es)"

abbreviation plain_elems :: "string list \<Rightarrow> bool" where
  "plain_elems es \<equiv> \<forall>e\<in>set es. plain_elem e \<and> e \<noteq> ''..''"

lemma clean_elems_append:
  assumes "d \<noteq> []" "es \<noteq> []" "plain_elems es"
  shows "clean_elems (d @ CHR ''/'' # str_join ''/'' es) = clean_elems d @ es"
    "isAbs (d @ CHR ''/'' # str_join ''/'' es) = isAbs d"
proof -
  show abs: "isAbs (d @ CHR ''/'' # str_join ''/'' es) = isAbs d" using assms(1) by (cases d) (simp_all add: isAbs_def)
  have "str_split (str_join ''/'' es) (CHR ''/'') = es"
    using assms(2,3) by (intro str_split_join) (auto simp: plain_elem_def)
  then show "clean_elems (d @ CHR ''/'' # str_join ''/'' es) = clean_elems d @ es"
    using assms(3) by (simp add: clean_elems_def abs str_split_append clean_steps_plain)
qed

lemma str_join_nonempty: "es \<noteq> [] \<Longrightarrow> plain_elems es \<Longrightarrow> str_join ''/'' es \<noteq> []"
  by (cases es rule: list.exhaust; cases "tl es") (auto simp: plain_elem_def)

lemma path_join_below:
  assumes "isAbs d" "es \<noteq> []" "plain_elems es"
  shows "path_join [d, str_join ''/'' es] = below d es"
proof -
  have "d \<noteq> []" using assms(1) by (rule isAbs_nonempty)
  then show ?thesis
    using clean_elems_append [OF _ assms(2,3), of d] str_join_nonempty [OF assms(2,3)] assms(1)
    by (simp add: path_join_pair path_clean_def below_def)
qed

lemma below_elems:
  assumes "isAbs d" "plain_elems es"
  shows "clean_elems (below d es) = clean_elems d @ es" "isAbs (below d es)" "path_clean (below d es) = below d es"
proof -
  show e: "clean_elems (below d es) = clean_elems d @ es"
    unfolding below_def using assms rooted_elems [OF assms(1)] by (intro clean_elems_rooted) auto
  show abs: "isAbs (below d es)" by (simp add: below_def isAbs_def)
  show "path_clean (below d es) = below d es" using e abs by (simp add: path_clean_def below_def)
qed

lemma below_inj:
  assumes "isAbs d" "plain_elems es" "plain_elems fs"
  shows "below d es = below d fs \<longleftrightarrow> es = fs"
proof
  assume "below d es = below d fs"
  then have "clean_elems (below d es) = clean_elems (below d fs)" by simp
  then show "es = fs" unfolding below_elems(1) [OF assms(1,2)] below_elems(1) [OF assms(1,3)] by simp
qed simp

lemma path_dir_below:
  assumes "isAbs d" "plain_elems es" "plain_elem e" "e \<noteq> ''..''"
  shows "path_dir (below d (es @ [e])) = below d es"
proof -
  have no: "\<forall>c\<in>set (rev e). c \<noteq> CHR ''/''" using assms(3) by (auto simp: plain_elem_def)
  have dw: "dropWhile (\<lambda>c. c \<noteq> CHR ''/'') (rev e @ CHR ''/'' # x) = CHR ''/'' # x" for x
    using no by (simp add: dropWhile_append)
  show ?thesis
  proof (cases "clean_elems d @ es = []")
    case True
    then show ?thesis using dw [of "[]"] assms
      by (simp add: path_dir_def below_def path_clean_def isAbs_def clean_elems_def)
  next
    case False
    have join: "str_join ''/'' (xs @ [e]) = str_join ''/'' xs @ CHR ''/'' # e" if "xs \<noteq> []" for xs
      using that by (induction xs rule: induct_list012) auto
    have eq: "below d (es @ [e]) = below d es @ CHR ''/'' # e"
      using join [OF False] by (simp add: below_def)
    have "path_dir (below d (es @ [e])) = path_clean (below d es @ ''/'')"
      using dw [of "rev (below d es)"] by (simp add: path_dir_def eq)
    also have "\<dots> = below d es"
    proof -
      have abs: "isAbs (below d es @ ''/'')" by (simp add: below_def isAbs_def)
      have "clean_elems (below d es @ ''/'') = clean_elems (below d es)"
        using str_split_append [of "below d es" "CHR ''/''" "[]"] by (simp add: clean_elems_def abs below_elems(2) [OF assms(1,2)])
      then show ?thesis using abs below_elems(1) [OF assms(1,2)] by (simp add: path_clean_def below_def)
    qed
    finally show ?thesis .
  qed
qed

lemma clean_as_below: "isAbs p \<Longrightarrow> path_clean p = below ''/'' (clean_elems p)"
  by (simp add: path_clean_def below_def clean_elems_def isAbs_def)

end
