(* ===== verification/Zip_Guard.thy ===== *)
theory Zip_Guard
  imports Go_Path Complex_Main "HOL-Library.Word"
begin

text \<open>
  The archive guard of \<^verbatim>\<open>utils/zipbomb.go\<close>: \<^verbatim>\<open>CheckAPKSafe\<close> over the entries of the central directory,
  with the sizes as the 64-bit values of the zip format and the signed 64-bit arithmetic of the
  code.  The quotients are compared over the reals: below the limits of the guard both operands are
  exact doubles, and the quotient differs from a limit by far more than a rounding error.
\<close>

record zip_entry =
  Name :: string
  UncompressedSize64 :: "64 word"
  CompressedSize64 :: "64 word"

record apk_limits =
  APKMaxEntries :: int
  APKMaxTotalUncompressed :: int
  APKMaxRatio :: real
  APKMaxEntryUncompressed :: int

definition default_limits :: apk_limits where
  "default_limits =
     \<lparr>APKMaxEntries = 100000, APKMaxTotalUncompressed = 4 * 1024 * 1024 * 1024, APKMaxRatio = 200,
      APKMaxEntryUncompressed = 500 * 1024 * 1024\<rparr>"

datatype zip_verdict =
    Safe
  | CannotOpen
  | TooManyEntries
  | AbsolutePath string
  | ParentSegment string
  | EntryTooLarge string
  | EntryRatio string
  | TotalTooLarge
  | OverallRatio

definition name_verdict :: "string \<Rightarrow> zip_verdict" where
  "name_verdict n =
     (if isAbs n \<or> hasPrefix n ''/'' \<or> hasPrefix n [CHR 0x5C] then AbsolutePath n
      else (let cleaned = path_clean n in
            if cleaned = ''..'' \<or> hasPrefix cleaned ''../'' \<or> str_contains cleaned ''/../''
            then ParentSegment n else Safe))"

text \<open>One turn of the loop: the verdict on the entry, or the running totals after it.\<close>

definition check_entry ::
  "apk_limits \<Rightarrow> 64 word \<times> 64 word \<Rightarrow> zip_entry \<Rightarrow> zip_verdict + 64 word \<times> 64 word" where
  "check_entry L tot f =
     (if name_verdict (Name f) \<noteq> Safe then Inl (name_verdict (Name f))
      else (let unc = UncompressedSize64 f; cmp = CompressedSize64 f in
        if APKMaxEntryUncompressed L < sint unc then Inl (EntryTooLarge (Name f))
        else if 0 < sint cmp \<and> 0 < sint unc
               \<and> APKMaxRatio L < real_of_int (sint unc) / real_of_int (sint cmp)
        then Inl (EntryRatio (Name f))
        else (let tot' = (fst tot + unc, snd tot + cmp) in
          if APKMaxTotalUncompressed L < sint (fst tot') then Inl TotalTooLarge
          else Inr tot')))"

fun check_entries ::
  "apk_limits \<Rightarrow> 64 word \<times> 64 word \<Rightarrow> zip_entry list \<Rightarrow> zip_verdict + 64 word \<times> 64 word" where
  "check_entries L tot [] = Inr tot"
| "check_entries L tot (f # fs) =
     (case check_entry L tot f of Inl v \<Rightarrow> Inl v | Inr tot' \<Rightarrow> check_entries L tot' fs)"

text \<open>The argument is what \<^verbatim>\<open>zip.OpenReader\<close> returned: the entries, or nothing when it failed.\<close>

definition CheckAPKSafe :: "apk_limits \<Rightarrow> zip_entry list option \<Rightarrow> zip_verdict" where
  "CheckAPKSafe L r =
     (case r of
        None \<Rightarrow> CannotOpen
      | Some fs \<Rightarrow>
          if APKMaxEntries L < int (length fs) then TooManyEntries
          else (case check_entries L (0, 0) fs of
                  Inl v \<Rightarrow> v
                | Inr (totalUncomp, totalComp) \<Rightarrow>
                    if 0 < sint totalComp \<and> 0 < sint totalUncomp
                         \<and> APKMaxRatio L < real_of_int (sint totalUncomp) / real_of_int (sint totalComp)
                    then OverallRatio else Safe))"

section \<open>What an accepted archive satisfies\<close>

lemma check_entry_name: "check_entry L tot f = Inr t \<Longrightarrow> name_verdict (Name f) = Safe"
  by (auto simp: check_entry_def split: if_splits)

lemma check_entries_names:
  "check_entries L tot fs = Inr t \<Longrightarrow> f \<in> set fs \<Longrightarrow> name_verdict (Name f) = Safe"
  by (induction L tot fs rule: check_entries.induct) (auto split: sum.splits dest: check_entry_name)

lemma check_entry_verdict: "check_entry L tot f \<noteq> Inl Safe"
  by (auto simp: check_entry_def Let_def)

lemma check_entries_verdict: "check_entries L tot fs \<noteq> Inl Safe"
  by (induction L tot fs rule: check_entries.induct) (use check_entry_verdict in \<open>auto split: sum.splits\<close>)

lemma CheckAPKSafe_iff:
  "CheckAPKSafe L (Some fs) = Safe \<longleftrightarrow>
     int (length fs) \<le> APKMaxEntries L \<and>
     (\<exists>u c. check_entries L (0, 0) fs = Inr (u, c) \<and>
        \<not> (0 < sint c \<and> 0 < sint u \<and> APKMaxRatio L < real_of_int (sint u) / real_of_int (sint c)))"
  using check_entries_verdict [of L "(0, 0)" fs]
  by (auto simp: CheckAPKSafe_def split: sum.splits)

lemma name_safe_elems:
  "name_verdict n = Safe \<Longrightarrow> \<not> isAbs n \<and> (\<forall>e\<in>set (clean_elems n). plain_elem e \<and> e \<noteq> ''..'')"
  using clean_no_parent [of n] by (auto simp: name_verdict_def Let_def split: if_splits)

lemma sint_small: "uint u < 2 ^ 63 \<Longrightarrow> sint (u :: 64 word) = uint u"
  using signed_take_bit_int_eq_self [of 63 "uint u"] uint_ge_0 [of u] by (simp add: sint_uint)

lemma uint_add_small: "uint (u :: 64 word) + uint v < 2 ^ 64 \<Longrightarrow> uint (u + v) = uint u + uint v"
  by (simp add: uint_word_arith_bintrs take_bit_int_eq_self)

abbreviation usize :: "zip_entry \<Rightarrow> int" where
  "usize f \<equiv> uint (UncompressedSize64 f)"

abbreviation csize :: "zip_entry \<Rightarrow> int" where
  "csize f \<equiv> uint (CompressedSize64 f)"

text \<open>The limits leave room for one more entry above the total, as the default ones do.\<close>

definition limits_fit :: "apk_limits \<Rightarrow> bool" where
  "limits_fit L \<longleftrightarrow> 0 \<le> APKMaxTotalUncompressed L \<and> 0 \<le> APKMaxEntryUncompressed L
     \<and> APKMaxTotalUncompressed L + APKMaxEntryUncompressed L < 2 ^ 63"

lemma quotient_le:
  "0 < c \<Longrightarrow> \<not> r < real_of_int u / real_of_int c \<Longrightarrow> real_of_int u \<le> r * real_of_int c"
  by (simp add: not_less pos_divide_le_eq)

lemma check_entry_bounds:
  assumes "check_entry L (tu, tc) f = Inr (tu', tc')" "limits_fit L"
    "uint tu \<le> APKMaxTotalUncompressed L" "usize f < 2 ^ 63"
  shows "usize f \<le> APKMaxEntryUncompressed L" "uint tu' = uint tu + usize f"
    "uint tu' \<le> APKMaxTotalUncompressed L"
    "0 < csize f \<and> csize f < 2 ^ 63 \<Longrightarrow> real_of_int (usize f) \<le> APKMaxRatio L * real_of_int (csize f) \<or> usize f = 0"
proof -
  note ok = assms(1) [unfolded check_entry_def Let_def]
  from ok sint_small [OF assms(4)] show entry: "usize f \<le> APKMaxEntryUncompressed L"
    by (auto split: if_splits)
  from ok have tu': "tu' = tu + UncompressedSize64 f" and tot: "sint tu' \<le> APKMaxTotalUncompressed L"
    by (auto split: if_splits)
  from entry assms(2,3) have "uint tu + usize f < 2 ^ 63" by (simp add: limits_fit_def)
  then show sum: "uint tu' = uint tu + usize f" using tu' by (simp add: uint_add_small)
  with \<open>uint tu + usize f < 2 ^ 63\<close> tot show "uint tu' \<le> APKMaxTotalUncompressed L"
    by (simp add: sint_small)
  assume c: "0 < csize f \<and> csize f < 2 ^ 63"
  show "real_of_int (usize f) \<le> APKMaxRatio L * real_of_int (csize f) \<or> usize f = 0"
  proof (cases "usize f = 0")
    case False
    then have "0 < usize f" by (metis uint_ge_0 less_le)
    with ok c have "\<not> APKMaxRatio L < real_of_int (usize f) / real_of_int (csize f)"
      unfolding sint_small [OF assms(4)] sint_small [OF conjunct2 [OF c]] by (auto split: if_splits)
    with c show ?thesis by (blast intro: quotient_le)
  qed simp
qed

lemma check_entries_bounds:
  assumes "check_entries L (tu, tc) fs = Inr (tu', tc')" "limits_fit L"
    "uint tu \<le> APKMaxTotalUncompressed L" "\<forall>f\<in>set fs. usize f < 2 ^ 63"
  shows "(\<forall>f\<in>set fs. usize f \<le> APKMaxEntryUncompressed L)
    \<and> uint tu + sum_list (map usize fs) \<le> APKMaxTotalUncompressed L
    \<and> (\<forall>f\<in>set fs. 0 < csize f \<and> csize f < 2 ^ 63 \<longrightarrow>
          real_of_int (usize f) \<le> APKMaxRatio L * real_of_int (csize f) \<or> usize f = 0)"
  using assms
proof (induction fs arbitrary: tu tc)
  case (Cons f fs)
  from Cons.prems(1) obtain u c where e: "check_entry L (tu, tc) f = Inr (u, c)"
    and r: "check_entries L (u, c) fs = Inr (tu', tc')" by (auto split: sum.splits)
  from Cons.prems(4) have "usize f < 2 ^ 63" by simp
  note b = check_entry_bounds [OF e Cons.prems(2,3) this]
  from Cons.IH [OF r Cons.prems(2) b(3)] Cons.prems(4) b show ?case by auto
qed simp

section \<open>Properties\<close>

text \<open>
  C12.  No entry of an accepted archive escapes the extraction root: its name is relative, and after
  cleaning no element is \<^verbatim>\<open>..\<close>, empty or \<^verbatim>\<open>.\<close>, so every joined path stays below the root.
\<close>
theorem no_zip_slip:
  assumes "CheckAPKSafe L (Some fs) = Safe" "f \<in> set fs"
  shows "\<not> isAbs (Name f) \<and> (\<forall>e\<in>set (clean_elems (Name f)). plain_elem e \<and> e \<noteq> ''..'')"
  using assms name_safe_elems check_entries_names by (fastforce simp: CheckAPKSafe_iff)

definition sample_entry :: zip_entry where
  "sample_entry = \<lparr>Name = ''a/../b'', UncompressedSize64 = 100, CompressedSize64 = 10\<rparr>"

lemma sample_accepted: "CheckAPKSafe default_limits (Some [sample_entry]) = Safe"
  by (simp add: CheckAPKSafe_def default_limits_def sample_entry_def check_entry_def name_verdict_def
      isAbs_def path_clean_def clean_elems_def)

theorem no_zip_slip_witness:
  "\<not> isAbs ''a/../b'' \<and> list_all (\<lambda>e. plain_elem e \<and> e \<noteq> ''..'') (clean_elems ''a/../b'')"
  using no_zip_slip [OF sample_accepted, of sample_entry] by (simp add: sample_entry_def list_all_iff)



text \<open>
  An entry that declares \<open>2^63\<close> bytes or more is read as a negative size, so it passes the
  per-entry cap, the ratio check and the cumulative cap of the default limits.
\<close>
theorem huge_entry_passes:
  "\<exists>f. 2 ^ 63 \<le> usize f \<and> APKMaxEntryUncompressed default_limits < usize f
     \<and> CheckAPKSafe default_limits (Some [f]) = Safe"
proof -
  let ?f = "\<lparr>Name = ''classes.dex'', UncompressedSize64 = 2 ^ 63, CompressedSize64 = 10\<rparr> :: zip_entry"
  have "uint (2 ^ 63 :: 64 word) = 2 ^ 63" "sint (2 ^ 63 :: 64 word) = - (2 ^ 63)" by simp_all
  then show ?thesis
    by (intro exI [of _ ?f]) (simp add: CheckAPKSafe_def default_limits_def check_entry_def name_verdict_def
        isAbs_def path_clean_def clean_elems_def)
qed

end
