(* ===== verification/Scan_Stage.thy ===== *)
theory Scan_Stage
  imports Job_Queue Retry Zip_Guard
begin

text \<open>
  The scan of one job in \<^verbatim>\<open>worker/worker.go\<close>: the workspace paths of \<^verbatim>\<open>utils/jobcontext.go\<close>, disk
  admission, resolving the artifact to a local file, the archive guard, and the order of the stages
  of \<^verbatim>\<open>scanAPK\<close> and \<^verbatim>\<open>scanIPA\<close> with their error paths.  The file system and the object store are
  values of the model; the analysers that the stages call (decompiler, extractors, database) are
  given by their results.
\<close>

section \<open>The workspace\<close>

text \<open>The ID of the job context: the job's, or a generated UUID when that is blank.\<close>

definition NewJobContextForID :: "string \<Rightarrow> string \<Rightarrow> string" where
  "NewJobContextForID uuid jobID = (if trimSpace jobID = [] then uuid else jobID)"

definition workspace :: "string \<Rightarrow> string" where
  "workspace jobID = path_join [''/tmp/morf/jobs'', jobID]"

definition GetTmpDir :: "string \<Rightarrow> string" where
  "GetTmpDir jobID = workspace jobID"

definition GetInputDir :: "string \<Rightarrow> string" where
  "GetInputDir jobID = path_join [workspace jobID, ''input'']"

definition GetOutputDir :: "string \<Rightarrow> string" where
  "GetOutputDir jobID = path_join [workspace jobID, ''output'']"

definition GetSourceDir :: "string \<Rightarrow> string" where
  "GetSourceDir jobID = path_join [workspace jobID, ''output'', ''apk'', ''source'']"

definition GetResDir :: "string \<Rightarrow> string" where
  "GetResDir jobID = path_join [workspace jobID, ''output'', ''apk'', ''appres'']"

definition GetIOSDir :: "string \<Rightarrow> string" where
  "GetIOSDir jobID = path_join [workspace jobID, ''output'', ''ipa'']"

definition GetIOSBinDir :: "string \<Rightarrow> string" where
  "GetIOSBinDir jobID = path_join [GetIOSDir jobID, ''bin'']"

definition GetApkPath :: "string \<Rightarrow> string \<Rightarrow> string" where
  "GetApkPath jobID apkPath = path_join [GetInputDir jobID, path_base apkPath]"

section \<open>The host of a scan\<close>

datatype fnode = Dir | File string

text \<open>
  An object store as the worker sees it: the local path of a key, if the backend has one, the size of
  an object, and its bytes.
\<close>

record object_store =
  LocalPath :: "string \<Rightarrow> string option"
  Stat :: "string \<Rightarrow> go_error + int"
  Open :: "string \<Rightarrow> go_error + string"

text \<open>
  The host: its files, the store (\<^const>\<open>None\<close> when it could not be built), what \<^verbatim>\<open>os.CreateTemp\<close>
  answers, the errors of copying and closing, the free bytes of a file system (\<^const>\<open>None\<close> when
  \<^verbatim>\<open>Statfs\<close> fails), the configured expansion factor, and the reader of zip archives.
\<close>

record scan_host =
  files :: "string \<rightharpoonup> fnode"
  store :: "object_store option"
  create_temp :: "string \<Rightarrow> go_error + string"
  copy_err :: "go_error option"
  close_err :: "go_error option"
  freeBytesOnFS :: "string \<Rightarrow> 64 word option"
  decompile_factor :: int
  zip_read :: "string \<Rightarrow> zip_entry list option"

definition checkDiskAdmission :: "scan_host \<Rightarrow> string \<Rightarrow> int \<Rightarrow> go_error option" where
  "checkDiskAdmission H dir objSize =
     (if objSize \<le> 0 then None
      else (let factor = decompile_factor H;
                required = (word_of_int objSize :: 64 word) * word_of_int factor in
        case freeBytesOnFS H dir of
          None \<Rightarrow> None
        | Some free \<Rightarrow>
            if free < required
            then Some (Errorf (''insufficient disk for scan: need ~'' @ show_nat (unat required) @ '' bytes (apk ''
                   @ show_int objSize @ '' x'' @ show_int factor @ '' expansion) but only ''
                   @ show_nat (unat free) @ '' free on workspace filesystem'') [])
            else None))"

text \<open>The last part of \<^verbatim>\<open>resolveAPKPath\<close>: the local file must exist and fit.\<close>

definition accept_local :: "scan_host \<Rightarrow> string \<Rightarrow> string \<Rightarrow> string \<Rightarrow> go_error + string" where
  "accept_local H dir key localPath =
     (case files H localPath of
        Some (File bytes) \<Rightarrow>
          (case checkDiskAdmission H dir (int (length bytes)) of
             Some e \<Rightarrow> Inl e
           | None \<Rightarrow> Inr localPath)
      | node \<Rightarrow>
          Inl (Errorf (''apk artifact for key '' @ quoted key @ '' is unavailable at '' @ quoted localPath @ '': ''
            @ (if node = None then ''stat '' @ localPath @ '': no such file or directory'' else ''<nil>'')) []))"

text \<open>
  Streaming an object of a remote backend into a temporary file, which is removed again when
  \<^verbatim>\<open>resolveAPKPath\<close> returns: the deferred \<^verbatim>\<open>os.Remove\<close> belongs to that function.
\<close>

definition resolve_remote ::
  "scan_host \<Rightarrow> object_store \<Rightarrow> string \<Rightarrow> string \<Rightarrow> (go_error + string) \<times> (string \<rightharpoonup> fnode)" where
  "resolve_remote H S dir key =
     (case (case Stat S key of Inr objSize \<Rightarrow> checkDiskAdmission H dir objSize | Inl _ \<Rightarrow> None) of
        Some e \<Rightarrow> (Inl e, files H)
      | None \<Rightarrow>
          (case Open S key of
             Inl e \<Rightarrow> (Inl (Errorf (''failed to open APK object '' @ quoted key @ '' from storage: '' @ err_msg e) [e]), files H)
           | Inr bytes \<Rightarrow>
               (case create_temp H dir of
                  Inl e \<Rightarrow> (Inl (Errorf (''failed to create temp APK file: '' @ err_msg e) [e]), files H)
                | Inr tmpPath \<Rightarrow>
                    (let removed = (files H)(tmpPath := None) in
                     case copy_err H of
                       Some e \<Rightarrow> (Inl (Errorf (''failed to copy APK object '' @ quoted key @ '' to temp file: '' @ err_msg e) [e]), removed)
                     | None \<Rightarrow>
                         (case close_err H of
                            Some e \<Rightarrow> (Inl (Errorf (''failed to finalize temp APK file: '' @ err_msg e) [e]), removed)
                          | None \<Rightarrow>
                              (accept_local (H\<lparr>files := (files H)(tmpPath \<mapsto> File bytes)\<rparr>) dir key tmpPath, removed))))))"

definition resolveAPKPath :: "scan_host \<Rightarrow> ScanJob \<Rightarrow> string \<Rightarrow> (go_error + string) \<times> (string \<rightharpoonup> fnode)" where
  "resolveAPKPath H job dir =
     (let key = StorageKey job in
      if key = [] then (accept_local H dir key (APKPath job), files H)
      else case store H of
        None \<Rightarrow> (Inl (Errorf (''storage backend unavailable; cannot resolve APK for key '' @ quoted key) []), files H)
      | Some S \<Rightarrow>
          (case LocalPath S key of
             Some p \<Rightarrow> (accept_local H dir key p, files H)
           | None \<Rightarrow> resolve_remote H S dir key))"

definition open_zip :: "scan_host \<Rightarrow> (string \<rightharpoonup> fnode) \<Rightarrow> string \<Rightarrow> zip_entry list option" where
  "open_zip H fs p = (case fs p of Some (File bytes) \<Rightarrow> zip_read H bytes | _ \<Rightarrow> None)"

section \<open>The stages\<close>

text \<open>
  What the stages answer: the workspace, the cancellation check, the texts of the guard's errors, a
  stored duplicate's response, metadata, findings, the assembled response.  A response that
  \<^verbatim>\<open>json.Marshal\<close> cannot encode is \<open>Unencodable\<close>.
\<close>

datatype gin_H = Gin "(string \<times> json) list" | Unencodable go_error

record ('m, 'f) stages =
  st_limits :: apk_limits
  st_uuid :: string
  st_workspace :: "go_error option"
  st_ctx_done :: bool
  st_guard_text :: "zip_verdict \<Rightarrow> string"
  st_duplicate :: "string \<Rightarrow> gin_H option"
  st_metadata :: "string \<Rightarrow> go_error + 'm"
  st_secrets :: "string \<Rightarrow> go_error + 'f"
  st_postprocess :: "'f \<Rightarrow> 'f"
  st_assemble :: "ScanJob \<Rightarrow> string \<Rightarrow> 'm \<Rightarrow> 'f \<Rightarrow> go_error + gin_H"

definition safety_error :: "string \<Rightarrow> go_error" where
  "safety_error txt =
     Errorf (''safety check failed: '' @ err_msg ErrNonRetryable @ '': '' @ txt) [ErrNonRetryable, Errorf txt []]"

text \<open>What both platforms do before their analysers run.\<close>

definition scan_gate ::
  "'s redis \<Rightarrow> scan_host \<Rightarrow> ('m, 'f) stages \<Rightarrow> ScanJob \<Rightarrow> (string \<Rightarrow> ('s, go_error + gin_H) op) \<Rightarrow> ('s, go_error + gin_H) op" where
  "scan_gate R H T job k =
     (case st_workspace T of
        Some e \<Rightarrow> op_ret (Inl (Errorf (''failed to create workspace: '' @ err_msg e) []))
      | None \<Rightarrow>
          op_seq (op_ignore (SetJobPhase R (ID job) ''unpacking''))
            (if st_ctx_done T then op_ret (Inl (Errorf ''job cancelled'' []))
             else case resolveAPKPath H job (GetTmpDir (NewJobContextForID (st_uuid T) (ID job))) of
               (Inl e, _) \<Rightarrow> op_ret (Inl e)
             | (Inr localPath, fs) \<Rightarrow>
                 (let v = CheckAPKSafe (st_limits T) (open_zip H fs localPath) in
                  if v \<noteq> Safe then op_ret (Inl (safety_error (st_guard_text T v)))
                  else case st_duplicate T localPath of
                    Some resp \<Rightarrow> op_ret (Inr resp)
                  | None \<Rightarrow> k localPath)))"

definition scanAPK :: "'s redis \<Rightarrow> scan_host \<Rightarrow> ('m, 'f) stages \<Rightarrow> ScanJob \<Rightarrow> ('s, go_error + gin_H) op" where
  "scanAPK R H T job =
     scan_gate R H T job (\<lambda>localPath.
       op_seq (op_ignore (SetJobPhase R (ID job) ''parsing''))
       (case st_metadata T localPath of
          Inl e \<Rightarrow> op_ret (Inl (Errorf (''metadata extraction failed: '' @ err_msg e) [e]))
        | Inr md \<Rightarrow>
            op_seq (op_ignore (SetJobPhase R (ID job) ''scanning''))
            (case st_secrets T localPath of
               Inl e \<Rightarrow> op_ret (Inl (Errorf (''secret scan failed: '' @ err_msg e) [e]))
             | Inr found \<Rightarrow>
                 op_seq (op_ignore (SetJobPhase R (ID job) ''compiling''))
                 (op_ret (case st_assemble T job localPath md (st_postprocess T found) of
                    Inl e \<Rightarrow> Inl (Errorf (''failed to marshal scanner data: '' @ err_msg e) [])
                  | Inr resp \<Rightarrow> Inr resp)))))"

text \<open>The iOS pipeline extracts metadata and findings in one stage.\<close>

definition scanIPA ::
  "'s redis \<Rightarrow> scan_host \<Rightarrow> ('m, 'f) stages \<Rightarrow> (string \<Rightarrow> go_error + 'm \<times> 'f) \<Rightarrow> ('m \<Rightarrow> 'f \<Rightarrow> ScanJob \<Rightarrow> gin_H) \<Rightarrow> ScanJob \<Rightarrow>
     ('s, go_error + gin_H) op" where
  "scanIPA R H T extract build job =
     scan_gate R H T job (\<lambda>localPath.
       op_seq (op_ignore (SetJobPhase R (ID job) ''scanning''))
       (case extract localPath of
          Inl e \<Rightarrow> op_ret (Inl (Errorf (''ios extraction failed: '' @ err_msg e) [e]))
        | Inr (md, found) \<Rightarrow>
            op_seq (op_ignore (SetJobPhase R (ID job) ''compiling''))
            (op_ret (Inr (build md (st_postprocess T found) job)))))"

section \<open>Properties\<close>

lemma word_mult_small:
  "0 \<le> a \<Longrightarrow> 0 \<le> b \<Longrightarrow> a * b < 2 ^ 64 \<Longrightarrow> uint ((word_of_int a :: 64 word) * word_of_int b) = a * b"
  by (simp add: uint_word_arith_bintrs uint_word_of_int_eq take_bit_int_eq_self mod_mult_eq take_bit_eq_mod)

text \<open>
  Disk admission: unless the product wraps around, a job is refused exactly when its size is
  positive, the free space is known, and it is less than size times factor.
\<close>
theorem disk_admission:
  assumes "0 \<le> decompile_factor H" "objSize * decompile_factor H < 2 ^ 64"
  shows "checkDiskAdmission H dir objSize \<noteq> None \<longleftrightarrow>
    0 < objSize \<and> (\<exists>free. freeBytesOnFS H dir = Some free \<and> uint free < objSize * decompile_factor H)"
proof (cases "0 < objSize")
  case True
  with assms have "uint ((word_of_int objSize :: 64 word) * word_of_int (decompile_factor H)) = objSize * decompile_factor H"
    by (intro word_mult_small) simp_all
  with True show ?thesis
    by (auto simp: checkDiskAdmission_def Let_def word_less_def split: option.splits)
qed (simp add: checkDiskAdmission_def)

text \<open>
  A path that resolves names an existing regular file that passed the disk check (so a missing
  artifact is never scanned): it was there when \<^verbatim>\<open>resolveAPKPath\<close> looked, for every backend.
\<close>
theorem resolve_local:
  assumes "fst (resolveAPKPath H job dir) = Inr p" "StorageKey job = [] \<or> (\<exists>S. store H = Some S \<and> LocalPath S (StorageKey job) \<noteq> None)"
  shows "\<exists>bytes. files H p = Some (File bytes) \<and> checkDiskAdmission H dir (int (length bytes)) = None
    \<and> snd (resolveAPKPath H job dir) = files H"
  using assms
  by (auto simp: resolveAPKPath_def accept_local_def Let_def split: if_splits option.splits fnode.splits)

text \<open>
  C19.  With a remote backend the resolved path never exists any more when \<^verbatim>\<open>resolveAPKPath\<close> has
  returned, so the archive guard cannot open it: every scan of a remote artifact that gets that far
  fails the safety check.
\<close>
theorem remote_scan_fails:
  assumes "StorageKey job \<noteq> []" "store H = Some S" "LocalPath S (StorageKey job) = None"
    "fst (resolveAPKPath H job dir) = Inr p"
  shows "snd (resolveAPKPath H job dir) p = None
    \<and> CheckAPKSafe L (open_zip H (snd (resolveAPKPath H job dir)) p) = CannotOpen"
proof -
  from assms have "snd (resolveAPKPath H job dir) p = None"
    by (auto simp: resolveAPKPath_def resolve_remote_def accept_local_def Let_def
        split: if_splits option.splits fnode.splits sum.splits)
  then show ?thesis by (simp add: open_zip_def CheckAPKSafe_def)
qed

section \<open>Instances\<close>

definition sample_host :: scan_host where
  "sample_host =
     \<lparr>files = [''/data/a.apk'' \<mapsto> File ''PK'', ''/data/k1'' \<mapsto> File ''PK''],
      store = Some \<lparr>LocalPath = (\<lambda>k. Some (''/data/'' @ k)), Stat = (\<lambda>k. Inr 2), Open = (\<lambda>k. Inr ''PK'')\<rparr>,
      create_temp = (\<lambda>d. Inr (d @ ''/apk-1.apk'')), copy_err = None, close_err = None,
      freeBytesOnFS = (\<lambda>d. Some 1000), decompile_factor = 20,
      zip_read = (\<lambda>b. Some [sample_entry])\<rparr>"

definition remote_host :: scan_host where
  "remote_host = sample_host\<lparr>store := Some \<lparr>LocalPath = (\<lambda>k. None), Stat = (\<lambda>k. Inr 2), Open = (\<lambda>k. Inr ''PK'')\<rparr>\<rparr>"

definition stored_job :: ScanJob where
  "stored_job = zero_job\<lparr>ID := ''j1'', StorageKey := ''k1''\<rparr>"

theorem disk_admission_witness: "checkDiskAdmission sample_host ''/tmp'' 51 \<noteq> None"
  using disk_admission [of sample_host 51 "''/tmp''"] by (simp add: sample_host_def)

theorem resolve_local_witness:
  "fst (resolveAPKPath sample_host stored_job ''/tmp'') = Inr ''/data/k1'' \<and>
   (\<exists>bytes. files sample_host ''/data/k1'' = Some (File bytes))"
proof -
  have r: "fst (resolveAPKPath sample_host stored_job ''/tmp'') = Inr ''/data/k1''"
    by (simp add: resolveAPKPath_def accept_local_def checkDiskAdmission_def sample_host_def stored_job_def Let_def)
  from resolve_local [OF this] show ?thesis using r by (auto simp: sample_host_def stored_job_def)
qed

theorem remote_scan_fails_witness:
  "fst (resolveAPKPath remote_host stored_job ''/tmp'') = Inr ''/tmp/apk-1.apk'' \<and>
   CheckAPKSafe default_limits (open_zip remote_host (snd (resolveAPKPath remote_host stored_job ''/tmp'')) ''/tmp/apk-1.apk'') = CannotOpen"
proof -
  have r: "fst (resolveAPKPath remote_host stored_job ''/tmp'') = Inr ''/tmp/apk-1.apk''"
    by (simp add: resolveAPKPath_def resolve_remote_def accept_local_def checkDiskAdmission_def remote_host_def
        sample_host_def stored_job_def Let_def)
  from remote_scan_fails [OF _ _ _ this] show ?thesis using r by (simp add: remote_host_def stored_job_def)
qed

end
