(* ===== verification/Worker.thy ===== *)
theory Worker
  imports Queue_Laws Scan_Stage
begin

text \<open>
  The worker of \<^verbatim>\<open>worker/worker.go\<close>: the classification of errors, the backoff, the processing of one
  job with its success and failure transitions, the webhook tail, and the loop of a worker.  Effects
  outside Redis (deleting the uploaded artifact, waiting, dispatching a webhook) are returned in the
  order in which they are requested.  The heartbeat and the cancellation watcher that run beside a
  scan show up only in what the scan ends with.
\<close>

section \<open>Classification and backoff\<close>

definition isRetryable :: "go_error option \<Rightarrow> bool" where
  "isRetryable err =
     (case err of
        None \<Rightarrow> False
      | Some e \<Rightarrow>
          if errors_is e ErrNonRetryable then False
          else if errors_is e ErrRetryable then True
          else \<not> contains_any (toLower (err_msg e))
                 [''safety check failed'', ''decompilation failed'', ''validation failed''])"

record worker_cfg =
  workerMaxRetries :: int
  workerRetryBase :: int
  workerRetryMaxDur :: int

text \<open>Multiplication of a \<^verbatim>\<open>time.Duration\<close> is that of 64-bit integers.\<close>

definition wrap64 :: "int \<Rightarrow> int" where
  "wrap64 i = (i + 2 ^ 63) mod 2 ^ 64 - 2 ^ 63"

fun backoff_loop :: "nat \<Rightarrow> int \<Rightarrow> int \<Rightarrow> int" where
  "backoff_loop 0 d mx = (if d > mx then mx else d)"
| "backoff_loop (Suc n) d mx = (let d = wrap64 (d * 2) in if d \<ge> mx then mx else backoff_loop n d mx)"

definition retryBackoff :: "worker_cfg \<Rightarrow> int \<Rightarrow> int" where
  "retryBackoff cfg retryCount =
     (let base = (if workerRetryBase cfg \<le> 0 then 2 * second_ns else workerRetryBase cfg);
          mx = (if workerRetryMaxDur cfg \<le> 0 then 30 * second_ns else workerRetryMaxDur cfg)
      in backoff_loop (nat (retryCount - 1)) base mx)"

section \<open>Transitions of one job\<close>

datatype effect =
    DeleteArtifact string
  | Wait int
  | Webhook ScanJob "gin_H option" bool

definition deleteUploadedArtifact :: "ScanJob \<Rightarrow> effect list" where
  "deleteUploadedArtifact job = (if StorageKey job = [] then [] else [DeleteArtifact (StorageKey job)])"

definition dispatchWebhook :: "ScanJob \<Rightarrow> gin_H option \<Rightarrow> bool \<Rightarrow> effect list" where
  "dispatchWebhook job result isFailure =
     (if WebhookURL job \<noteq> [] then [Webhook job result isFailure] else [])"

text \<open>The two ways \<^verbatim>\<open>handleJobFailure\<close> goes on once it has classified the error.\<close>

definition requeue_failed :: "'s redis \<Rightarrow> worker_cfg \<Rightarrow> ScanJob \<Rightarrow> ('s, bool \<times> effect list) op" where
  "requeue_failed R cfg job1 =
     (let wait = Wait (retryBackoff cfg (RetryCount job1));
          job2 = job1\<lparr>Status := JobStatusQueued, StartedAt := None, WorkerID := []\<rparr>
      in op_bind (op_try (UpdateJob R job2))
        (\<lambda>u. case u of
           Inr _ \<Rightarrow> op_seq (op_ignore (PushJob R (ID job2))) (op_ret (True, wait # dispatchWebhook job2 None True))
         | Inl _ \<Rightarrow> op_ret (False, wait # dispatchWebhook job2 None True)))"

definition dead_letter :: "'s redis \<Rightarrow> ScanJob \<Rightarrow> ('s, bool \<times> effect list) op" where
  "dead_letter R job1 =
     op_bind (op_try (UpdateJob R job1))
       (\<lambda>u. case u of
          Inr _ \<Rightarrow> op_seq (op_ignore (MoveToDLQ R (ID job1)))
                    (op_ret (True, deleteUploadedArtifact job1 @ dispatchWebhook job1 None True))
        | Inl _ \<Rightarrow> op_ret (False, dispatchWebhook job1 None True))"

definition failed_job :: "ScanJob \<Rightarrow> go_time \<Rightarrow> go_error \<Rightarrow> ScanJob" where
  "failed_job job now err =
     job\<lparr>Status := JobStatusFailed, FailedAt := Some now, Error := err_msg err, RetryCount := RetryCount job + 1\<rparr>"

definition handleJobFailure ::
  "'s redis \<Rightarrow> worker_cfg \<Rightarrow> string \<Rightarrow> ScanJob \<Rightarrow> go_error \<Rightarrow> ('s, bool \<times> effect list) op" where
  "handleJobFailure R cfg workerID job err =
     op_bind (CheckJobLease R (ID job) workerID) (\<lambda>(owns, lerr).
       if lerr = None \<and> \<not> owns then op_ret (True, [])
       else op_bind op_now (\<lambda>now.
         let job1 = failed_job job now err in
         if isRetryable (Some err) \<and> RetryCount job1 < workerMaxRetries cfg
         then requeue_failed R cfg job1 else dead_letter R job1))"

definition scanResultSchemaVersion :: string where
  "scanResultSchemaVersion = ''1''"

text \<open>
  Stamping the result map and encoding it: \<^verbatim>\<open>json.Marshal\<close> prints the members of a map in the order
  of their keys.
\<close>

definition stamp :: "(string \<times> json) list \<Rightarrow> (string \<times> json) list" where
  "stamp ms = (''schema_version'', JStr scanResultSchemaVersion) # filter (\<lambda>m. fst m \<noteq> ''schema_version'') ms"

definition encode_result :: "gin_H \<Rightarrow> go_error + string" where
  "encode_result result =
     (case result of Gin ms \<Rightarrow> Inr (marshal (JObj (sort_key fst (stamp ms)))) | Unencodable e \<Rightarrow> Inl e)"

definition stamped :: "gin_H \<Rightarrow> gin_H" where
  "stamped result = (case result of Gin ms \<Rightarrow> Gin (stamp ms) | Unencodable e \<Rightarrow> Unencodable e)"

definition completed_job :: "ScanJob \<Rightarrow> go_time \<Rightarrow> string \<Rightarrow> ScanJob" where
  "completed_job job now resultJSON =
     job\<lparr>Status := JobStatusCompleted, CompletedAt := Some now, Result := resultJSON\<rparr>"

definition persist_completed :: "'s redis \<Rightarrow> ScanJob \<Rightarrow> gin_H \<Rightarrow> ('s, bool \<times> effect list) op" where
  "persist_completed R job1 result =
     op_bind (op_try (UpdateJob R job1))
       (\<lambda>u. case u of
          Inl _ \<Rightarrow> op_ret (False, [])
        | Inr _ \<Rightarrow> op_seq (ClearJobLease R (ID job1))
            (op_ret (True, deleteUploadedArtifact job1 @ dispatchWebhook job1 (Some (stamped result)) False)))"

definition handleJobSuccess ::
  "'s redis \<Rightarrow> worker_cfg \<Rightarrow> string \<Rightarrow> ScanJob \<Rightarrow> gin_H \<Rightarrow> ('s, bool \<times> effect list) op" where
  "handleJobSuccess R cfg workerID job result =
     op_bind (CheckJobLease R (ID job) workerID) (\<lambda>(owns, lerr).
       if lerr = None \<and> \<not> owns then op_ret (True, [])
       else case encode_result result of
         Inl e \<Rightarrow> handleJobFailure R cfg workerID job (Errorf (''failed to marshal result: '' @ err_msg e) [e])
       | Inr resultJSON \<Rightarrow>
           op_bind op_now (\<lambda>now. persist_completed R (completed_job job now resultJSON) result))"

text \<open>
  How a scan ends: it returns, together with the text of the timeout if the deadline of its context
  has passed, or it panics.
\<close>

datatype scan_end = Returned "go_error + gin_H" "string option" | Panicked string

definition timeout_error :: "string option \<Rightarrow> go_error \<Rightarrow> go_error" where
  "timeout_error t err =
     (case t of
        Some d \<Rightarrow> Errorf (''scan timeout exceeded ('' @ d @ ''): '' @ err_msg err) []
      | None \<Rightarrow> err)"

definition after_scan ::
  "'s redis \<Rightarrow> worker_cfg \<Rightarrow> string \<Rightarrow> string \<Rightarrow> ScanJob \<Rightarrow> scan_end \<Rightarrow> ('s, bool \<times> effect list) op" where
  "after_scan R cfg workerID jobID job out =
     (case out of
        Panicked msg \<Rightarrow> handleJobFailure R cfg workerID job (Errorf (''panic in scan: '' @ msg) [])
      | Returned (Inl e) t \<Rightarrow>
          op_bind (op_try (GetJob R jobID)) (\<lambda>updated.
            case updated of
              Inr uj \<Rightarrow>
                if Status uj = JobStatusCancelled then op_ret (True, deleteUploadedArtifact job)
                else handleJobFailure R cfg workerID job (timeout_error t e)
            | Inl _ \<Rightarrow> handleJobFailure R cfg workerID job (timeout_error t e))
      | Returned (Inr result) t \<Rightarrow> handleJobSuccess R cfg workerID job result)"

definition started :: "ScanJob \<Rightarrow> string \<Rightarrow> go_time \<Rightarrow> ScanJob" where
  "started job wid now = job\<lparr>Status := JobStatusProcessing, StartedAt := Some now, WorkerID := wid\<rparr>"

text \<open>The body of \<^verbatim>\<open>processJob\<close>: whether to acknowledge, and the effects.\<close>

definition process_body ::
  "'s redis \<Rightarrow> worker_cfg \<Rightarrow> (ScanJob \<Rightarrow> ('s, scan_end) op) \<Rightarrow> string \<Rightarrow> string \<Rightarrow> ('s, bool \<times> effect list) op" where
  "process_body R cfg scan workerID jobID =
     op_bind (op_try (GetJob R jobID)) (\<lambda>r. case r of
       Inl _ \<Rightarrow> op_ret (True, [])
     | Inr job \<Rightarrow>
         if Status job = JobStatusCompleted \<or> Status job = JobStatusFailed then op_ret (True, [])
         else if Status job = JobStatusCancelled then op_ret (True, deleteUploadedArtifact job)
         else op_bind op_now (\<lambda>now.
           let job1 = started job workerID now in
           op_bind (op_try (UpdateJob R job1)) (\<lambda>u. case u of
             Inl _ \<Rightarrow> op_ret (True, [])
           | Inr _ \<Rightarrow>
               op_seq (op_ignore (SetJobLease R jobID workerID))
               (op_bind (CheckJobLease R jobID workerID) (\<lambda>(owns, lerr).
                 if lerr = None \<and> \<not> owns then op_ret (True, [])
                 else op_bind (scan job1) (after_scan R cfg workerID jobID job1))))))"

definition processJob ::
  "'s redis \<Rightarrow> worker_cfg \<Rightarrow> (ScanJob \<Rightarrow> ('s, scan_end) op) \<Rightarrow> string \<Rightarrow> string \<Rightarrow> ('s, effect list) op" where
  "processJob R cfg scan workerID jobID =
     op_bind (process_body R cfg scan workerID jobID) (\<lambda>(ackJob, effs).
       op_seq (if ackJob then op_ignore (AckJob R workerID jobID) else op_ret ()) (op_ret effs))"

text \<open>The dispatch on the platform of the job.\<close>

definition scan_dispatch ::
  "(ScanJob \<Rightarrow> ('s, go_error + gin_H) op) \<Rightarrow> (ScanJob \<Rightarrow> ('s, go_error + gin_H) op) \<Rightarrow> string option \<Rightarrow> ScanJob \<Rightarrow> ('s, scan_end) op" where
  "scan_dispatch apk ipa timed_out job =
     op_bind (if toLower (FileType job) = ''ipa'' then ipa job else apk job)
       (\<lambda>r. op_ret (Returned r timed_out))"

section \<open>The webhook tail\<close>

text \<open>\<^verbatim>\<open>deliver\<close> is \<^verbatim>\<open>DeliverWebhookWithRetry\<close>; an exhausted delivery is recorded.\<close>

definition deliverWebhook ::
  "'s redis \<Rightarrow> (string \<Rightarrow> string \<Rightarrow> ScanJob \<Rightarrow> gin_H option \<Rightarrow> go_error option) \<Rightarrow> ScanJob \<Rightarrow> gin_H option \<Rightarrow> bool \<Rightarrow> ('s, unit) op" where
  "deliverWebhook R deliver job result isFailure =
     (case deliver (WebhookURL job) (WebhookSecret job) job (if isFailure then None else result) of
        None \<Rightarrow> op_ret ()
      | Some err \<Rightarrow>
          op_bind op_now (\<lambda>now. op_ignore (RecordFailedWebhook R
            \<lparr>fw_JobID = ID job, fw_WebhookURL = WebhookURL job, fw_JobStatus = Status job, fw_Error = err_msg err,
             fw_RecordedAt = unix_nano now div second_ns\<rparr>)))"

section \<open>The loop of a worker\<close>

definition popBackoffBase :: int where
  "popBackoffBase = 500 * 1000000"

definition popBackoffMax :: int where
  "popBackoffMax = 30 * second_ns"

text \<open>One turn of the default case: pop, and process what was popped.\<close>

definition worker_turn ::
  "'s redis \<Rightarrow> worker_cfg \<Rightarrow> (ScanJob \<Rightarrow> ('s, scan_end) op) \<Rightarrow> string \<Rightarrow> int \<Rightarrow> ('s, int \<times> effect list) op" where
  "worker_turn R cfg scan workerID popBackoff =
     op_bind (op_try (PopJobReliable R workerID)) (\<lambda>r. case r of
       Inl e \<Rightarrow>
         if e = ErrNoJob then op_ret (popBackoffBase, [])
         else op_ret (if popBackoff * 2 > popBackoffMax then popBackoffMax else popBackoff * 2, [Wait popBackoff])
     | Inr jobID \<Rightarrow>
         op_bind (processJob R cfg scan workerID jobID) (\<lambda>effs. op_ret (popBackoffBase, effs)))"

datatype loop_event = Tick | Turn

text \<open>The loop on the events it selects until its context ends.\<close>

fun worker_loop ::
  "'s redis \<Rightarrow> worker_cfg \<Rightarrow> (ScanJob \<Rightarrow> ('s, scan_end) op) \<Rightarrow> string \<Rightarrow> int \<Rightarrow> loop_event list \<Rightarrow> ('s, effect list) op" where
  "worker_loop R cfg scan workerID b [] = op_seq (op_ignore (UnregisterWorker R workerID)) (op_ret [])"
| "worker_loop R cfg scan workerID b (Tick # es) =
     op_seq (op_ignore (UpdateWorkerHeartbeat R workerID)) (worker_loop R cfg scan workerID b es)"
| "worker_loop R cfg scan workerID b (Turn # es) =
     op_bind (worker_turn R cfg scan workerID b) (\<lambda>(b', effs).
       op_bind (worker_loop R cfg scan workerID b' es) (\<lambda>rest. op_ret (effs @ rest)))"

definition worker_Start ::
  "'s redis \<Rightarrow> worker_cfg \<Rightarrow> (ScanJob \<Rightarrow> ('s, scan_end) op) \<Rightarrow> string \<Rightarrow> loop_event list \<Rightarrow> ('s, effect list) op" where
  "worker_Start R cfg scan workerID es =
     op_seq (op_ignore (RegisterWorker R workerID)) (worker_loop R cfg scan workerID popBackoffBase es)"

end
