(* ===== verification/Worker_Laws.thy ===== *)
theory Worker_Laws
  imports Worker
begin

text \<open>
  What the worker does with a job.  \<open>scan_contract\<close> is what processing relies on from a scan (it
  answers, and it touches nothing in Redis but the phase of the job); the stages of
  \<open>Scan_Stage\<close> provide it.  Under it, processing a job in a healthy world refines an abstract
  transition on the lists of the queue; the safety of acknowledging holds for any network.
\<close>

section \<open>The contract of a scan\<close>

definition phase_only :: "string \<Rightarrow> keyspace \<Rightarrow> keyspace \<Rightarrow> bool" where
  "phase_only i v v' \<longleftrightarrow>
     k_list v' = k_list v \<and> k_set v' = k_set v \<and> k_str v' = k_str v \<and>
     (\<forall>k f. k \<noteq> jobKey i \<or> f \<noteq> ''phase'' \<longrightarrow> k_hash v' k f = k_hash v k f)"

lemma phase_only_refl [simp]: "phase_only i v v"
  by (simp add: phase_only_def)

lemma phase_only_hset: "phase_only i u v \<Longrightarrow> phase_only i u (ks_hset (jobKey i) [(''phase'', p)] v)"
  by (simp add: phase_only_def)

locale scan_contract = redis_server R for R :: "'s redis" +
  fixes scan :: "ScanJob \<Rightarrow> ('s, scan_end) op" and out :: "ScanJob \<Rightarrow> scan_end"
  assumes scan_answers: "wp C (scan job) (\<lambda>r s'. r = Inr (out job) \<and> phase_only (ID job) (view R s) (view R s')) s"

text \<open>What the stages of the pipeline answer, as a function.\<close>

definition gate_result ::
  "scan_host \<Rightarrow> ('m, 'f) stages \<Rightarrow> ScanJob \<Rightarrow> (string \<Rightarrow> go_error + gin_H) \<Rightarrow> go_error + gin_H" where
  "gate_result H T job k =
     (case st_workspace T of
        Some e \<Rightarrow> Inl (Errorf (''failed to create workspace: '' @ err_msg e) [])
      | None \<Rightarrow>
          if st_ctx_done T then Inl (Errorf ''job cancelled'' [])
          else (case resolveAPKPath H job (GetTmpDir (NewJobContextForID (st_uuid T) (ID job))) of
             (Inl e, _) \<Rightarrow> Inl e
           | (Inr p, fs) \<Rightarrow>
               if CheckAPKSafe (st_limits T) (open_zip H fs p) \<noteq> Safe
               then Inl (safety_error (st_guard_text T (CheckAPKSafe (st_limits T) (open_zip H fs p))))
               else (case st_duplicate T p of Some resp \<Rightarrow> Inr resp | None \<Rightarrow> k p)))"

definition apk_result :: "scan_host \<Rightarrow> ('m, 'f) stages \<Rightarrow> ScanJob \<Rightarrow> go_error + gin_H" where
  "apk_result H T job =
     gate_result H T job (\<lambda>p. case st_metadata T p of
        Inl e \<Rightarrow> Inl (Errorf (''metadata extraction failed: '' @ err_msg e) [e])
      | Inr md \<Rightarrow> (case st_secrets T p of
          Inl e \<Rightarrow> Inl (Errorf (''secret scan failed: '' @ err_msg e) [e])
        | Inr found \<Rightarrow> (case st_assemble T job p md (st_postprocess T found) of
            Inl e \<Rightarrow> Inl (Errorf (''failed to marshal scanner data: '' @ err_msg e) [])
          | Inr resp \<Rightarrow> Inr resp)))"

definition ipa_result ::
  "scan_host \<Rightarrow> ('m, 'f) stages \<Rightarrow> (string \<Rightarrow> go_error + 'm \<times> 'f) \<Rightarrow> ('m \<Rightarrow> 'f \<Rightarrow> ScanJob \<Rightarrow> gin_H) \<Rightarrow> ScanJob \<Rightarrow> go_error + gin_H" where
  "ipa_result H T extract build job =
     gate_result H T job (\<lambda>p. case extract p of
        Inl e \<Rightarrow> Inl (Errorf (''ios extraction failed: '' @ err_msg e) [e])
      | Inr (md, found) \<Rightarrow> Inr (build md (st_postprocess T found) job))"

text \<open>Setting a phase answers nothing and only changes the phase.\<close>

lemma wp_phase:
  assumes "redis_server R"
    and "\<And>s'. phase_only (ID job) (view R s) (view R s') \<Longrightarrow> wp C m Q s'"
  shows "wp C (op_seq (op_ignore (SetJobPhase R (ID job) p)) m) Q s"
  unfolding SetJobPhase_def
  by (intro wp_step_seq assms(2)) (simp add: write_cmd_def redis_view assms(1) phase_only_hset)

lemma phase_only_trans: "phase_only i u v \<Longrightarrow> phase_only i v x \<Longrightarrow> phase_only i u x"
  by (simp add: phase_only_def)

abbreviation scan_post :: "'s redis \<Rightarrow> ScanJob \<Rightarrow> 's \<Rightarrow> 'a \<Rightarrow> go_error + 'a \<Rightarrow> 's \<Rightarrow> bool" where
  "scan_post R job s x \<equiv> \<lambda>r s'. r = Inr x \<and> phase_only (ID job) (view R s) (view R s')"

lemma wp_scan_gate:
  assumes R: "redis_server R"
    and k: "\<And>p s1. phase_only (ID job) (view R s) (view R s1) \<Longrightarrow> wp C (k p) (scan_post R job s (kr p)) s1"
  shows "wp C (scan_gate R H T job k) (scan_post R job s (gate_result H T job kr)) s"
proof (cases "st_workspace T")
  case None
  show ?thesis
    unfolding scan_gate_def gate_result_def None option.case Let_def
    by (rule wp_phase [OF R])
      (auto intro!: wp_ret k split: prod.split sum.split option.split)
qed (simp add: scan_gate_def gate_result_def wp_ret)

text \<open>
  A phase followed by a stage that answers an error or goes on.
\<close>

lemma wp_stage:
  assumes R: "redis_server R" and s1: "phase_only (ID job) (view R s) (view R s1)"
    and k: "\<And>a s2. phase_only (ID job) (view R s) (view R s2) \<Longrightarrow> wp C (k a) (scan_post R job s (kr a)) s2"
  shows "wp C (op_seq (op_ignore (SetJobPhase R (ID job) p)) (case x of Inl e \<Rightarrow> op_ret (Inl (f e)) | Inr a \<Rightarrow> k a))
    (scan_post R job s (case x of Inl e \<Rightarrow> Inl (f e) | Inr a \<Rightarrow> kr a)) s1"
proof (rule wp_phase [OF R])
  fix s2 assume "phase_only (ID job) (view R s1) (view R s2)"
  with s1 have s2: "phase_only (ID job) (view R s) (view R s2)" by (rule phase_only_trans)
  then show "wp C (case x of Inl e \<Rightarrow> op_ret (Inl (f e)) | Inr a \<Rightarrow> k a)
    (scan_post R job s (case x of Inl e \<Rightarrow> Inl (f e) | Inr a \<Rightarrow> kr a)) s2"
    by (cases x) (simp_all add: wp_ret k)
qed

lemma wp_last_stage:
  assumes R: "redis_server R" and s1: "phase_only (ID job) (view R s) (view R s1)"
  shows "wp C (op_seq (op_ignore (SetJobPhase R (ID job) p)) (op_ret x)) (scan_post R job s x) s1"
  using s1 by (intro wp_phase [OF R] wp_ret) (blast intro: phase_only_trans)

lemma wp_scanAPK:
  assumes R: "redis_server R"
  shows "wp C (scanAPK R H T job) (scan_post R job s (apk_result H T job)) s"
  unfolding scanAPK_def apk_result_def
  by (intro wp_scan_gate wp_stage wp_last_stage R) assumption+

lemma wp_scanIPA:
  assumes R: "redis_server R"
  shows "wp C (scanIPA R H T extract build job) (scan_post R job s (ipa_result H T extract build job)) s"
  unfolding scanIPA_def ipa_result_def case_prod_beta
  by (intro wp_scan_gate wp_stage wp_last_stage R) assumption+

definition pipeline_end ::
  "scan_host \<Rightarrow> ('m, 'f) stages \<Rightarrow> (string \<Rightarrow> go_error + 'm \<times> 'f) \<Rightarrow> ('m \<Rightarrow> 'f \<Rightarrow> ScanJob \<Rightarrow> gin_H) \<Rightarrow> string option \<Rightarrow> ScanJob \<Rightarrow> scan_end" where
  "pipeline_end H T extract build t job =
     Returned (if toLower (FileType job) = ''ipa'' then ipa_result H T extract build job else apk_result H T job) t"

lemma pipeline_contract:
  assumes R: "redis_server R"
  shows "scan_contract R (scan_dispatch (scanAPK R H T) (scanIPA R H T extract build) t) (pipeline_end H T extract build t)"
proof (intro scan_contract.intro scan_contract_axioms.intro R)
  fix C job s
  show "wp C (scan_dispatch (scanAPK R H T) (scanIPA R H T extract build) t job)
     (\<lambda>r s'. r = Inr (pipeline_end H T extract build t job) \<and> phase_only (ID job) (view R s) (view R s')) s"
  proof (cases "toLower (FileType job) = ''ipa''")
    case True
    show ?thesis
      unfolding scan_dispatch_def pipeline_end_def if_P [OF True]
      by (rule wp_bind, rule wp_mono [OF wp_scanIPA [OF R]]) (auto intro: wp_ret)
  next
    case False
    show ?thesis
      unfolding scan_dispatch_def pipeline_end_def if_not_P [OF False]
      by (rule wp_bind, rule wp_mono [OF wp_scanAPK [OF R]]) (auto intro: wp_ret)
  qed
qed

interpretation mem_scan: scan_contract "mem_redis ks ms"
    "scan_dispatch (scanAPK (mem_redis ks ms) H T) (scanIPA (mem_redis ks ms) H T extract build) t"
    "pipeline_end H T extract build t"
  by (rule pipeline_contract) (rule mem.redis_server_axioms)

section \<open>The abstract transition\<close>

text \<open>
  What happens to a job after its scan: it is completed with a result, queued again, or moved to the
  dead-letter list.
\<close>

datatype verdict = Complete string | Requeue go_error | DeadLetter go_error

definition failure_verdict :: "worker_cfg \<Rightarrow> ScanJob \<Rightarrow> go_error \<Rightarrow> verdict" where
  "failure_verdict cfg job e =
     (if isRetryable (Some e) \<and> RetryCount job + 1 < workerMaxRetries cfg then Requeue e else DeadLetter e)"

definition scan_verdict :: "worker_cfg \<Rightarrow> ScanJob \<Rightarrow> scan_end \<Rightarrow> verdict" where
  "scan_verdict cfg job out =
     (case out of
        Panicked m \<Rightarrow> failure_verdict cfg job (Errorf (''panic in scan: '' @ m) [])
      | Returned (Inl e) t \<Rightarrow> failure_verdict cfg job (timeout_error t e)
      | Returned (Inr res) t \<Rightarrow>
          (case encode_result res of
             Inr body \<Rightarrow> Complete body
           | Inl e \<Rightarrow> failure_verdict cfg job (Errorf (''failed to marshal result: '' @ err_msg e) [e])))"

fun final_job :: "verdict \<Rightarrow> ScanJob \<Rightarrow> go_time \<Rightarrow> ScanJob" where
  "final_job (Complete body) job now = completed_job job now body"
| "final_job (Requeue e) job now = (failed_job job now e)\<lparr>Status := JobStatusQueued, StartedAt := None, WorkerID := []\<rparr>"
| "final_job (DeadLetter e) job now = failed_job job now e"

fun moved :: "verdict \<Rightarrow> string \<Rightarrow> (key \<Rightarrow> string list) \<Rightarrow> key \<Rightarrow> string list" where
  "moved (Complete body) i l = l"
| "moved (Requeue e) i l = l(jobQueueKey := l jobQueueKey @ [i])"
| "moved (DeadLetter e) i l = l(dlqKey := i # l dlqKey)"

fun deletes_artifact :: "verdict \<Rightarrow> bool" where
  "deletes_artifact (Complete body) = True"
| "deletes_artifact (Requeue e) = False"
| "deletes_artifact (DeadLetter e) = True"

definition settled :: "verdict \<Rightarrow> ScanJob \<Rightarrow> go_time \<Rightarrow> effect list \<Rightarrow> keyspace \<Rightarrow> keyspace \<Rightarrow> bool" where
  "settled vd job now effs v v' \<longleftrightarrow>
     (\<forall>k. k \<noteq> jobLeaseKey (ID job) \<longrightarrow> k_list v' k = moved vd (ID job) (k_list v) k) \<and>
     k_hash v' (jobKey (ID job)) = written (k_hash v (jobKey (ID job))) (final_job vd job now) \<and>
     (DeleteArtifact (StorageKey job) \<in> set effs \<longleftrightarrow> deletes_artifact vd \<and> StorageKey job \<noteq> [])"

lemma failed_job_sel [simp]:
  "ID (failed_job job now e) = ID job" "RetryCount (failed_job job now e) = RetryCount job + 1"
  "StorageKey (failed_job job now e) = StorageKey job" "WebhookURL (failed_job job now e) = WebhookURL job"
  by (simp_all add: failed_job_def)

lemma effect_sets [simp]:
  "DeleteArtifact k \<in> set (dispatchWebhook job r b) \<longleftrightarrow> False"
  "DeleteArtifact (StorageKey job) \<in> set (deleteUploadedArtifact job) \<longleftrightarrow> StorageKey job \<noteq> []"
  by (simp_all add: dispatchWebhook_def deleteUploadedArtifact_def)

lemma wp_Push:
  "redis_server R \<Longrightarrow> wp C (PushJob R i) (\<lambda>r s'. r = Inr () \<and> view R s' = ks_rpush jobQueueKey i (view R s)) s"
  unfolding PushJob_def by (intro wp_rules) (simp add: write_cmd_def redis_view)

lemma wp_CheckLease:
  "wp C (CheckJobLease R i wid)
    (\<lambda>r s'. s' = s \<and> r = Inr (case k_str (view R s) (jobLeaseKey i) of
        None \<Rightarrow> (True, None) | Some ow \<Rightarrow> (ow = [] \<or> ow = wid, None))) s"
  unfolding CheckJobLease_def
  by (intro wp_steps wp_ret) (simp add: read_cmd_def Let_def split: option.split)

text \<open>The worker holds the lease, or nobody does.\<close>

definition lease_free :: "string \<Rightarrow> string \<Rightarrow> keyspace \<Rightarrow> bool" where
  "lease_free i wid v \<longleftrightarrow> k_str v (jobLeaseKey i) \<in> {None, Some [], Some wid}"

lemma wp_owned:
  assumes "lease_free i wid (view R s)" "wp C m Q s"
  shows "wp C (op_bind (CheckJobLease R i wid) (\<lambda>(owns, lerr). if lerr = None \<and> \<not> owns then n else m)) Q s"
  by (rule wp_bind, rule wp_mono [OF wp_CheckLease]) (use assms in \<open>auto simp: lease_free_def\<close>)

lemma wp_update_then:
  assumes R: "redis_server R"
    and m: "\<And>s'. updated job (view R s) (view R s') \<Longrightarrow> wp C m Q s'"
  shows "wp C (op_bind (op_try (UpdateJob R job)) (\<lambda>u. case u of Inl e \<Rightarrow> n e | Inr x \<Rightarrow> m)) Q s"
  by (intro wp_bind wp_try wp_mono [OF wp_Update [OF R]]) (use m in auto)

lemma wp_requeue_failed:
  assumes R: "redis_server R"
  shows "wp C (requeue_failed R cfg (failed_job job now e))
    (\<lambda>r s'. \<exists>effs. r = Inr (True, effs) \<and> settled (Requeue e) job now effs (view R s) (view R s')) s"
  unfolding requeue_failed_def Let_def
  by (rule wp_update_then [OF R], rule wp_seq, rule wp_ignore, rule wp_mono [OF wp_Push [OF R]])
    (auto intro!: wp_ret simp: settled_def updated_def)

lemma wp_dead_letter:
  assumes R: "redis_server R"
  shows "wp C (dead_letter R (failed_job job now e))
    (\<lambda>r s'. \<exists>effs. r = Inr (True, effs) \<and> settled (DeadLetter e) job now effs (view R s) (view R s')) s"
  unfolding dead_letter_def
  using effect_sets(2) [of "failed_job job now e"]
  by (intro wp_update_then [OF R] wp_seq wp_ignore wp_mono [OF wp_MoveToDLQ [OF R]])
    (auto intro!: wp_ret simp: settled_def updated_def Let_def)

lemma wp_failure:
  assumes R: "redis_server R" and l: "lease_free (ID job) wid (view R s)"
  shows "wp C (handleJobFailure R cfg wid job e)
    (\<lambda>r s'. \<exists>effs now. C now \<and> r = Inr (True, effs) \<and>
       settled (failure_verdict cfg job e) job now effs (view R s) (view R s')) s"
  unfolding handleJobFailure_def Let_def
proof (rule wp_owned [OF l], rule wp_step_now, rule wp_if)
  fix now assume "C now" and "isRetryable (Some e) \<and> RetryCount (failed_job job now e) < workerMaxRetries cfg"
  then show "wp C (requeue_failed R cfg (failed_job job now e)) (\<lambda>r s'. \<exists>effs now. C now \<and> r = Inr (True, effs) \<and>
       settled (failure_verdict cfg job e) job now effs (view R s) (view R s')) s"
    by (intro wp_mono [OF wp_requeue_failed [OF R]]) (auto simp: failure_verdict_def)
next
  fix now assume "C now" and "\<not> (isRetryable (Some e) \<and> RetryCount (failed_job job now e) < workerMaxRetries cfg)"
  then show "wp C (dead_letter R (failed_job job now e)) (\<lambda>r s'. \<exists>effs now. C now \<and> r = Inr (True, effs) \<and>
       settled (failure_verdict cfg job e) job now effs (view R s) (view R s')) s"
    by (intro wp_mono [OF wp_dead_letter [OF R]]) (auto simp: failure_verdict_def)
qed

lemma lease_key_distinct [simp]:
  "jobKey i \<noteq> jobLeaseKey i" "jobLeaseKey i \<noteq> jobKey i" "jobLeaseKey i \<noteq> jobQueueKey" "jobLeaseKey i \<noteq> dlqKey"
  "jobLeaseKey i \<noteq> processingKey w" "jobQueueKey \<noteq> jobLeaseKey i" "dlqKey \<noteq> jobLeaseKey i" "processingKey w \<noteq> jobLeaseKey i"
  by (auto simp: key_defs dest: arg_cong [where f = length])

lemma completed_job_sel [simp]:
  "ID (completed_job job now body) = ID job" "StorageKey (completed_job job now body) = StorageKey job"
  "Status (completed_job job now body) = JobStatusCompleted"
  by (simp_all add: completed_job_def)

lemma wp_persist:
  assumes R: "redis_server R"
  shows "wp C (persist_completed R (completed_job job now body) res)
    (\<lambda>r s'. \<exists>effs. r = Inr (True, effs) \<and> settled (Complete body) job now effs (view R s) (view R s')) s"
  unfolding persist_completed_def ClearJobLease_def
  using effect_sets(2) [of "completed_job job now body"]
  by (intro wp_update_then [OF R] wp_step_seq wp_ret)
    (auto simp: settled_def updated_def write_cmd_def redis_view R completed_job_def [symmetric])

lemma wp_success:
  assumes R: "redis_server R" and l: "lease_free (ID job) wid (view R s)"
  shows "wp C (handleJobSuccess R cfg wid job res)
    (\<lambda>r s'. \<exists>effs now. C now \<and> r = Inr (True, effs) \<and>
       settled (scan_verdict cfg job (Returned (Inr res) t)) job now effs (view R s) (view R s')) s"
proof (cases "encode_result res")
  case (Inl e)
  show ?thesis unfolding handleJobSuccess_def Inl sum.case
    by (rule wp_owned [OF l], rule wp_mono [OF wp_failure [OF R l]]) (auto simp: scan_verdict_def Inl)
next
  case (Inr body)
  show ?thesis unfolding handleJobSuccess_def Inr sum.case
    by (rule wp_owned [OF l], rule wp_step_now, rule wp_mono [OF wp_persist [OF R]]) (auto simp: scan_verdict_def Inr)
qed

section \<open>Processing refines the transition\<close>

lemma Status_FromMap: "Status (FromMap (convertMap h) zero_job) = (case h ''status'' of Some st \<Rightarrow> st | None \<Rightarrow> [])"
  by (simp add: FromMap_def str_field_convert zero_job_def)

lemma ID_FromMap: "ID (FromMap (convertMap h) zero_job) = (case h ''id'' of Some x \<Rightarrow> x | None \<Rightarrow> [])"
  by (simp add: FromMap_def str_field_convert zero_job_def)

lemma wp_after_scan:
  assumes R: "redis_server R" and l: "lease_free (ID job) wid (view R s)"
    and st: "k_hash (view R s) (jobKey (ID job)) ''status'' = Some JobStatusProcessing"
  shows "wp C (after_scan R cfg wid (ID job) job out)
    (\<lambda>r s'. \<exists>effs now. C now \<and> r = Inr (True, effs) \<and>
       settled (scan_verdict cfg job out) job now effs (view R s) (view R s')) s"
proof (cases out)
  case (Panicked m)
  show ?thesis unfolding Panicked after_scan_def scan_end.case
    by (rule wp_mono [OF wp_failure [OF R l]]) (auto simp: scan_verdict_def)
next
  case (Returned x t)
  show ?thesis
  proof (cases x)
    case (Inr res)
    show ?thesis unfolding Returned Inr after_scan_def scan_end.case sum.case by (rule wp_success [OF R l])
  next
    case (Inl e)
    have ne: "k_hash (view R s) (jobKey (ID job)) \<noteq> Map.empty" using st by (metis option.distinct(1))
    show ?thesis
      unfolding Returned Inl after_scan_def scan_end.case sum.case
      by (rule wp_bind, rule wp_try, rule wp_mono [OF wp_GetJob])
        (use st ne in \<open>auto simp: Status_FromMap status_defs scan_verdict_def intro!: wp_mono [OF wp_failure [OF R l]]\<close>)
  qed
qed

abbreviation stored_job_of :: "(string \<rightharpoonup> string) \<Rightarrow> ScanJob" where
  "stored_job_of h \<equiv> FromMap (convertMap h) zero_job"

lemma started_sel [simp]:
  "ID (started job wid now) = ID job" "StorageKey (started job wid now) = StorageKey job"
  "RetryCount (started job wid now) = RetryCount job" "Status (started job wid now) = JobStatusProcessing"
  "APKPath (started job wid now) = APKPath job" "FileType (started job wid now) = FileType job"
  by (simp_all add: started_def)

definition runnable :: "string \<Rightarrow> (string \<rightharpoonup> string) \<Rightarrow> bool" where
  "runnable i h \<longleftrightarrow> h ''id'' = Some i \<and> h ''status'' \<in> {Some JobStatusQueued, Some JobStatusProcessing}"

text \<open>What processing establishes, with the hash \<open>h2\<close> that the final write overlays.\<close>

definition processed ::
  "worker_cfg \<Rightarrow> (ScanJob \<Rightarrow> scan_end) \<Rightarrow> (go_time \<Rightarrow> bool) \<Rightarrow> string \<Rightarrow> string \<Rightarrow> effect list \<Rightarrow> keyspace \<Rightarrow> keyspace \<Rightarrow> bool" where
  "processed cfg out C wid i effs v v' \<longleftrightarrow>
     (\<exists>now fin h2. C now \<and> C fin \<and>
       (let job = started (stored_job_of (k_hash v (jobKey i))) wid now; vd = scan_verdict cfg job (out job) in
        (\<forall>k. k \<noteq> jobLeaseKey i \<longrightarrow>
           k_list v' k = ((moved vd i (k_list v))(processingKey wid := remove1 i (k_list v (processingKey wid)))) k) \<and>
        (\<forall>f. f \<noteq> ''phase'' \<longrightarrow> h2 f = written (k_hash v (jobKey i)) job f) \<and>
        k_hash v' (jobKey i) = written h2 (final_job vd job fin) \<and>
        (DeleteArtifact (StorageKey job) \<in> set effs \<longleftrightarrow> deletes_artifact vd \<and> StorageKey job \<noteq> [])))"

lemma processedE:
  assumes "processed cfg out C wid i effs v v'"
  obtains now fin h2 job vd where "C now" "C fin" "job = started (stored_job_of (k_hash v (jobKey i))) wid now"
    "vd = scan_verdict cfg job (out job)"
    "\<And>k. k \<noteq> jobLeaseKey i \<Longrightarrow>
       k_list v' k = ((moved vd i (k_list v))(processingKey wid := remove1 i (k_list v (processingKey wid)))) k"
    "k_hash v' (jobKey i) = written h2 (final_job vd job fin)"
    "DeleteArtifact (StorageKey job) \<in> set effs \<longleftrightarrow> deletes_artifact vd \<and> StorageKey job \<noteq> []"
  using assms unfolding processed_def Let_def
  by (elim exE conjE) (rule that [OF _ _ refl refl], assumption, assumption, erule allE, erule mp, assumption+)

text \<open>The state a scan starts in: the job is marked, and the lease is the worker's.\<close>

definition claimed :: "ScanJob \<Rightarrow> string \<Rightarrow> keyspace \<Rightarrow> keyspace \<Rightarrow> bool" where
  "claimed job wid v v1 \<longleftrightarrow>
     (\<forall>k. k \<noteq> jobLeaseKey (ID job) \<longrightarrow> k_list v1 k = k_list v k) \<and>
     (\<forall>f. f \<noteq> ''phase'' \<longrightarrow> k_hash v1 (jobKey (ID job)) f = written (k_hash v (jobKey (ID job))) job f) \<and>
     lease_free (ID job) wid v1"

lemma claimed_phase: "claimed job wid v v1 \<Longrightarrow> phase_only (ID job) v1 v2 \<Longrightarrow> claimed job wid v v2"
  by (simp add: claimed_def phase_only_def lease_free_def)

lemma claimed_set_ex:
  assumes "updated job v v1"
  shows "claimed job wid v (ks_set_ex (jobLeaseKey (ID job)) wid n v1)"
  using assms by (simp add: claimed_def updated_def lease_free_def)

lemma wp_process_body:
  assumes C: "scan_contract R scan out" and run: "runnable i (k_hash (view R s) (jobKey i))"
  shows "wp C (process_body R cfg scan wid i)
    (\<lambda>r s'. \<exists>effs now fin v1. r = Inr (True, effs) \<and> C now \<and> C fin \<and>
       (let job = started (stored_job_of (k_hash (view R s) (jobKey i))) wid now in
        claimed job wid (view R s) v1 \<and> settled (scan_verdict cfg job (out job)) job fin effs v1 (view R s'))) s"
    (is "wp C _ ?Q s")
proof -
  have R: "redis_server R" using C by (simp add: scan_contract_def)
  let ?h = "k_hash (view R s) (jobKey i)"
  let ?job = "stored_job_of ?h"
  have ne: "?h \<noteq> Map.empty" and id: "ID ?job = i" and st: "Status ?job = JobStatusQueued \<or> Status ?job = JobStatusProcessing"
    using run by (auto simp: runnable_def ID_FromMap Status_FromMap)
  have scan: "wp C (op_bind (scan job) (after_scan R cfg wid i job)) ?Q s1"
    if job: "job = started ?job wid now" and "C now" and cl: "claimed job wid (view R s) (view R s1)" for job now s1
  proof (rule wp_bind, rule wp_mono [OF scan_contract.scan_answers [OF C]])
    fix r :: "go_error + scan_end" and s2 assume "r = Inr (out job) \<and> phase_only (ID job) (view R s1) (view R s2)"
    then have r: "r = Inr (out job)" and cl2: "claimed job wid (view R s) (view R s2)"
      using claimed_phase [OF cl] by auto
    have "k_hash (view R s2) (jobKey (ID job)) ''status'' = Some JobStatusProcessing"
      using cl2 job by (simp add: claimed_def written_always)
    moreover have "lease_free (ID job) wid (view R s2)" using cl2 by (simp add: claimed_def)
    ultimately have after: "wp C (after_scan R cfg wid (ID job) job (out job))
      (\<lambda>r s'. \<exists>effs now. C now \<and> r = Inr (True, effs) \<and> settled (scan_verdict cfg job (out job)) job now effs (view R s2) (view R s')) s2"
      by (intro wp_after_scan R)
    have "ID job = i" using id job by simp
    from after [unfolded this] have "wp C (after_scan R cfg wid i job (out job)) ?Q s2"
      by (rule wp_mono) (use job \<open>C now\<close> cl2 in \<open>auto simp: Let_def\<close>)
    then show "case r of Inl e \<Rightarrow> ?Q (Inl e) s2 | Inr a \<Rightarrow> wp C (after_scan R cfg wid i job a) ?Q s2"
      by (simp add: r)
  qed
  have go: "wp C (op_bind op_now (\<lambda>now. op_bind (op_try (UpdateJob R (started ?job wid now))) (\<lambda>u. case u of
             Inl _ \<Rightarrow> op_ret (True, [])
           | Inr _ \<Rightarrow> op_seq (op_ignore (SetJobLease R i wid))
               (op_bind (CheckJobLease R i wid) (\<lambda>(owns, lerr).
                 if lerr = None \<and> \<not> owns then op_ret (True, [])
                 else op_bind (scan (started ?job wid now)) (after_scan R cfg wid i (started ?job wid now))))))) ?Q s"
    unfolding SetJobLease_def
  proof (rule wp_step_now, rule wp_update_then [OF R], rule wp_step_seq)
    fix now s1 assume now: "C now" and u: "updated (started ?job wid now) (view R s) (view R s1)"
    let ?s2 = "snd (write_cmd (cmd_set_ex R (jobLeaseKey i) wid jobLeaseTTL) s1)"
    have cl: "claimed (started ?job wid now) wid (view R s) (view R ?s2)"
      using claimed_set_ex [OF u, of wid jobLeaseTTL] id by (simp add: write_cmd_def redis_view R)
    then have "lease_free i wid (view R ?s2)" using id by (simp add: claimed_def)
    then show "wp C (op_bind (CheckJobLease R i wid) (\<lambda>(owns, lerr).
                 if lerr = None \<and> \<not> owns then op_ret (True, [])
                 else op_bind (scan (started ?job wid now)) (after_scan R cfg wid i (started ?job wid now)))) ?Q ?s2"
      by (rule wp_owned) (rule scan [OF refl now cl])
  qed
  show ?thesis
    unfolding process_body_def
    by (rule wp_bind, rule wp_try, rule wp_mono [OF wp_GetJob])
      (use ne st go in \<open>auto simp: status_defs Let_def\<close>)
qed

lemma wp_Ack:
  "redis_server R \<Longrightarrow> wp C (op_ignore (AckJob R wid i)) (\<lambda>r s'. r = Inr () \<and> view R s' = ks_lrem (processingKey wid) i (view R s)) s"
  unfolding AckJob_def by (intro wp_ignore wp_step_seq wp_ret) (simp add: redis_view)

lemma wp_processJob:
  assumes C: "scan_contract R scan out" and run: "runnable i (k_hash (view R s) (jobKey i))"
  shows "wp C (processJob R cfg scan wid i)
    (\<lambda>r s'. \<exists>effs. r = Inr effs \<and> processed cfg out C wid i effs (view R s) (view R s')) s"
  unfolding processJob_def
proof (rule wp_bind, rule wp_mono [OF wp_process_body [OF C run, of C cfg wid]])
  fix r :: "go_error + bool \<times> effect list" and s1
  assume "\<exists>effs now fin v1. r = Inr (True, effs) \<and> C now \<and> C fin \<and>
       (let job = started (stored_job_of (k_hash (view R s) (jobKey i))) wid now in
        claimed job wid (view R s) v1 \<and> settled (scan_verdict cfg job (out job)) job fin effs v1 (view R s1))"
  then obtain effs now fin v1 job where r: "r = Inr (True, effs)" and t: "C now" "C fin"
    and job: "job = started (stored_job_of (k_hash (view R s) (jobKey i))) wid now"
    and cl: "claimed job wid (view R s) v1"
    and se: "settled (scan_verdict cfg job (out job)) job fin effs v1 (view R s1)" by (auto simp: Let_def)
  have id: "ID job = i" using run job by (simp add: runnable_def ID_FromMap)
  have R: "redis_server R" using C by (simp add: scan_contract_def)
  have lists: "k_list (ks_lrem (processingKey wid) i (view R s1)) k =
      ((moved (scan_verdict cfg job (out job)) i (k_list (view R s)))
        (processingKey wid := remove1 i (k_list (view R s) (processingKey wid)))) k" if "k \<noteq> jobLeaseKey i" for k
    using se cl that id by (cases "scan_verdict cfg job (out job)") (auto simp: settled_def claimed_def)
  have "processed cfg out C wid i effs (view R s) (ks_lrem (processingKey wid) i (view R s1))"
    unfolding processed_def Let_def
    by (intro exI [of _ now] exI [of _ fin] exI [of _ "k_hash v1 (jobKey i)"], unfold job [symmetric],
        intro conjI allI impI, rule t, rule t, rule lists, assumption)
      (use se cl id in \<open>simp_all add: settled_def claimed_def\<close>)
  then show "case r of Inl e \<Rightarrow> \<exists>effs. (Inl e :: go_error + effect list) = Inr effs \<and> processed cfg out C wid i effs (view R s) (view R s1)
    | Inr a \<Rightarrow> wp C (case a of (ackJob, effs) \<Rightarrow> op_seq (if ackJob then op_ignore (AckJob R wid i) else op_ret ()) (op_ret effs))
        (\<lambda>r s'. \<exists>effs. r = Inr effs \<and> processed cfg out C wid i effs (view R s) (view R s')) s1"
    unfolding r by simp (rule wp_seq, rule wp_mono [OF wp_Ack [OF R]], auto intro!: wp_ret)
qed

section \<open>Acknowledging, for any network\<close>

definition status_is :: "'s redis \<Rightarrow> string \<Rightarrow> JobStatus set \<Rightarrow> 's \<Rightarrow> bool" where
  "status_is R i A s \<longleftrightarrow> (\<exists>st\<in>A. k_hash (view R s) (jobKey i) ''status'' = Some st)"

lemma keeps_status_cmds:
  assumes R: "redis_server R"
  shows "keeps (status_is R i A) (rcall (write_cmd (cmd_expire R k n)))"
    "keeps (status_is R i A) (rcall (write_cmd (cmd_srem R k x)))"
    "keeps (status_is R i A) (rcall (write_cmd (cmd_sadd R k x)))"
    "keeps (status_is R i A) (rcall (write_cmd (cmd_rpush R k x)))"
    "keeps (status_is R i A) (rcall (write_cmd (cmd_del R (jobLeaseKey i))))"
    "keeps (status_is R i A) (rcall (moveToDLQScript R k1 k2 k3 k4 x))"
  by (auto intro!: keeps_rcall simp: status_is_def write_cmd_def moveToDLQScript_def redis_view R)

lemma keeps_status_sets:
  assumes R: "redis_server R"
  shows "keeps (status_is R i A) (update_status_sets R job old)"
  unfolding update_status_sets_def
  by (auto intro!: keeps_rules(3-) keeps_status_cmds [OF R])

lemma update_done:
  assumes R: "redis_server R"
  shows "hoare (\<lambda>_. True) (UpdateJob R job) (\<lambda>r s. is_ok r \<longrightarrow> status_is R (ID job) {Status job} s)"
  unfolding UpdateJob_def Let_def
proof (rule hoare_bind)
  show "hoare (\<lambda>_. True) (op_try (rcall (read_cmd (hget R (jobKey (ID job)) ''status'')))) (\<lambda>r s. is_ok r)"
    by (simp add: hoare_def op_try_def case_prod_beta)
next
  fix a
  let ?D = "status_is R (ID job) {Status job}"
  let ?rest = "\<lambda>old. op_seq (op_ignore (rcall (write_cmd (cmd_expire R (jobKey (ID job)) ttlSeconds)))) (update_status_sets R job old)"
  have rest: "hoare ?D (?rest old) (\<lambda>r s. is_ok r \<longrightarrow> ?D s)" for old
    by (rule hoare_conseq [OF hoare_keeps [of ?D]])
      (auto intro!: keeps_rules(3-) keeps_status_cmds [OF R] keeps_status_sets [OF R])
  have "hoare (\<lambda>_. True) (wrapv ''failed to update job: '' (redisDo (rcall (write_cmd (cmd_hset R (jobKey (ID job)) (job_fields job))))))
      (\<lambda>r s. is_ok r \<longrightarrow> ?D s)"
    using written_always(5) [of _ job]
    by (intro hoare_wrapv_done hoare_redisDo_done hoare_rcall_done)
      (simp add: status_is_def write_cmd_def redis_view R written_def)
  then show "hoare (\<lambda>s. is_ok (Inr a :: go_error + _)) (op_seq (wrapv ''failed to update job: ''
      (redisDo (rcall (write_cmd (cmd_hset R (jobKey (ID job)) (job_fields job))))))
      (?rest (case a of Inr (Some st) \<Rightarrow> st | _ \<Rightarrow> []))) (\<lambda>r s. is_ok r \<longrightarrow> ?D s)"
    by (intro hoare_seq_done [OF _ rest]) (simp_all add: hoare_def)
qed simp

lemma update_then_done:
  assumes R: "redis_server R"
    and "keeps (status_is R (ID job) {Status job}) m"
    and "\<And>e w. fst (n e w) \<noteq> Inr (True, effs)"
  shows "hoare (\<lambda>_. True) (op_bind (op_try (UpdateJob R job)) (\<lambda>u. case u of Inl e \<Rightarrow> n e | Inr x \<Rightarrow> m))
    (\<lambda>r s. r = Inr (True, effs) \<longrightarrow> status_is R (ID job) {Status job} s)"
  by (rule hoare_try_done [OF update_done [OF R]]) (use assms(2,3) in \<open>auto simp: hoare_def keeps_def\<close>)

lemma lease_taken:
  assumes "fst (CheckJobLease R i wid w) = Inr (False, e)"
  shows "\<exists>owner. k_str (view R (server w)) (jobLeaseKey i) = Some owner \<and> owner \<noteq> [] \<and> owner \<noteq> wid"
proof -
  obtain w1 got where c: "CheckJobLease R i wid w =
     (Inr (case got of Inl e \<Rightarrow> (True, Some e)
           | Inr None \<Rightarrow> (True, None)
           | Inr (Some owner) \<Rightarrow> if owner = [] then (True, None) else (owner = wid, None)), w1)"
    and g: "\<forall>x. got = Inr x \<longrightarrow> x = k_str (view R (server w)) (jobLeaseKey i)"
    using CheckJobLease_result [of R i wid w] by blast
  from assms c obtain owner where "got = Inr (Some owner)" "owner \<noteq> []" "owner \<noteq> wid"
    by (cases got) (auto split: option.splits if_splits)
  with g show ?thesis by (intro exI [of _ owner]) auto
qed

text \<open>A handler that is guarded by the lease: it was fenced off, or its body ran.\<close>

lemma hoare_guarded:
  fixes w :: "'s world" and g :: "('s, bool \<times> effect list) op"
  assumes g: "g = op_bind (CheckJobLease R i wid) (\<lambda>(owns, lerr). if lerr = None \<and> \<not> owns then op_ret (True, []) else m)"
    and body: "hoare (\<lambda>_. True) m (\<lambda>r s. r = Inr (True, effs) \<longrightarrow> D s)"
    and run: "fst (g w) = Inr (True, effs)"
  shows "(\<exists>owner. k_str (view R (server w)) (jobLeaseKey i) = Some owner \<and> owner \<noteq> [] \<and> owner \<noteq> wid) \<or> D (server (snd (g w)))"
proof -
  obtain x w1 where "CheckJobLease R i wid w = (Inr x, w1)"
    using CheckJobLease_result [of R i wid w] by blast
  then obtain owns lerr where c: "CheckJobLease R i wid w = (Inr (owns, lerr), w1)" by (cases x) simp
  show ?thesis
  proof (cases "lerr = None \<and> \<not> owns")
    case True
    with c have "fst (CheckJobLease R i wid w) = Inr (False, lerr)" by simp
    then show ?thesis using lease_taken by blast
  next
    case False
    then have "g w = m w1" by (auto simp: g op_bind_def c)
    then show ?thesis using hoareD [OF body, of w1] run by simp
  qed
qed

lemma hoare_now: "(\<And>t. hoare P (k t) Q) \<Longrightarrow> hoare P (op_bind op_now k) Q"
  by (auto simp: hoare_def op_bind_def op_now_def time_now_def case_prod_beta)

lemma failure_body_done:
  assumes R: "redis_server R"
  shows "hoare (\<lambda>_. True) (op_bind op_now (\<lambda>now. let job1 = failed_job job now err in
         if isRetryable (Some err) \<and> RetryCount job1 < workerMaxRetries cfg
         then requeue_failed R cfg job1 else dead_letter R job1))
    (\<lambda>r s. r = Inr (True, effs) \<longrightarrow> status_is R (ID job) {JobStatusQueued, JobStatusFailed} s)"
proof (rule hoare_now, unfold Let_def)
  fix now
  let ?j1 = "failed_job job now err" and ?j2 = "(failed_job job now err)\<lparr>Status := JobStatusQueued, StartedAt := None, WorkerID := []\<rparr>"
  have "hoare (\<lambda>_. True) (requeue_failed R cfg ?j1) (\<lambda>r s. r = Inr (True, effs) \<longrightarrow> status_is R (ID ?j2) {Status ?j2} s)"
    unfolding requeue_failed_def Let_def
    by (rule update_then_done [OF R]) (auto simp: PushJob_def op_ret_def intro!: keeps_rules(2-) keeps_status_cmds [OF R])
  moreover have "hoare (\<lambda>_. True) (dead_letter R ?j1) (\<lambda>r s. r = Inr (True, effs) \<longrightarrow> status_is R (ID ?j1) {Status ?j1} s)"
    unfolding dead_letter_def
    by (rule update_then_done [OF R]) (auto simp: MoveToDLQ_def op_ret_def intro!: keeps_rules(2-) keeps_status_cmds [OF R])
  ultimately show "hoare (\<lambda>_. True) (if isRetryable (Some err) \<and> RetryCount ?j1 < workerMaxRetries cfg
         then requeue_failed R cfg ?j1 else dead_letter R ?j1)
    (\<lambda>r s. r = Inr (True, effs) \<longrightarrow> status_is R (ID job) {JobStatusQueued, JobStatusFailed} s)"
    by (auto simp: hoare_def status_is_def failed_job_def)
qed

lemma persist_done:
  assumes R: "redis_server R"
  shows "hoare (\<lambda>_. True) (op_bind op_now (\<lambda>now. persist_completed R (completed_job job now body) res))
    (\<lambda>r s. r = Inr (True, effs) \<longrightarrow> status_is R (ID job) {JobStatusCompleted} s)"
proof (rule hoare_now)
  fix now
  have "hoare (\<lambda>_. True) (persist_completed R (completed_job job now body) res)
    (\<lambda>r s. r = Inr (True, effs) \<longrightarrow>
       status_is R (ID (completed_job job now body)) {Status (completed_job job now body)} s)"
    unfolding persist_completed_def
    by (rule update_then_done [OF R])
      (auto simp: ClearJobLease_def op_ret_def intro!: keeps_seq keeps_ignore keeps_ret keeps_status_cmds [OF R])
  then show "hoare (\<lambda>_. True) (persist_completed R (completed_job job now body) res)
    (\<lambda>r s. r = Inr (True, effs) \<longrightarrow> status_is R (ID job) {JobStatusCompleted} s)" by simp
qed

text \<open>
  C3.  A job is acknowledged only after its transition was written, whatever the network and the
  breaker do: when a handler allows the acknowledgement, either another worker holds the lease of the
  job, or the status stored for the job is the one the handler wrote.
\<close>
theorem ack_after_transition:
  fixes w :: "'s world"
  assumes "redis_server R"
  shows "(fst (handleJobFailure R cfg wid job err w) = Inr (True, effs) \<longrightarrow>
      (\<exists>owner. k_str (view R (server w)) (jobLeaseKey (ID job)) = Some owner \<and> owner \<noteq> [] \<and> owner \<noteq> wid) \<or>
      status_is R (ID job) {JobStatusQueued, JobStatusFailed} (server (snd (handleJobFailure R cfg wid job err w))))
    \<and> (fst (handleJobSuccess R cfg wid job (Gin ms) w) = Inr (True, effs) \<longrightarrow>
      (\<exists>owner. k_str (view R (server w)) (jobLeaseKey (ID job)) = Some owner \<and> owner \<noteq> [] \<and> owner \<noteq> wid) \<or>
      status_is R (ID job) {JobStatusCompleted} (server (snd (handleJobSuccess R cfg wid job (Gin ms) w))))"
proof (intro conjI impI)
  assume "fst (handleJobFailure R cfg wid job err w) = Inr (True, effs)"
  then show "(\<exists>owner. k_str (view R (server w)) (jobLeaseKey (ID job)) = Some owner \<and> owner \<noteq> [] \<and> owner \<noteq> wid) \<or>
      status_is R (ID job) {JobStatusQueued, JobStatusFailed} (server (snd (handleJobFailure R cfg wid job err w)))"
    by (rule hoare_guarded [OF handleJobFailure_def failure_body_done [OF assms]])
next
  assume "fst (handleJobSuccess R cfg wid job (Gin ms) w) = Inr (True, effs)"
  then show "(\<exists>owner. k_str (view R (server w)) (jobLeaseKey (ID job)) = Some owner \<and> owner \<noteq> [] \<and> owner \<noteq> wid) \<or>
      status_is R (ID job) {JobStatusCompleted} (server (snd (handleJobSuccess R cfg wid job (Gin ms) w)))"
    by (rule hoare_guarded [OF handleJobSuccess_def [of R cfg wid job "Gin ms", unfolded encode_result_def gin_H.case sum.case]
          persist_done [OF assms]])
qed

text \<open>
  C2.  Processing refines the abstract transition: in a healthy world a runnable job is marked, scanned,
  and then completed, queued again or dead-lettered as the verdict on the scan says; it leaves the
  processing list of the worker and enters exactly the list of its verdict; its hash is the final
  record; and its uploaded artifact is deleted unless it is to be tried again.
\<close>
theorem process_refines:
  fixes w :: "'s world"
  assumes "scan_contract R scan out" "calm C w" "runnable i (k_hash (view R (server w)) (jobKey i))"
  shows "\<exists>effs. fst (processJob R cfg scan wid i w) = Inr effs \<and>
    processed cfg out C wid i effs (view R (server w)) (view R (server (snd (processJob R cfg scan wid i w))))"
  using wpD [OF wp_processJob [OF assms(1,3)] assms(2)] by blast

section \<open>Unsafe archives\<close>

lemma str_contains_append: "str_contains (xs @ sub @ ys) sub"
  by (simp add: str_contains_iff)

lemma safety_not_retried: "\<not> isRetryable (Some (timeout_error t (safety_error d)))"
proof (cases t)
  case None
  then show ?thesis by (simp add: isRetryable_def timeout_error_def safety_error_def ErrNonRetryable_def)
next
  case (Some x)
  have "toLower (err_msg (timeout_error t (safety_error d))) =
      toLower (''scan timeout exceeded ('' @ x) @ ''): safety check failed''
      @ toLower ('': '' @ err_msg ErrNonRetryable @ '': '' @ d)"
    unfolding Some timeout_error_def safety_error_def option.case err_msg.simps
    using toLower_append [of "''): safety check failed: '' @ err_msg ErrNonRetryable @ '': '' @ d" "''scan timeout exceeded ('' @ x"]
    by (simp add: lower_char_def)
  then have "str_contains (toLower (err_msg (timeout_error t (safety_error d)))) ''safety check failed''"
    using str_contains_append [of "toLower (''scan timeout exceeded ('' @ x) @ ''): ''" "''safety check failed''"] by simp
  then have "contains_any (toLower (err_msg (timeout_error t (safety_error d))))
      [''safety check failed'', ''decompilation failed'', ''validation failed'']"
    by (simp add: contains_any_def)
  then show ?thesis
    by (simp add: isRetryable_def) (simp add: Some timeout_error_def ErrRetryable_def)
qed

lemma resolve_started: "resolveAPKPath H (started job wid now) d = resolveAPKPath H job d"
  by (simp add: resolveAPKPath_def Let_def)

lemma unsafe_pipeline:
  assumes "st_workspace T = None" "\<not> st_ctx_done T"
    "resolveAPKPath H job (GetTmpDir (NewJobContextForID (st_uuid T) (ID job))) = (Inr p, fs)"
    "CheckAPKSafe (st_limits T) (open_zip H fs p) \<noteq> Safe"
  shows "\<exists>e. scan_verdict cfg (started job wid now) (pipeline_end H T extract build t (started job wid now)) = DeadLetter e"
proof -
  have "\<exists>d. pipeline_end H T extract build t (started job wid now) = Returned (Inl (safety_error d)) t"
    using assms by (auto simp: pipeline_end_def apk_result_def ipa_result_def gate_result_def resolve_started)
  then show ?thesis using safety_not_retried by (auto simp: scan_verdict_def failure_verdict_def)
qed

text \<open>
  C5.  An archive the guard rejects is dead-lettered at its first attempt and never tried again, also
  when the deadline of the scan passed and the error is rewrapped as a timeout; whatever the
  analysers would answer.
\<close>
theorem unsafe_archive_dead_lettered:
  fixes w :: "'s world"
  assumes "redis_server R" "healthy w" "runnable i (k_hash (view R (server w)) (jobKey i))"
    "st_workspace T = None" "\<not> st_ctx_done T"
    "resolveAPKPath H (stored_job_of (k_hash (view R (server w)) (jobKey i))) (GetTmpDir (NewJobContextForID (st_uuid T) i)) = (Inr p, fs)"
    "CheckAPKSafe (st_limits T) (open_zip H fs p) \<noteq> Safe"
  shows "let w' = snd (processJob R cfg (scan_dispatch (scanAPK R H T) (scanIPA R H T extract build) t) wid i w);
             v = view R (server w); v' = view R (server w') in
    k_list v' dlqKey = i # k_list v dlqKey \<and> k_list v' jobQueueKey = k_list v jobQueueKey
    \<and> k_hash v' (jobKey i) ''status'' = Some JobStatusFailed"
proof -
  let ?job = "stored_job_of (k_hash (view R (server w)) (jobKey i))"
  have id: "ID ?job = i" using assms(3) by (simp add: runnable_def ID_FromMap)
  let ?w = "snd (processJob R cfg (scan_dispatch (scanAPK R H T) (scanIPA R H T extract build) t) wid i w)"
  obtain effs where "processed cfg (pipeline_end H T extract build t) (\<lambda>_. True) wid i effs (view R (server w)) (view R (server ?w))"
    using wpD [OF wp_processJob [OF pipeline_contract [OF assms(1)] assms(3)] assms(2)] by blast
  then obtain now fin h2 job vd where job: "job = started ?job wid now"
    and vd: "vd = scan_verdict cfg job (pipeline_end H T extract build t job)"
    and l: "\<And>k. k \<noteq> jobLeaseKey i \<Longrightarrow> k_list (view R (server ?w)) k =
      ((moved vd i (k_list (view R (server w))))(processingKey wid := remove1 i (k_list (view R (server w)) (processingKey wid)))) k"
    and h: "k_hash (view R (server ?w)) (jobKey i) = written h2 (final_job vd job fin)"
    by (elim processedE) (rule that; assumption)
  have "\<exists>e. vd = DeadLetter e"
    unfolding vd job by (rule unsafe_pipeline) (use assms id in simp_all)
  then obtain e where "vd = DeadLetter e" ..
  with l [of dlqKey] l [of jobQueueKey] h show ?thesis
    by (simp add: Let_def written_always) (simp add: failed_job_def)
qed

section \<open>Retries end\<close>

lemma RetryCount_written: "in_int64 (RetryCount j) \<Longrightarrow> RetryCount (stored_job_of (written h j)) = RetryCount j"
  by (simp add: FromMap_def int_field_convert written_always)

lemma wp_Pop_view:
  assumes "redis_server R" "k_list (view R s) jobQueueKey = x # xs"
  shows "wp C (PopJobReliable R wid) (\<lambda>r s'. r = Inr x \<and> view R s' = ks_lmove jobQueueKey (processingKey wid) (view R s)) s"
  unfolding PopJobReliable_def using assms by (intro wp_steps) (simp add: redis_view wp_ret)

text \<open>The only job in the queue, tried \<open>c\<close> times so far, with \<open>d\<close> the dead-letter list.\<close>

definition waiting :: "string \<Rightarrow> string \<Rightarrow> int \<Rightarrow> string list \<Rightarrow> keyspace \<Rightarrow> bool" where
  "waiting i wid c d v \<longleftrightarrow>
     k_list v jobQueueKey = [i] \<and> k_list v (processingKey wid) = [] \<and> k_list v dlqKey = d \<and>
     runnable i (k_hash v (jobKey i)) \<and> RetryCount (stored_job_of (k_hash v (jobKey i))) = c"

definition buried :: "string \<Rightarrow> string \<Rightarrow> string list \<Rightarrow> keyspace \<Rightarrow> bool" where
  "buried i wid d v \<longleftrightarrow> k_list v jobQueueKey = [] \<and> k_list v (processingKey wid) = [] \<and> k_list v dlqKey = i # d"

text \<open>A scan that always fails, with an error worth a retry.\<close>

definition always_fails :: "(ScanJob \<Rightarrow> scan_end) \<Rightarrow> bool" where
  "always_fails out \<longleftrightarrow> (\<forall>job. \<exists>e t. out job = Returned (Inl e) t \<and> isRetryable (Some (timeout_error t e)))"

lemma turn_fails:
  assumes C: "scan_contract R scan out" and f: "always_fails out" and q: "waiting i wid c d (view R s)"
    and c: "in_int64 (c + 1)"
  shows "wp C (worker_turn R cfg scan wid b)
    (\<lambda>r s'. (\<exists>b' effs. r = Inr (b', effs)) \<and>
      (if c + 1 < workerMaxRetries cfg then waiting i wid (c + 1) d (view R s') else buried i wid d (view R s'))) s"
  unfolding worker_turn_def
proof (rule wp_bind, rule wp_try)
  have R: "redis_server R" using C by (simp add: scan_contract_def)
  have q1: "k_list (view R s) jobQueueKey = [i]" using q by (simp add: waiting_def)
  let ?v = "ks_lmove jobQueueKey (processingKey wid) (view R s)"
  have v: "k_list ?v jobQueueKey = []" "k_list ?v (processingKey wid) = [i]" "k_list ?v dlqKey = d"
    "k_hash ?v (jobKey i) = k_hash (view R s) (jobKey i)"
    using q by (simp_all add: waiting_def k_list_lmove)
  have step: "if c + 1 < workerMaxRetries cfg then waiting i wid (c + 1) d v' else buried i wid d v'"
    if "processed cfg out C wid i effs ?v v'" for effs v'
    using that
  proof (rule processedE)
    fix now fin h2 job vd
    assume job: "job = started (stored_job_of (k_hash ?v (jobKey i))) wid now" and vd: "vd = scan_verdict cfg job (out job)"
      and l: "\<And>k. k \<noteq> jobLeaseKey i \<Longrightarrow> k_list v' k = ((moved vd i (k_list ?v))(processingKey wid := remove1 i (k_list ?v (processingKey wid)))) k"
      and h: "k_hash v' (jobKey i) = written h2 (final_job vd job fin)"
    obtain e t where e: "out job = Returned (Inl e) t" "isRetryable (Some (timeout_error t e))"
      using f unfolding always_fails_def by blast
    have rc: "RetryCount job = c" "ID job = i"
      using q v(4) job by (simp_all add: waiting_def runnable_def ID_FromMap)
    show ?thesis
    proof (cases "c + 1 < workerMaxRetries cfg")
      case True
      then have "vd = Requeue (timeout_error t e)" using vd e rc by (simp add: scan_verdict_def failure_verdict_def)
      with True l [of jobQueueKey] l [of "processingKey wid"] l [of dlqKey] v h rc c
      show ?thesis
        by (simp add: waiting_def runnable_def written_always RetryCount_written)
    next
      case False
      then have "vd = DeadLetter (timeout_error t e)" using vd e rc by (simp add: scan_verdict_def failure_verdict_def)
      with False l [of jobQueueKey] l [of "processingKey wid"] l [of dlqKey] v show ?thesis
        by (simp add: buried_def)
    qed
  qed
  have proc: "wp C (op_bind (processJob R cfg scan wid i) (\<lambda>effs. op_ret (popBackoffBase, effs)))
    (\<lambda>r s'. (\<exists>b' effs. r = Inr (b', effs)) \<and>
      (if c + 1 < workerMaxRetries cfg then waiting i wid (c + 1) d (view R s') else buried i wid d (view R s'))) s1"
    if s1: "view R s1 = ?v" for s1
  proof (rule wp_bind, rule wp_mono [OF wp_processJob [OF C]])
    show "runnable i (k_hash (view R s1) (jobKey i))" using q v(4) by (simp add: s1 waiting_def)
  qed (use step in \<open>auto intro!: wp_ret simp: s1 split: if_splits\<close>)
  show "wp C (PopJobReliable R wid) (\<lambda>r s1. case (Inr r :: go_error + _) of
      Inl e \<Rightarrow> (\<exists>b' effs. (Inl e :: go_error + _) = Inr (b', effs)) \<and>
        (if c + 1 < workerMaxRetries cfg then waiting i wid (c + 1) d (view R s1) else buried i wid d (view R s1))
    | Inr r \<Rightarrow> wp C (case r of
       Inl e \<Rightarrow>
         if e = ErrNoJob then op_ret (popBackoffBase, [])
         else op_ret (if popBackoffMax < b * 2 then popBackoffMax else b * 2, [Wait b])
     | Inr jobID \<Rightarrow> op_bind (processJob R cfg scan wid jobID) (\<lambda>effs. op_ret (popBackoffBase, effs)))
       (\<lambda>r s'. (\<exists>b' effs. r = Inr (b', effs)) \<and>
      (if c + 1 < workerMaxRetries cfg then waiting i wid (c + 1) d (view R s') else buried i wid d (view R s'))) s1) s"
    by (rule wp_mono [OF wp_Pop_view [OF R q1]]) (use proc in auto)
qed

lemma worker_key_distinct [simp]:
  "workerKey w \<noteq> jobQueueKey" "workerKey w \<noteq> dlqKey" "workerKey w \<noteq> processingKey x"
  "jobQueueKey \<noteq> workerKey w" "dlqKey \<noteq> workerKey w" "processingKey x \<noteq> workerKey w"
  by (auto simp: key_defs)

lemma wp_unregister:
  assumes "redis_server R" "buried i wid d (view R s)"
  shows "wp C (worker_loop R cfg scan wid b []) (\<lambda>r s'. (\<exists>effs. r = Inr effs) \<and> buried i wid d (view R s')) s"
  using assms unfolding worker_loop.simps UnregisterWorker_def
  by (intro wp_step_seq wp_ret) (simp add: write_cmd_def redis_view buried_def)

lemma loop_exhausts:
  assumes C: "scan_contract R scan out" and f: "always_fails out" and m: "in_int64 (workerMaxRetries cfg)"
  shows "waiting i wid c d (view R s) \<Longrightarrow> - 1 \<le> c \<Longrightarrow> in_int64 (c + 1) \<Longrightarrow> int n = max 1 (workerMaxRetries cfg - c) \<Longrightarrow>
    wp C (worker_loop R cfg scan wid b (replicate n Turn)) (\<lambda>r s'. (\<exists>effs. r = Inr effs) \<and> buried i wid d (view R s')) s"
proof (induction n arbitrary: c s b)
  case (Suc n)
  have R: "redis_server R" using C by (simp add: scan_contract_def)
  show ?case
    unfolding replicate_Suc worker_loop.simps
  proof (rule wp_bind, rule wp_mono [OF turn_fails [OF C f Suc.prems(1) Suc.prems(3)]])
    fix r :: "go_error + int \<times> effect list" and s1
    assume t: "(\<exists>b' effs. r = Inr (b', effs)) \<and>
      (if c + 1 < workerMaxRetries cfg then waiting i wid (c + 1) d (view R s1) else buried i wid d (view R s1))"
    then obtain b' effs where r: "r = Inr (b', effs)" by blast
    have rest: "wp C (worker_loop R cfg scan wid b' (replicate n Turn))
        (\<lambda>r s'. (\<exists>effs. r = Inr effs) \<and> buried i wid d (view R s')) s1"
    proof (cases "c + 1 < workerMaxRetries cfg")
      case True
      then have "int n = max 1 (workerMaxRetries cfg - (c + 1))" "in_int64 (c + 1 + 1)"
        using Suc.prems(2-4) m by (auto simp: in_int64_def)
      with True t Suc.IH [of "c + 1" s1 b'] Suc.prems(2) show ?thesis by simp
    next
      case False
      then have "n = 0" using Suc.prems(4) by simp
      with False t show ?thesis using wp_unregister [OF R] by simp
    qed
    then show "case r of Inl e \<Rightarrow> (\<exists>effs. (Inl e :: go_error + effect list) = Inr effs) \<and> buried i wid d (view R s1)
      | Inr a \<Rightarrow> wp C (case a of (b', effs) \<Rightarrow>
          op_bind (worker_loop R cfg scan wid b' (replicate n Turn)) (\<lambda>rest. op_ret (effs @ rest)))
          (\<lambda>r s'. (\<exists>effs. r = Inr effs) \<and> buried i wid d (view R s')) s1"
      unfolding r sum.case prod.case by (rule wp_bind [OF wp_mono]) (auto intro!: wp_ret)
  qed
qed simp


section \<open>Backoff\<close>

lemma wrap64_id: "in_int64 i \<Longrightarrow> wrap64 i = i"
  by (simp add: wrap64_def in_int64_def)

lemma backoff_loop_eq:
  "0 < d \<Longrightarrow> d < 2 ^ 62 \<Longrightarrow> 0 < mx \<Longrightarrow> mx \<le> 2 ^ 62 \<Longrightarrow> backoff_loop n d mx = min mx (d * 2 ^ n)"
proof (induction n d mx rule: backoff_loop.induct)
  case (2 n d mx)
  then have w: "wrap64 (d * 2) = d * 2" by (intro wrap64_id) (simp add: in_int64_def)
  show ?case
  proof (cases "mx \<le> d * 2")
    case True
    also have "d * 2 * 1 \<le> d * 2 * 2 ^ n" using "2.prems"(1) by (intro mult_left_mono) simp_all
    finally show ?thesis using True w by simp
  next
    case False
    with w 2 show ?thesis by (simp add: mult.assoc)
  qed
qed simp

text \<open>
  The backoff before the \<open>n\<close>-th retry is the base doubled \<open>n - 1\<close> times, capped at the maximum; no
  doubling overflows, as long as the configured durations stay below \<open>2^62\<close> nanoseconds.
\<close>
theorem backoff_closed_form:
  assumes "1 \<le> n" "0 < workerRetryBase cfg" "workerRetryBase cfg < 2 ^ 62" "0 < workerRetryMaxDur cfg" "workerRetryMaxDur cfg \<le> 2 ^ 62"
  shows "retryBackoff cfg n = min (workerRetryMaxDur cfg) (workerRetryBase cfg * 2 ^ nat (n - 1))"
  using assms by (simp add: retryBackoff_def backoff_loop_eq)

definition default_cfg :: worker_cfg where
  "default_cfg = \<lparr>workerMaxRetries = 3, workerRetryBase = 2 * second_ns, workerRetryMaxDur = 30 * second_ns\<rparr>"

theorem backoff_closed_form_witness: "retryBackoff default_cfg 3 = 8 * second_ns"
  using backoff_closed_form [of 3 default_cfg] by (simp add: default_cfg_def second_ns_def)

section \<open>Where jobs and artifacts get lost\<close>

definition flight_store :: keyspace where
  "flight_store = ks_rpush (processingKey ''w1'') ''j1''
     (ks_hset (jobKey ''j1'') (job_fields (sample_job\<lparr>StorageKey := ''k1''\<rparr>)) empty_keyspace)"

lemma flight_hash: "k_hash flight_store (jobKey ''j1'') = written Map.empty (sample_job\<lparr>StorageKey := ''k1''\<rparr>)"
  by (simp add: flight_store_def empty_keyspace_def written_def)

lemma flight_list: "k_list flight_store k = (if k = processingKey ''w1'' then [''j1''] else [])"
  by (simp add: flight_store_def empty_keyspace_def)


text \<open>
  C21.  A dead-lettered job that is retried by an operator is queued again although processing asked
  the store to delete its artifact: the new attempt refers to a key that is gone.
\<close>
theorem dlq_retry_without_artifact:
  fixes w :: "'s world"
  assumes "scan_contract R scan out" "healthy w" "runnable i (k_hash (view R (server w)) (jobKey i))"
    "\<And>now. \<exists>e. scan_verdict cfg (started (stored_job_of (k_hash (view R (server w)) (jobKey i))) wid now)
        (out (started (stored_job_of (k_hash (view R (server w)) (jobKey i))) wid now)) = DeadLetter e"
    "StorageKey (stored_job_of (k_hash (view R (server w)) (jobKey i))) = key" "key \<noteq> []"
  shows "let (r, w1) = processJob R cfg scan wid i w; (r2, w2) = RetryDLQJob R i w1 in
    (\<exists>effs. r = Inr effs \<and> DeleteArtifact key \<in> set effs) \<and> r2 = Inr ()
    \<and> i \<in> set (k_list (view R (server w2)) jobQueueKey) \<and> k_hash (view R (server w2)) (jobKey i) ''storage_key'' = Some key"
proof -
  have R: "redis_server R" using assms(1) by (simp add: scan_contract_def)
  let ?w1 = "snd (processJob R cfg scan wid i w)"
  obtain effs where r: "fst (processJob R cfg scan wid i w) = Inr effs" and calm: "healthy ?w1"
    and p: "processed cfg out (\<lambda>_. True) wid i effs (view R (server w)) (view R (server ?w1))"
    using wpD [OF wp_processJob [OF assms(1,3)] assms(2)] by blast
  from p obtain now fin h2 job vd where job: "job = started (stored_job_of (k_hash (view R (server w)) (jobKey i))) wid now"
    and vd: "vd = scan_verdict cfg job (out job)"
    and l: "\<And>k. k \<noteq> jobLeaseKey i \<Longrightarrow> k_list (view R (server ?w1)) k =
      ((moved vd i (k_list (view R (server w))))(processingKey wid := remove1 i (k_list (view R (server w)) (processingKey wid)))) k"
    and h: "k_hash (view R (server ?w1)) (jobKey i) = written h2 (final_job vd job fin)"
    and d: "DeleteArtifact (StorageKey job) \<in> set effs \<longleftrightarrow> deletes_artifact vd \<and> StorageKey job \<noteq> []"
    by (elim processedE) (rule that; assumption)
  obtain e where e: "vd = DeadLetter e" using assms(4) vd job by blast
  have key: "StorageKey job = key" "ID job = i" using assms(3,5) job by (simp_all add: runnable_def ID_FromMap)
  have "i \<in> set (k_list (view R (server ?w1)) dlqKey)" "k_hash (view R (server ?w1)) (jobKey i) ''id'' = Some i"
    using l [of dlqKey] e h key by (simp_all add: written_always)
  from wpD [OF wp_RetryDLQ [OF R this] calm]
  have "fst (RetryDLQJob R i ?w1) = Inr () \<and> i \<in> set (k_list (view R (server (snd (RetryDLQJob R i ?w1)))) jobQueueKey) \<and>
    k_hash (view R (server (snd (RetryDLQJob R i ?w1)))) (jobKey i) =
      written (written h2 (final_job vd job fin)) (reset_job (stored_job_of (written h2 (final_job vd job fin))))"
    by (simp add: Let_def h)
  moreover have "StorageKey (reset_job (stored_job_of (written h2 (final_job vd job fin)))) = key"
    using e key by (simp add: reset_job_def FromMap_def str_field_convert written_always)
  ultimately show ?thesis
    using r d e key assms(6) by (simp add: case_prod_beta Let_def written_always)
qed

section \<open>Instances\<close>

text \<open>
  Stages whose workspace cannot be created (a transient failure), and stages of a sound host that
  find nothing.
\<close>

definition sound_stages :: "(unit, unit) stages" where
  "sound_stages =
     \<lparr>st_limits = default_limits, st_uuid = ''u'', st_workspace = None, st_ctx_done = False,
      st_guard_text = (\<lambda>v. ''rejected''), st_duplicate = (\<lambda>p. None), st_metadata = (\<lambda>p. Inr ()),
      st_secrets = (\<lambda>p. Inr ()), st_postprocess = (\<lambda>f. f),
      st_assemble = (\<lambda>job p md f. Inr (Gin [(''data'', JNull)]))\<rparr>"

definition broken_stages :: "(unit, unit) stages" where
  "broken_stages = sound_stages\<lparr>st_workspace := Some (Errorf ''disk'' [])\<rparr>"

abbreviation mem_run :: "scan_host \<Rightarrow> (unit, unit) stages \<Rightarrow> ScanJob \<Rightarrow> (keyspace, scan_end) op" where
  "mem_run H T \<equiv> scan_dispatch (scanAPK (mem_redis [] []) H T)
     (scanIPA (mem_redis [] []) H T (\<lambda>p. Inr ((), ())) (\<lambda>m f j. Gin [])) None"

abbreviation mem_end :: "scan_host \<Rightarrow> (unit, unit) stages \<Rightarrow> ScanJob \<Rightarrow> scan_end" where
  "mem_end H T \<equiv> pipeline_end H T (\<lambda>p. Inr ((), ())) (\<lambda>m f j. Gin []) None"

lemma mem_contract: "scan_contract (mem_redis [] []) (mem_run H T) (mem_end H T)"
  by (rule mem_scan.scan_contract_axioms)

lemma broken_end: "mem_end H broken_stages job = Returned (Inl (Errorf ''failed to create workspace: disk'' [])) None"
  by (simp add: pipeline_end_def ipa_result_def apk_result_def gate_result_def broken_stages_def)

lemma broken_retryable: "isRetryable (Some (timeout_error None (Errorf ''failed to create workspace: disk'' [])))"
  by (simp add: isRetryable_def timeout_error_def ErrNonRetryable_def ErrRetryable_def contains_any_def lower_char_def)

lemma broken_fails: "always_fails (mem_end H broken_stages)"
  using broken_retryable by (auto simp: always_fails_def broken_end)

lemma flight_runnable: "runnable ''j1'' (k_hash flight_store (jobKey ''j1''))"
  by (simp add: runnable_def flight_hash written_always) (simp add: sample_job_def status_defs)

theorem process_refines_witness:
  "\<exists>effs. fst (processJob (mem_redis [] []) default_cfg (mem_run sample_host sound_stages) ''w1'' ''j1'' (quiet_world sample_time flight_store)) = Inr effs"
  using process_refines [OF mem_contract [of sample_host sound_stages], of "\<lambda>_. True" "quiet_world sample_time flight_store" "''j1''" default_cfg "''w1''"]
  by (auto simp: calm_quiet_world flight_runnable)

lemma flight_sel: "StorageKey (stored_job_of (k_hash flight_store (jobKey ''j1''))) = ''k1''"
  by (simp add: flight_hash FromMap_def str_field_convert written_always)

definition bomb_host :: scan_host where
  "bomb_host = sample_host\<lparr>zip_read := (\<lambda>b. None)\<rparr>"

lemma bomb_resolves:
  "resolveAPKPath bomb_host (stored_job_of (k_hash flight_store (jobKey ''j1''))) d = (Inr ''/data/k1'', files bomb_host)"
  by (simp add: resolveAPKPath_def flight_sel Let_def)
    (simp add: bomb_host_def sample_host_def accept_local_def checkDiskAdmission_def)

theorem unsafe_archive_dead_lettered_witness:
  "k_list (server (snd (processJob (mem_redis [] []) default_cfg (mem_run bomb_host sound_stages) ''w1'' ''j1'' (quiet_world sample_time flight_store)))) dlqKey = [''j1'']"
  using unsafe_archive_dead_lettered [OF mem_server, of "quiet_world sample_time flight_store" "''j1''" sound_stages bomb_host
      "''/data/k1''" "files bomb_host" default_cfg "\<lambda>p. Inr ((), ())" "\<lambda>m f j. Gin []" None "''w1''"]
  by (simp add: calm_quiet_world flight_runnable bomb_resolves flight_list Let_def)
    (simp add: sound_stages_def bomb_host_def sample_host_def open_zip_def CheckAPKSafe_def)

lemma sample_waiting: "waiting ''j1'' ''w1'' 0 [] sample_store"
proof -
  have rc: "RetryCount sample_job = 0" by (simp add: sample_job_def zero_job_def)
  have "runnable ''j1'' (k_hash sample_store (jobKey ''j1''))" by (simp add: runnable_def sample_id status_defs)
  then show ?thesis
    using RetryCount_written [of sample_job Map.empty]
    by (simp add: waiting_def sample_list sample_hash rc in_int64_def)
qed


theorem dlq_retry_without_artifact_witness:
  "''j1'' \<in> set (k_list (server (snd (RetryDLQJob (mem_redis [] []) ''j1''
     (snd (processJob (mem_redis [] []) default_cfg (mem_run bomb_host sound_stages) ''w1'' ''j1'' (quiet_world sample_time flight_store)))))) jobQueueKey)"
proof -
  have id: "ID (stored_job_of (k_hash flight_store (jobKey ''j1''))) = ''j1''"
    by (simp add: ID_FromMap flight_hash written_always) (simp add: sample_job_def)
  have "\<exists>e. scan_verdict default_cfg (started (stored_job_of (k_hash flight_store (jobKey ''j1''))) ''w1'' now)
     (mem_end bomb_host sound_stages (started (stored_job_of (k_hash flight_store (jobKey ''j1''))) ''w1'' now)) = DeadLetter e" for now
    by (rule unsafe_pipeline [OF _ _ bomb_resolves])
      (simp_all add: sound_stages_def bomb_host_def sample_host_def open_zip_def CheckAPKSafe_def)
  with dlq_retry_without_artifact [OF mem_contract [of bomb_host sound_stages], of "quiet_world sample_time flight_store" "''j1''" default_cfg "''w1''" "''k1''"]
  show ?thesis by (simp add: calm_quiet_world flight_runnable flight_sel case_prod_beta Let_def)
qed

theorem ack_after_transition_witness:
  "status_is (mem_redis [] []) ''j1'' {JobStatusCompleted}
     (server (snd (handleJobSuccess (mem_redis [] []) default_cfg ''w1'' sample_job (Gin []) sample_world)))"
proof -
  have free: "lease_free (ID sample_job) ''w1'' sample_store"
    by (simp add: lease_free_def sample_store_def empty_keyspace_def)
  from free have f: "lease_free (ID sample_job) ''w1'' (view (mem_redis [] []) (server sample_world))" by simp
  from wpD [OF wp_success [OF mem_server f] sample_healthy]
  obtain effs where "fst (handleJobSuccess (mem_redis [] []) default_cfg ''w1'' sample_job (Gin []) sample_world) = Inr (True, effs)"
    by blast
  with ack_after_transition [OF mem_server, of default_cfg "''w1''" sample_job ErrNoJob sample_world effs "[]"] free
  show ?thesis by (auto simp: lease_free_def) (simp_all add: sample_job_def)
qed

end
