(* ===== verification/Go_Crypto.thy ===== *)
theory Go_Crypto
  imports Json "HOL-Library.Word"
begin

text \<open>
  The parts of Go's standard library that the secret store, the fingerprints and the signatures use:
  \<^verbatim>\<open>crypto/sha256\<close>, \<^verbatim>\<open>crypto/hmac\<close>, \<^verbatim>\<open>encoding/hex\<close>, \<^verbatim>\<open>encoding/base64\<close> and AES-256 in Galois/counter
  mode (\<^verbatim>\<open>crypto/aes\<close>, \<^verbatim>\<open>crypto/cipher\<close>), all executable on byte strings.
\<close>

unbundle bit_operations_syntax

type_synonym byte = "8 word"
type_synonym bytes = "byte list"

definition to_bytes :: "string \<Rightarrow> bytes" where
  "to_bytes s = map (\<lambda>c. word_of_nat (of_char c)) s"

definition of_bytes :: "bytes \<Rightarrow> string" where
  "of_bytes bs = map (\<lambda>b. char_of (unat b)) bs"

section \<open>SHA-256 and HMAC\<close>

definition be_word :: "bytes \<Rightarrow> 32 word" where
  "be_word bs = foldl (\<lambda>a b. push_bit 8 a OR ucast b) 0 bs"

definition word_be :: "32 word \<Rightarrow> bytes" where
  "word_be w = [ucast (drop_bit 24 w), ucast (drop_bit 16 w), ucast (drop_bit 8 w), ucast w]"

fun chunks :: "nat \<Rightarrow> nat \<Rightarrow> 'a list \<Rightarrow> 'a list list" where
  "chunks k 0 xs = []"
| "chunks k (Suc n) xs = (if xs = [] then [] else take k xs # chunks k n (drop k xs))"

definition sha_pad :: "bytes \<Rightarrow> bytes" where
  "sha_pad m =
     (let n = length m; z = (119 - n mod 64) mod 64; l = 8 * int n
      in m @ [0x80] @ replicate z 0 @ map (\<lambda>i. word_of_int (l div 256 ^ (7 - i))) [0..<8])"

text \<open>
  The constants of the hash are the first 32 bits of the fractional parts of cube roots (the round
  constants) and square roots (the initial state) of the first primes.  \<open>int_root k x\<close> is the
  \<open>k\<close>-th root of \<open>x\<close> rounded down, found bit by bit; 37 bits are enough, because the roots of the
  first 64 primes are below 18 and are taken with 32 fractional bits.
\<close>

definition sha_primes :: "nat list" where
  "sha_primes = filter (\<lambda>p. list_all (\<lambda>d. p mod d \<noteq> 0) [2..<p]) [2..<312]"

definition int_root :: "nat \<Rightarrow> int \<Rightarrow> int" where
  "int_root k x = foldl (\<lambda>r i. if (r + 2 ^ i) ^ k \<le> x then r + 2 ^ i else r) 0 (rev [0..<37])"

definition sha_K :: "32 word list" where
  "sha_K = map (\<lambda>p. word_of_int (int_root 3 (int p * 2 ^ 96))) sha_primes"

definition sha_H0 :: "32 word list" where
  "sha_H0 = map (\<lambda>p. word_of_int (int_root 2 (int p * 2 ^ 64))) (take 8 sha_primes)"

definition sha_schedule :: "32 word list \<Rightarrow> 32 word list" where
  "sha_schedule ws =
     foldl (\<lambda>w t.
       let x = w ! (t - 15); y = w ! (t - 2);
           s0 = word_rotr 7 x XOR word_rotr 18 x XOR drop_bit 3 x;
           s1 = word_rotr 17 y XOR word_rotr 19 y XOR drop_bit 10 y
       in w @ [w ! (t - 16) + s0 + w ! (t - 7) + s1]) ws [16..<64]"

definition sha_round :: "32 word list \<Rightarrow> 32 word \<times> 32 word \<Rightarrow> 32 word list" where
  "sha_round st kw =
     (case (st, kw) of
        ([a, b, c, d, e, f, g, h], (k, w)) \<Rightarrow>
          (let s1 = word_rotr 6 e XOR word_rotr 11 e XOR word_rotr 25 e;
               ch = (e AND f) XOR (NOT e AND g);
               t1 = h + s1 + ch + k + w;
               s0 = word_rotr 2 a XOR word_rotr 13 a XOR word_rotr 22 a;
               maj = (a AND b) XOR (a AND c) XOR (b AND c)
           in [t1 + s0 + maj, a, b, c, d + t1, e, f, g])
      | _ \<Rightarrow> st)"

definition sha_block :: "32 word list \<Rightarrow> bytes \<Rightarrow> 32 word list" where
  "sha_block st blk =
     (let ws = sha_schedule (map be_word (chunks 4 16 blk))
      in map (\<lambda>(x, y). x + y) (zip st (foldl sha_round st (zip sha_K ws))))"

definition sha256 :: "bytes \<Rightarrow> bytes" where
  "sha256 m =
     (let p = sha_pad m
      in concat (map word_be (foldl sha_block sha_H0 (chunks 64 (length p) p))))"

definition hmac_sha256 :: "bytes \<Rightarrow> bytes \<Rightarrow> bytes" where
  "hmac_sha256 key m =
     (let k0 = (if length key > 64 then sha256 key else key);
          k = k0 @ replicate (64 - length k0) 0
      in sha256 (map (\<lambda>b. b XOR 0x5c) k @ sha256 (map (\<lambda>b. b XOR 0x36) k @ m)))"

section \<open>Hexadecimal and base64\<close>

definition hex_encode :: "bytes \<Rightarrow> string" where
  "hex_encode bs = concat (map (\<lambda>b. [hex_digit (unat b div 16), hex_digit (unat b mod 16)]) bs)"

fun hex_decode :: "string \<Rightarrow> bytes option" where
  "hex_decode [] = Some []"
| "hex_decode [c] = None"
| "hex_decode (c # d # r) =
     (case (hex_val c, hex_val d, hex_decode r) of
        (Some x, Some y, Some bs) \<Rightarrow> Some (word_of_nat (16 * x + y) # bs)
      | _ \<Rightarrow> None)"

definition b64_char :: "nat \<Rightarrow> char" where
  "b64_char n =
     (if n < 26 then char_of (65 + n) else if n < 52 then char_of (71 + n)
      else if n < 62 then char_of (n - 4) else if n = 62 then CHR ''+'' else CHR ''/'')"

definition b64_val :: "char \<Rightarrow> nat option" where
  "b64_val c =
     (let n = (of_char c :: nat) in
      if 65 \<le> n \<and> n \<le> 90 then Some (n - 65)
      else if 97 \<le> n \<and> n \<le> 122 then Some (n - 71)
      else if 48 \<le> n \<and> n \<le> 57 then Some (n + 4)
      else if n = 43 then Some 62 else if n = 47 then Some 63 else None)"

fun b64_encode :: "bytes \<Rightarrow> string" where
  "b64_encode [] = []"
| "b64_encode [a] =
     [b64_char (unat a div 4), b64_char (unat a mod 4 * 16), CHR ''='', CHR ''='']"
| "b64_encode [a, b] =
     [b64_char (unat a div 4), b64_char (unat a mod 4 * 16 + unat b div 16), b64_char (unat b mod 16 * 4), CHR ''='']"
| "b64_encode (a # b # c # r) =
     [b64_char (unat a div 4), b64_char (unat a mod 4 * 16 + unat b div 16),
      b64_char (unat b mod 16 * 4 + unat c div 64), b64_char (unat c mod 64)] @ b64_encode r"

text \<open>
  The decoder of \<^verbatim>\<open>StdEncoding\<close> (with padding) and of \<^verbatim>\<open>RawStdEncoding\<close> (without): line breaks are
  skipped, and the unused bits of the last character are not checked.
\<close>

fun b64_quads :: "bool \<Rightarrow> string \<Rightarrow> bytes option" where
  "b64_quads padded [] = Some []"
| "b64_quads padded [w] = None"
| "b64_quads padded [w, x] =
     (if padded then None
      else (case (b64_val w, b64_val x) of
              (Some a, Some b) \<Rightarrow> Some [word_of_nat (a * 4 + b div 16)] | _ \<Rightarrow> None))"
| "b64_quads padded [w, x, y] =
     (if padded then None
      else (case (b64_val w, b64_val x, b64_val y) of
              (Some a, Some b, Some c) \<Rightarrow> Some [word_of_nat (a * 4 + b div 16), word_of_nat (b mod 16 * 16 + c div 4)]
            | _ \<Rightarrow> None))"
| "b64_quads padded (w # x # y # z # r) =
     (case (b64_val w, b64_val x, b64_val y, b64_val z) of
        (Some a, Some b, Some c, Some d) \<Rightarrow>
          map_option (\<lambda>bs. [word_of_nat (a * 4 + b div 16), word_of_nat (b mod 16 * 16 + c div 4),
                            word_of_nat (c mod 4 * 64 + d)] @ bs) (b64_quads padded r)
      | (Some a, Some b, Some c, None) \<Rightarrow>
          if padded \<and> z = CHR ''='' \<and> r = []
          then Some [word_of_nat (a * 4 + b div 16), word_of_nat (b mod 16 * 16 + c div 4)] else None
      | (Some a, Some b, None, None) \<Rightarrow>
          if padded \<and> y = CHR ''='' \<and> z = CHR ''='' \<and> r = [] then Some [word_of_nat (a * 4 + b div 16)] else None
      | _ \<Rightarrow> None)"

definition b64_decode :: "bool \<Rightarrow> string \<Rightarrow> bytes option" where
  "b64_decode padded s = b64_quads padded (filter (\<lambda>c. c \<noteq> CHR 0x0A \<and> c \<noteq> CHR 0x0D) s)"

section \<open>AES-256-GCM\<close>

definition aes_sbox :: "byte list" where
  "aes_sbox =
     [0x63, 0x7c, 0x77, 0x7b, 0xf2, 0x6b, 0x6f, 0xc5, 0x30, 0x01, 0x67, 0x2b, 0xfe, 0xd7, 0xab, 0x76,
      0xca, 0x82, 0xc9, 0x7d, 0xfa, 0x59, 0x47, 0xf0, 0xad, 0xd4, 0xa2, 0xaf, 0x9c, 0xa4, 0x72, 0xc0,
      0xb7, 0xfd, 0x93, 0x26, 0x36, 0x3f, 0xf7, 0xcc, 0x34, 0xa5, 0xe5, 0xf1, 0x71, 0xd8, 0x31, 0x15,
      0x04, 0xc7, 0x23, 0xc3, 0x18, 0x96, 0x05, 0x9a, 0x07, 0x12, 0x80, 0xe2, 0xeb, 0x27, 0xb2, 0x75,
      0x09, 0x83, 0x2c, 0x1a, 0x1b, 0x6e, 0x5a, 0xa0, 0x52, 0x3b, 0xd6, 0xb3, 0x29, 0xe3, 0x2f, 0x84,
      0x53, 0xd1, 0x00, 0xed, 0x20, 0xfc, 0xb1, 0x5b, 0x6a, 0xcb, 0xbe, 0x39, 0x4a, 0x4c, 0x58, 0xcf,
      0xd0, 0xef, 0xaa, 0xfb, 0x43, 0x4d, 0x33, 0x85, 0x45, 0xf9, 0x02, 0x7f, 0x50, 0x3c, 0x9f, 0xa8,
      0x51, 0xa3, 0x40, 0x8f, 0x92, 0x9d, 0x38, 0xf5, 0xbc, 0xb6, 0xda, 0x21, 0x10, 0xff, 0xf3, 0xd2,
      0xcd, 0x0c, 0x13, 0xec, 0x5f, 0x97, 0x44, 0x17, 0xc4, 0xa7, 0x7e, 0x3d, 0x64, 0x5d, 0x19, 0x73,
      0x60, 0x81, 0x4f, 0xdc, 0x22, 0x2a, 0x90, 0x88, 0x46, 0xee, 0xb8, 0x14, 0xde, 0x5e, 0x0b, 0xdb,
      0xe0, 0x32, 0x3a, 0x0a, 0x49, 0x06, 0x24, 0x5c, 0xc2, 0xd3, 0xac, 0x62, 0x91, 0x95, 0xe4, 0x79,
      0xe7, 0xc8, 0x37, 0x6d, 0x8d, 0xd5, 0x4e, 0xa9, 0x6c, 0x56, 0xf4, 0xea, 0x65, 0x7a, 0xae, 0x08,
      0xba, 0x78, 0x25, 0x2e, 0x1c, 0xa6, 0xb4, 0xc6, 0xe8, 0xdd, 0x74, 0x1f, 0x4b, 0xbd, 0x8b, 0x8a,
      0x70, 0x3e, 0xb5, 0x66, 0x48, 0x03, 0xf6, 0x0e, 0x61, 0x35, 0x57, 0xb9, 0x86, 0xc1, 0x1d, 0x9e,
      0xe1, 0xf8, 0x98, 0x11, 0x69, 0xd9, 0x8e, 0x94, 0x9b, 0x1e, 0x87, 0xe9, 0xce, 0x55, 0x28, 0xdf,
      0x8c, 0xa1, 0x89, 0x0d, 0xbf, 0xe6, 0x42, 0x68, 0x41, 0x99, 0x2d, 0x0f, 0xb0, 0x54, 0xbb, 0x16]"

definition sub_byte :: "byte \<Rightarrow> byte" where
  "sub_byte b = aes_sbox ! unat b"

definition xtime :: "byte \<Rightarrow> byte" where
  "xtime b = push_bit 1 b XOR (if bit b 7 then 0x1b else 0)"

definition xor_bytes :: "bytes \<Rightarrow> bytes \<Rightarrow> bytes" where
  "xor_bytes xs ys = map (\<lambda>(x, y). x XOR y) (zip xs ys)"

text \<open>The key schedule: sixty words of four bytes each from a key of 32 bytes.\<close>

definition aes_expand :: "bytes \<Rightarrow> bytes list" where
  "aes_expand key =
     foldl (\<lambda>w i.
       let t = w ! (i - 1);
           t' = (if i mod 8 = 0
                 then xor_bytes (map sub_byte (tl t @ [hd t])) [(xtime ^^ (i div 8 - 1)) 1, 0, 0, 0]
                 else if i mod 8 = 4 then map sub_byte t else t)
       in w @ [xor_bytes (w ! (i - 8)) t']) (chunks 4 8 key) [8..<60]"

definition shift_rows :: "bytes \<Rightarrow> bytes" where
  "shift_rows s = map (\<lambda>i. s ! ((i + 4 * (i mod 4)) mod 16)) [0..<16]"

definition mix_column :: "bytes \<Rightarrow> bytes" where
  "mix_column c =
     (case c of
        [a0, a1, a2, a3] \<Rightarrow>
          [xtime a0 XOR (xtime a1 XOR a1) XOR a2 XOR a3, a0 XOR xtime a1 XOR (xtime a2 XOR a2) XOR a3,
           a0 XOR a1 XOR xtime a2 XOR (xtime a3 XOR a3), (xtime a0 XOR a0) XOR a1 XOR a2 XOR xtime a3]
      | _ \<Rightarrow> c)"

definition aes_block :: "bytes \<Rightarrow> bytes \<Rightarrow> bytes" where
  "aes_block key blk =
     (let rks = map concat (chunks 4 15 (aes_expand key));
          s0 = xor_bytes blk (rks ! 0);
          s = foldl (\<lambda>s i. xor_bytes (concat (map mix_column (chunks 4 4 (shift_rows (map sub_byte s))))) (rks ! i)) s0 [1..<14]
      in xor_bytes (shift_rows (map sub_byte s)) (rks ! 14))"

definition bytes_int :: "bytes \<Rightarrow> int" where
  "bytes_int bs = foldl (\<lambda>a b. 256 * a + uint b) 0 bs"

definition int_bytes :: "nat \<Rightarrow> int \<Rightarrow> bytes" where
  "int_bytes k n = map (\<lambda>i. word_of_int (n div 256 ^ (k - 1 - i))) [0..<k]"

text \<open>Multiplication in the field of GCM, with bit 0 the leftmost one.\<close>

definition gf_mult :: "128 word \<Rightarrow> 128 word \<Rightarrow> 128 word" where
  "gf_mult x y =
     fst (foldl (\<lambda>(z, v) i.
       (if bit x (127 - i) then z XOR v else z,
        if bit v 0 then drop_bit 1 v XOR push_bit 120 0xe1 else drop_bit 1 v)) (0, y) [0..<128])"

definition pad16 :: "bytes \<Rightarrow> bytes" where
  "pad16 bs = bs @ replicate ((16 - length bs mod 16) mod 16) 0"

definition ghash :: "128 word \<Rightarrow> bytes \<Rightarrow> 128 word" where
  "ghash h bs =
     foldl (\<lambda>y b. gf_mult (y XOR word_of_int (bytes_int b)) h) 0 (chunks 16 (length bs) bs)"

definition gcm_stream :: "bytes \<Rightarrow> bytes \<Rightarrow> nat \<Rightarrow> bytes" where
  "gcm_stream key nonce n =
     take n (concat (map (\<lambda>i. aes_block key (nonce @ int_bytes 4 (int i + 2))) [0..<(n + 15) div 16]))"

definition gcm_tag :: "bytes \<Rightarrow> bytes \<Rightarrow> bytes \<Rightarrow> bytes" where
  "gcm_tag key nonce ct =
     (let h = word_of_int (bytes_int (aes_block key (replicate 16 0)));
          s = ghash h (pad16 ct @ int_bytes 8 0 @ int_bytes 8 (8 * int (length ct)))
      in xor_bytes (int_bytes 16 (uint s)) (aes_block key (nonce @ [0, 0, 0, 1])))"

text \<open>\<^verbatim>\<open>Seal\<close> without additional data: the ciphertext and the sixteen bytes of the tag; \<^verbatim>\<open>Open\<close> checks the tag.\<close>

definition gcm_seal :: "bytes \<Rightarrow> bytes \<Rightarrow> bytes \<Rightarrow> bytes" where
  "gcm_seal key nonce pt =
     (let ct = xor_bytes pt (gcm_stream key nonce (length pt)) in ct @ gcm_tag key nonce ct)"

definition gcm_open :: "bytes \<Rightarrow> bytes \<Rightarrow> bytes \<Rightarrow> bytes option" where
  "gcm_open key nonce sealed =
     (if length sealed < 16 then None
      else (let ct = take (length sealed - 16) sealed; tag = drop (length sealed - 16) sealed
            in if tag = gcm_tag key nonce ct then Some (xor_bytes ct (gcm_stream key nonce (length ct))) else None))"

section \<open>Round trips\<close>

lemma of_bytes_to_bytes [simp]: "of_bytes (to_bytes s) = s"
proof -
  have "char_of (unat (word_of_nat (of_char c) :: byte)) = c" for c
    using nat_of_char_less_256 [of c] by (simp add: unat_of_nat take_bit_nat_eq_self)
  then show ?thesis by (induction s) (simp_all add: of_bytes_def to_bytes_def)
qed

lemma length_to_bytes [simp]: "length (to_bytes s) = length s"
  by (simp add: to_bytes_def)

lemma unat_byte: "unat (b :: byte) < 256"
  using unsigned_less [of b] by simp

lemma byte_id: "(word_of_nat (unat b) :: byte) = b"
  by simp

lemma byte_of_parts [simp]: "(word_of_nat (16 * (unat b div 16) + unat b mod 16) :: byte) = b"
  by simp

lemma hex_decode_encode [simp]: "hex_decode (hex_encode bs) = Some bs"
proof (induction bs)
  case Nil
  show ?case by (simp add: hex_encode_def)
next
  case (Cons b bs)
  have "unat b div 16 < 16" using unat_byte [of b] by (simp add: less_mult_imp_div_less)
  then have h: "hex_val (hex_digit (unat b div 16)) = Some (unat b div 16)"
      "hex_val (hex_digit (unat b mod 16)) = Some (unat b mod 16)" by simp_all
  have "hex_encode (b # bs) = hex_digit (unat b div 16) # hex_digit (unat b mod 16) # hex_encode bs"
    by (simp add: hex_encode_def)
  then show ?case by (simp only: hex_decode.simps h Cons.IH) simp
qed

lemma length_hex_encode [simp]: "length (hex_encode bs) = 2 * length bs"
  by (induction bs) (simp_all add: hex_encode_def)

lemma hex_encode_inj: "hex_encode a = hex_encode b \<Longrightarrow> a = b"
  by (metis hex_decode_encode option.inject)

lemma of_char_small: "m < 256 \<Longrightarrow> (of_char (char_of m :: char) :: nat) = m" for m :: nat
  by (simp add: of_char_of)

lemma b64_val_char [simp]:
  assumes "n < 64"
  shows "b64_val (b64_char n) = Some n"
proof -
  consider "n < 26" | "26 \<le> n" "n < 52" | "52 \<le> n" "n < 62" | "n = 62" | "n = 63"
    using assms by linarith
  then show ?thesis
  proof cases
    case 1
    then show ?thesis by (simp add: b64_char_def b64_val_def Let_def of_char_small)
  next
    case 2
    then show ?thesis by (simp add: b64_char_def b64_val_def Let_def of_char_small)
  next
    case 3
    then have "b64_char n = char_of (n - 4)" "n - 4 < 256" "48 \<le> n - 4" "n - 4 \<le> 57" "n - 4 + 4 = n"
      by (simp_all add: b64_char_def)
    then show ?thesis by (simp add: b64_val_def Let_def of_char_small)
  next
    case 4
    then show ?thesis by (simp add: b64_char_def b64_val_def)
  next
    case 5
    then show ?thesis by (simp add: b64_char_def b64_val_def)
  qed
qed

lemma b64_special [simp]: "b64_val (CHR 0x0A) = None" "b64_val (CHR 0x0D) = None" "b64_val (CHR ''='') = None"
  by (simp_all add: b64_val_def)

lemma b64_char_plain:
  assumes "n < 64"
  shows "b64_char n \<noteq> CHR 0x0A" "b64_char n \<noteq> CHR 0x0D"
proof -
  have "b64_val c = None \<Longrightarrow> b64_char n \<noteq> c" for c
    using b64_val_char [OF assms] by auto
  then show "b64_char n \<noteq> CHR 0x0A" "b64_char n \<noteq> CHR 0x0D" by simp_all
qed

lemma digit_split:
  "(y :: nat) < k \<Longrightarrow> (m * k + y) div k = m" "y < k \<Longrightarrow> (m * k + y) mod k = y"
  by (simp_all add: div_mult_self3)

lemma b64_bounds:
  "unat (a :: byte) div 4 < 64" "unat a mod 4 * 16 + unat (b :: byte) div 16 < 64" "unat a mod 4 * 16 < 64"
  "unat b mod 16 * 4 + unat (c :: byte) div 64 < 64" "unat b mod 16 * 4 < 64" "unat c mod 64 < 64"
proof -
  have m: "unat a mod 4 \<le> 3" "unat b mod 16 \<le> 15" "unat c mod 64 \<le> 63"
    using mod_less_divisor [of 4 "unat a"] mod_less_divisor [of 16 "unat b"] mod_less_divisor [of 64 "unat c"] by linarith+
  have d: "unat a div 4 < 64" "unat b div 16 < 16" "unat c div 64 < 4"
    using unat_byte [of a] unat_byte [of b] unat_byte [of c] by (simp_all add: less_mult_imp_div_less)
  show "unat a div 4 < 64" "unat a mod 4 * 16 + unat b div 16 < 64" "unat a mod 4 * 16 < 64"
    "unat b mod 16 * 4 + unat c div 64 < 64" "unat b mod 16 * 4 < 64" "unat c mod 64 < 64"
    using m d by linarith+
qed

lemma b64_parts:
  "unat (a :: byte) div 4 * 4 + (unat a mod 4 * 16 + unat (b :: byte) div 16) div 16 = unat a"
  "(unat a mod 4 * 16 + unat b div 16) mod 16 * 16 + (unat b mod 16 * 4 + unat (c :: byte) div 64) div 4 = unat b"
  "(unat b mod 16 * 4 + unat c div 64) mod 4 * 64 + unat c mod 64 = unat c"
  "unat a div 4 * 4 + unat a mod 4 * 16 div 16 = unat a"
  "(unat a mod 4 * 16 + unat b div 16) mod 16 * 16 + unat b mod 16 * 4 div 4 = unat b"
proof -
  have d: "unat b div 16 < 16" "unat c div 64 < 4"
    using unat_byte [of b] unat_byte [of c] by (simp_all add: less_mult_imp_div_less)
  show "unat a div 4 * 4 + (unat a mod 4 * 16 + unat b div 16) div 16 = unat a"
    "(unat a mod 4 * 16 + unat b div 16) mod 16 * 16 + (unat b mod 16 * 4 + unat c div 64) div 4 = unat b"
    "(unat b mod 16 * 4 + unat c div 64) mod 4 * 64 + unat c mod 64 = unat c"
    "unat a div 4 * 4 + unat a mod 4 * 16 div 16 = unat a"
    "(unat a mod 4 * 16 + unat b div 16) mod 16 * 16 + unat b mod 16 * 4 div 4 = unat b"
    by (simp_all only: digit_split [OF d(1)] digit_split [OF d(2)] div_mult_mod_eq nonzero_mult_div_cancel_right
      numeral_neq_zero not_False_eq_True)
qed

lemma b64_filter: "filter (\<lambda>c. c \<noteq> CHR 0x0A \<and> c \<noteq> CHR 0x0D) (b64_encode bs) = b64_encode bs"
  by (induction bs rule: b64_encode.induct) (simp_all add: b64_char_plain b64_bounds)

lemma b64_quads_encode: "b64_quads True (b64_encode bs) = Some bs"
proof (induction bs rule: b64_encode.induct)
  case (2 a)
  show ?case
    by (simp only: b64_encode.simps b64_quads.simps b64_val_char [OF b64_bounds(1)] b64_val_char [OF b64_bounds(3)]
      b64_special(3) option.case prod.case b64_parts(4) byte_id) simp
next
  case (3 a b)
  show ?case
    by (simp only: b64_encode.simps b64_quads.simps b64_val_char [OF b64_bounds(1)] b64_val_char [OF b64_bounds(2)]
      b64_val_char [OF b64_bounds(5)] b64_special(3) option.case prod.case b64_parts(1,5) byte_id) simp
next
  case (4 a b c r)
  show ?case
    by (simp only: b64_encode.simps b64_quads.simps b64_val_char [OF b64_bounds(1)] b64_val_char [OF b64_bounds(2)]
      b64_val_char [OF b64_bounds(4)] b64_val_char [OF b64_bounds(6)] option.case prod.case b64_parts(1-3) byte_id
      append_Cons append_Nil 4 option.map)
qed simp

lemma b64_decode_encode [simp]: "b64_decode True (b64_encode bs) = Some bs"
  by (simp add: b64_decode_def b64_filter b64_quads_encode)

lemma foldl_upt_inv:
  assumes "P a st" "a \<le> b" "\<And>i st. a \<le> i \<Longrightarrow> i < b \<Longrightarrow> P i st \<Longrightarrow> P (Suc i) (f st i)"
  shows "P b (foldl f st [a..<b])"
  using assms(2)
proof (rule dec_induct)
  show "P a (foldl f st [a..<a])" using assms(1) by simp
  show "P (Suc n) (foldl f st [a..<Suc n])" if "a \<le> n" "n < b" "P n (foldl f st [a..<n])" for n
    using assms(3) [OF that] that by simp
qed

lemma chunks_exact:
  assumes "0 < k" "length xs = n * k"
  shows "length (chunks k n xs) = n \<and> (\<forall>c\<in>set (chunks k n xs). length c = k)"
  using assms(2)
proof (induction n arbitrary: xs)
  case 0
  show ?case by simp
next
  case (Suc n)
  then have "length (drop k xs) = n * k" "length (take k xs) = k" "xs \<noteq> []" using assms(1) by auto
  from Suc.IH [OF this(1)] this(2,3) show ?case by (simp only: chunks.simps if_False) simp
qed

lemma length_xor [simp]: "length (xor_bytes xs ys) = min (length xs) (length ys)"
  by (simp add: xor_bytes_def)

lemma aes_expand_shape:
  assumes "length key = 32"
  shows "length (aes_expand key) = 60 \<and> (\<forall>w\<in>set (aes_expand key). length w = 4)"
  unfolding aes_expand_def
proof (rule foldl_upt_inv [where P = "\<lambda>i w. length w = i \<and> (\<forall>x\<in>set w. length x = 4)"])
  show "length (chunks 4 8 key) = 8 \<and> (\<forall>x\<in>set (chunks 4 8 key). length x = 4)"
    using chunks_exact [of 4 key 8] assms by simp
next
  fix i :: nat and w :: "bytes list"
  assume i: "8 \<le> i" "i < 60" and w: "length w = i \<and> (\<forall>x\<in>set w. length x = 4)"
  then have "length (w ! (i - 1)) = 4" "length (w ! (i - 8)) = 4" by simp_all
  with w show "length (let t = w ! (i - 1);
       t' = if i mod 8 = 0 then xor_bytes (map sub_byte (tl t @ [hd t])) [(xtime ^^ (i div 8 - 1)) 1, 0, 0, 0]
            else if i mod 8 = 4 then map sub_byte t else t
       in w @ [xor_bytes (w ! (i - 8)) t']) = Suc i \<and>
     (\<forall>x\<in>set (let t = w ! (i - 1);
       t' = if i mod 8 = 0 then xor_bytes (map sub_byte (tl t @ [hd t])) [(xtime ^^ (i div 8 - 1)) 1, 0, 0, 0]
            else if i mod 8 = 4 then map sub_byte t else t
       in w @ [xor_bytes (w ! (i - 8)) t']). length x = 4)"
    by (simp add: Let_def)
qed simp

lemma length_aes_block:
  assumes "length key = 32"
  shows "length (aes_block key blk) = 16"
proof -
  let ?rks = "map concat (chunks 4 15 (aes_expand key))"
  have e: "length (aes_expand key) = 60" "\<forall>w\<in>set (aes_expand key). length w = 4"
    using aes_expand_shape [OF assms] by simp_all
  have c: "length (chunks 4 15 (aes_expand key)) = 15" "\<forall>c\<in>set (chunks 4 15 (aes_expand key)). length c = 4"
    using chunks_exact [of 4 "aes_expand key" 15] e by simp_all
  have sub: "set c \<subseteq> set xs" if "c \<in> set (chunks k n xs)" for c and k n :: nat and xs :: "byte list list"
    using that by (induction n arbitrary: xs) (auto split: if_splits dest: in_set_takeD in_set_dropD)
  have "length (concat c) = 4 * length c" if "\<forall>w\<in>set c. length w = 4" for c :: "byte list list"
    using that by (induction c) auto
  with c e(2) sub have "\<forall>c\<in>set (chunks 4 15 (aes_expand key)). length (concat c) = 16" by fastforce
  then have "length (?rks ! 14) = 16" using c(1) by (simp add: nth_mem)
  then show ?thesis by (simp add: aes_block_def Let_def shift_rows_def)
qed

lemma length_gcm_stream:
  assumes "length key = 32"
  shows "length (gcm_stream key nonce n) = n"
proof -
  have "length (concat (map (\<lambda>i. aes_block key (nonce @ int_bytes 4 (int i + 2))) [0..<m])) = 16 * m" for m
    by (induction m) (simp_all add: length_aes_block [OF assms])
  moreover have "n \<le> 16 * ((n + 15) div 16)" by presburger
  ultimately show ?thesis by (simp add: gcm_stream_def)
qed

lemma xor_bytes_twice: "length xs \<le> length ys \<Longrightarrow> xor_bytes (xor_bytes xs ys) ys = xs"
proof (induction xs arbitrary: ys)
  case Nil
  show ?case by (simp add: xor_bytes_def)
next
  case (Cons x xs)
  then obtain y ys' where "ys = y # ys'" by (cases ys) auto
  with Cons show ?case by (simp add: xor_bytes_def xor.assoc)
qed

lemma length_gcm_tag: "length key = 32 \<Longrightarrow> length (gcm_tag key nonce ct) = 16"
  by (simp add: gcm_tag_def Let_def length_aes_block int_bytes_def)

lemma gcm_open_seal:
  assumes "length key = 32"
  shows "gcm_open key nonce (gcm_seal key nonce pt) = Some pt"
  using assms
  by (simp add: gcm_open_def gcm_seal_def Let_def length_gcm_tag length_gcm_stream xor_bytes_twice)

lemma length_gcm_seal: "length key = 32 \<Longrightarrow> length (gcm_seal key nonce pt) = length pt + 16"
  by (simp add: gcm_seal_def Let_def length_gcm_tag length_gcm_stream)

lemma length_sha_round [simp]: "length (sha_round st kw) = length st"
  by (auto simp: sha_round_def Let_def split: prod.split list.split)

lemma length_foldl_round [simp]: "length (foldl sha_round st ws) = length st"
  by (induction ws arbitrary: st) simp_all

lemma length_foldl_block: "length (foldl sha_block st bs) = length st"
  by (induction bs arbitrary: st) (simp_all add: sha_block_def Let_def)

lemma length_concat_word_be: "length (concat (map word_be ws)) = 4 * length ws"
  by (induction ws) (simp_all add: word_be_def)

lemma length_sha_H0: "length sha_H0 = 8"
proof -
  have first: "length (filter (\<lambda>p. list_all (\<lambda>d. p mod d \<noteq> 0) [2..<p]) [2..<20::nat]) = 8"
    by (simp add: upt_rec_numeral)
  have more: "length (filter Q xs) = 8 \<Longrightarrow> length (take 8 (filter Q (xs @ ys))) = 8" for Q and xs ys :: "nat list"
    by simp
  have "[2..<20 + 292] = [2..<20] @ [20..<20 + 292::nat]" by (rule upt_add_eq_append) simp
  moreover have sum: "20 + 292 = (312::nat)" by simp
  ultimately have split: "[2..<312] = [2..<20] @ [20..<312::nat]" by (simp only: sum)
  show ?thesis using more [OF first] unfolding sha_H0_def sha_primes_def length_map split .
qed

lemma length_sha256 [simp]: "length (sha256 m) = 32"
  by (simp add: sha256_def Let_def length_concat_word_be length_foldl_block length_sha_H0)

lemma length_hmac [simp]: "length (hmac_sha256 k m) = 32"
  by (simp add: hmac_sha256_def Let_def)

end
