(* ===== verification/Go_Utf8.thy ===== *)
theory Go_Utf8
  imports Json
begin

text \<open>
  Conversion between a Go string and its runes (\<^verbatim>\<open>[]rune(s)\<close>, \<^verbatim>\<open>string(rs)\<close>, \<^verbatim>\<open>unicode/utf8\<close>): a byte
  that starts no well-formed sequence is read as U+FFFD and one byte is consumed.
\<close>

definition cont_byte :: "nat \<Rightarrow> nat \<Rightarrow> char \<Rightarrow> bool" where
  "cont_byte lo hi c = (let n = (of_char c :: nat) in lo \<le> n \<and> n \<le> hi)"

abbreviation cb :: "char \<Rightarrow> bool" where
  "cb \<equiv> cont_byte 128 191"

definition rune_error :: nat where
  "rune_error = 65533"

definition low6 :: "char \<Rightarrow> nat" where
  "low6 x = of_char x - 128"

definition decode2 :: "nat \<Rightarrow> string \<Rightarrow> nat \<times> nat" where
  "decode2 n r =
     (case r of x # _ \<Rightarrow> if cb x then ((n - 192) * 64 + low6 x, 1) else (rune_error, 0) | _ \<Rightarrow> (rune_error, 0))"

definition decode3 :: "nat \<Rightarrow> nat \<Rightarrow> nat \<Rightarrow> string \<Rightarrow> nat \<times> nat" where
  "decode3 lo hi n r =
     (case r of
        x # y # _ \<Rightarrow>
          if cont_byte lo hi x \<and> cb y then ((n - 224) * 4096 + low6 x * 64 + low6 y, 2) else (rune_error, 0)
      | _ \<Rightarrow> (rune_error, 0))"

definition decode4 :: "nat \<Rightarrow> nat \<Rightarrow> nat \<Rightarrow> string \<Rightarrow> nat \<times> nat" where
  "decode4 lo hi n r =
     (case r of
        x # y # z # _ \<Rightarrow>
          if cont_byte lo hi x \<and> cb y \<and> cb z
          then ((n - 240) * 262144 + low6 x * 4096 + low6 y * 64 + low6 z, 3) else (rune_error, 0)
      | _ \<Rightarrow> (rune_error, 0))"

text \<open>The rune at the head of \<open>c # r\<close> and the number of bytes of \<open>r\<close> it uses.\<close>

definition decode_rune :: "char \<Rightarrow> string \<Rightarrow> nat \<times> nat" where
  "decode_rune c r =
     (let n = (of_char c :: nat) in
      if n < 128 then (n, 0)
      else if 194 \<le> n \<and> n \<le> 223 then decode2 n r
      else if 224 \<le> n \<and> n \<le> 239 then decode3 (if n = 224 then 160 else 128) (if n = 237 then 159 else 191) n r
      else if 240 \<le> n \<and> n \<le> 244 then decode4 (if n = 240 then 144 else 128) (if n = 244 then 143 else 191) n r
      else (rune_error, 0))"

fun to_runes :: "string \<Rightarrow> nat list" where
  "to_runes [] = []"
| "to_runes (c # r) = (case decode_rune c r of (x, n) \<Rightarrow> x # to_runes (drop n r))"

definition of_runes :: "nat list \<Rightarrow> string" where
  "of_runes rs = concat (map utf8_enc rs)"

definition valid_utf8 :: "string \<Rightarrow> bool" where
  "valid_utf8 s \<longleftrightarrow> of_runes (to_runes s) = s"

lemma of_runes_append [simp]: "of_runes (a @ b) = of_runes a @ of_runes b"
  by (simp add: of_runes_def)

lemma of_runes_Cons [simp]: "of_runes (r # rs) = utf8_enc r @ of_runes rs"
  by (simp add: of_runes_def)

lemma of_runes_Nil [simp]: "of_runes [] = []"
  by (simp add: of_runes_def)

definition is_ascii :: "string \<Rightarrow> bool" where
  "is_ascii s = list_all (\<lambda>c. (of_char c :: nat) < 128) s"

lemma to_runes_ascii: "is_ascii s \<Longrightarrow> to_runes s = map of_char s"
  by (induction s) (simp_all add: is_ascii_def decode_rune_def Let_def)

lemma of_runes_ascii: "is_ascii s \<Longrightarrow> of_runes (map of_char s) = s"
  by (induction s) (simp_all add: is_ascii_def utf8_enc_def)

lemma valid_utf8_ascii: "is_ascii s \<Longrightarrow> valid_utf8 s"
  by (simp add: valid_utf8_def to_runes_ascii of_runes_ascii)

text \<open>Every decoded rune is a code point.\<close>

lemma low6_bound: "cont_byte lo hi x \<Longrightarrow> low6 x \<le> hi - 128"
  by (auto simp: cont_byte_def low6_def Let_def)

lemma decode2_bound: "n \<le> 223 \<Longrightarrow> fst (decode2 n r) < 1114112"
proof (cases r)
  case (Cons x r')
  assume "n \<le> 223"
  then have "(n - 192) * 64 \<le> 31 * 64" by (intro mult_right_mono) auto
  with Cons low6_bound [of 128 191 x] show ?thesis by (auto simp: decode2_def rune_error_def)
qed (simp add: decode2_def rune_error_def)

lemma decode3_bound:
  assumes "n \<le> 239" "hi \<le> 191"
  shows "fst (decode3 lo hi n r) < 1114112"
proof -
  have n: "(n - 224) * 4096 \<le> 15 * 4096" using assms by (intro mult_right_mono) auto
  have "(n - 224) * 4096 + low6 x * 64 + low6 y < 1114112" if "cont_byte lo hi x" "cb y" for x y
    using n low6_bound [OF that(1)] low6_bound [OF that(2)] assms(2) by linarith
  then show ?thesis by (auto simp: decode3_def rune_error_def split: list.split)
qed

lemma decode4_bound:
  assumes "n \<le> 244" "hi \<le> 191" "n = 244 \<longrightarrow> hi \<le> 143"
  shows "fst (decode4 lo hi n r) < 1114112"
proof -
  have "(n - 240) * 262144 + low6 x * 4096 + low6 y * 64 + low6 z < 1114112"
    if "cont_byte lo hi x" "cb y" "cb z" for x y z
  proof (cases "n = 244")
    case True
    with low6_bound [OF that(1)] low6_bound [OF that(2)] low6_bound [OF that(3)] assms(3) show ?thesis by simp
  next
    case False
    then have "(n - 240) * 262144 \<le> 3 * 262144" using assms by (intro mult_right_mono) auto
    with low6_bound [OF that(1)] low6_bound [OF that(2)] low6_bound [OF that(3)] assms(2) show ?thesis by linarith
  qed
  then show ?thesis by (auto simp: decode4_def rune_error_def split: list.split)
qed

lemma decode_rune_bound: "fst (decode_rune c r) < 1114112"
  by (simp add: decode_rune_def Let_def rune_error_def decode2_bound decode3_bound decode4_bound)

lemma to_runes_bound: "x \<in> set (to_runes s) \<Longrightarrow> x < 1114112"
proof (induction s rule: to_runes.induct)
  case (2 c r)
  obtain y n where d: "decode_rune c r = (y, n)" by (cases "decode_rune c r") auto
  then have "y < 1114112" using decode_rune_bound [of c r] by simp
  with 2 d show ?case by auto
qed simp

lemma utf8_enc_first:
  assumes "n < 1114112"
  shows "\<exists>c cs. utf8_enc n = c # cs \<and> ((of_char c :: nat) < 128 \<longrightarrow> cs = [])"
proof -
  have oc: "(of_char (char_of m :: char) :: nat) = m mod 256" for m :: nat by (simp add: of_char_of)
  have "240 + n div 262144 < 256" using assms by (simp add: less_mult_imp_div_less)
  then show ?thesis by (auto simp: utf8_enc_def oc)
qed

text \<open>An ASCII prefix of encoded runes followed by a non-ASCII byte is no longer than the list of runes.\<close>

lemma ascii_prefix_length:
  assumes "is_ascii p" "\<forall>x\<in>set rs. x < 1114112" "hasPrefix (of_runes rs @ b # rest) p" "128 \<le> (of_char b :: nat)"
  shows "length p \<le> length rs"
  using assms(1-3)
proof (induction rs arbitrary: p)
  case Nil
  with assms(4) show ?case by (cases p) (auto simp: is_ascii_def)
next
  case (Cons r rs)
  show ?case
  proof (cases p)
    case (Cons c p')
    obtain d ds where d: "utf8_enc r = d # ds" "(of_char d :: nat) < 128 \<longrightarrow> ds = []"
      using utf8_enc_first [of r] Cons.prems(2) by auto
    with Cons Cons.prems have "d = c" "ds = []" by (auto simp: is_ascii_def)
    with Cons Cons.prems d Cons.IH [of p'] show ?thesis by (simp add: is_ascii_def)
  qed simp
qed

lemma of_char_E2: "128 \<le> (of_char (CHR 0xE2) :: nat)"
  by simp

end
