(* ===== verification/Secret_Crypto.thy ===== *)
theory Secret_Crypto
  imports Go_Crypto Go_Utf8
begin

text \<open>
  Protection of secret values at rest, \<^verbatim>\<open>crypto/secretcrypto.go\<close>: the keyed fingerprint, the masked
  preview, encryption under the configured key and its inverse.  The environment is a function from
  variable names to values (the empty string when unset), and the nonce the random source delivers is
  an argument (\<^const>\<open>None\<close> when reading it fails).
\<close>

type_synonym env = "string \<Rightarrow> string"

definition fingerprintSaltEnv :: string where
  "fingerprintSaltEnv = ''MORF_FINGERPRINT_SALT''"

definition encryptionKeyEnv :: string where
  "encryptionKeyEnv = ''MORF_SECRET_ENCRYPTION_KEY''"

definition defaultFingerprintSalt :: string where
  "defaultFingerprintSalt = ''morf/at-rest-secret-fingerprint/v1''"

definition encPrefix :: string where
  "encPrefix = ''enc:v1:''"

definition aesKeySize :: nat where
  "aesKeySize = 32"

definition fingerprintSalt :: "env \<Rightarrow> string" where
  "fingerprintSalt E = (if E fingerprintSaltEnv \<noteq> [] then E fingerprintSaltEnv else defaultFingerprintSalt)"

definition Fingerprint :: "env \<Rightarrow> string \<Rightarrow> string" where
  "Fingerprint E v = hex_encode (hmac_sha256 (to_bytes (fingerprintSalt E)) (to_bytes v))"

definition encryptionKey :: "env \<Rightarrow> bytes option" where
  "encryptionKey E =
     (let raw = E encryptionKeyEnv in
      if raw = [] then None
      else
        (let t = trimSpace raw;
             sized = (\<lambda>k. case k of Some k \<Rightarrow> if length k = aesKeySize then Some k else None | None \<Rightarrow> None)
         in case sized (hex_decode t) of
              Some k \<Rightarrow> Some k
            | None \<Rightarrow>
                (case sized (b64_decode True t) of
                   Some k \<Rightarrow> Some k
                 | None \<Rightarrow> sized (b64_decode False t))))"

text \<open>The ellipsis U+2026.\<close>

definition ellipsis :: string where
  "ellipsis = [CHR 0xE2, CHR 0x80, CHR 0xA6]"

definition maskSecret :: "string \<Rightarrow> string" where
  "maskSecret value =
     (let rs = to_runes value; n = length rs in
      if n = 0 then ellipsis
      else
        (let first = min 4 n;
             last_n = (if first + 2 > n then 0 else 2)
         in of_runes (take first rs) @ ellipsis @ (if last_n > 0 then of_runes (drop (n - last_n) rs) else [])))"

definition ProtectAtRest :: "env \<Rightarrow> bytes option \<Rightarrow> string \<Rightarrow> string" where
  "ProtectAtRest E rnd value =
     (case encryptionKey E of
        None \<Rightarrow> maskSecret value
      | Some key \<Rightarrow>
          (case rnd of
             None \<Rightarrow> maskSecret value
           | Some nonce \<Rightarrow> encPrefix @ b64_encode (nonce @ gcm_seal key nonce (to_bytes value))))"

definition Reveal :: "env \<Rightarrow> string \<Rightarrow> string \<times> bool" where
  "Reveal E stored =
     (if \<not> hasPrefix stored encPrefix then (stored, False)
      else (case encryptionKey E of
         None \<Rightarrow> (stored, False)
       | Some key \<Rightarrow>
           (case b64_decode True (drop (length encPrefix) stored) of
              None \<Rightarrow> (stored, False)
            | Some sealed \<Rightarrow>
                if length sealed < 12 then (stored, False)
                else (case gcm_open key (take 12 sealed) (drop 12 sealed) of
                        None \<Rightarrow> (stored, False)
                      | Some pt \<Rightarrow> (of_bytes pt, True)))))"

section \<open>Keys\<close>

lemma encryptionKey_length: "encryptionKey E = Some k \<Longrightarrow> length k = 32"
  by (auto simp: encryptionKey_def Let_def aesKeySize_def split: if_splits option.splits)

section \<open>Round trip and masking\<close>

text \<open>
  C14 (what is encrypted can be revealed): with a valid key configured and a nonce of twelve bytes from the random source,
  \<^verbatim>\<open>Reveal\<close> of what \<^verbatim>\<open>ProtectAtRest\<close> stored returns the original value.
\<close>

theorem reveal_protect:
  assumes "encryptionKey E = Some key" "length nonce = 12"
  shows "Reveal E (ProtectAtRest E (Some nonce) value) = (value, True)"
proof -
  have "length key = 32" using assms(1) by (rule encryptionKey_length)
  then show ?thesis
    using assms by (simp add: ProtectAtRest_def Reveal_def gcm_open_seal)
qed

lemma maskSecret_form: "\<exists>k rest. k \<le> 4 \<and> maskSecret v = of_runes (take k (to_runes v)) @ CHR 0xE2 # rest"
proof (cases "to_runes v")
  case Nil
  then show ?thesis by (intro exI [of _ 0]) (simp add: maskSecret_def ellipsis_def)
next
  case (Cons r rs)
  then show ?thesis
    by (intro exI [of _ "min 4 (length (to_runes v))"]) (simp add: maskSecret_def ellipsis_def Let_def)
qed

text \<open>
  Previews are never taken for ciphertext: a masked preview does not carry the prefix of encrypted
  values, so \<^verbatim>\<open>Reveal\<close> returns it unchanged and unrevealed whatever key is configured.
\<close>

theorem masked_not_revealed: "Reveal E (maskSecret v) = (maskSecret v, False)"
proof -
  obtain k rest where k: "k \<le> 4" and m: "maskSecret v = of_runes (take k (to_runes v)) @ CHR 0xE2 # rest"
    using maskSecret_form by blast
  have "\<not> hasPrefix (maskSecret v) encPrefix"
  proof
    assume "hasPrefix (maskSecret v) encPrefix"
    moreover have "\<forall>x\<in>set (take k (to_runes v)). x < 1114112"
      using to_runes_bound by (auto dest: in_set_takeD)
    ultimately have "length encPrefix \<le> length (take k (to_runes v))"
      unfolding m by (intro ascii_prefix_length [OF _ _ _ of_char_E2]) (simp_all add: encPrefix_def is_ascii_def)
    with k show False by (simp add: encPrefix_def)
  qed
  then show ?thesis by (simp add: Reveal_def)
qed

text \<open>
  Masking hides long values: the preview of a value of seven or more characters shows its first four and last two
  characters and nothing between them.
\<close>

theorem mask_long:
  assumes "7 \<le> length (to_runes v)"
  shows "maskSecret v = of_runes (take 4 (to_runes v)) @ ellipsis @ of_runes (drop (length (to_runes v) - 2) (to_runes v))"
  using assms by (simp add: maskSecret_def Let_def)

text \<open>
  Masking does not hide short values: the preview of a value of one to four characters is the value itself
  with an ellipsis appended, and the preview of a value of six characters contains all of them.
\<close>

theorem mask_short_leaks:
  assumes "valid_utf8 v"
  shows "(1 \<le> length (to_runes v) \<and> length (to_runes v) \<le> 4 \<longrightarrow> maskSecret v = v @ ellipsis) \<and>
    (length (to_runes v) = 6 \<longrightarrow> (\<exists>a b. v = a @ b \<and> maskSecret v = a @ ellipsis @ b))"
proof (intro conjI impI)
  assume "1 \<le> length (to_runes v) \<and> length (to_runes v) \<le> 4"
  then show "maskSecret v = v @ ellipsis"
    using assms by (auto simp: maskSecret_def Let_def valid_utf8_def)
next
  assume l: "length (to_runes v) = 6"
  have "of_runes (take 4 (to_runes v) @ drop 4 (to_runes v)) = v"
    using assms by (simp only: append_take_drop_id valid_utf8_def)
  then have "v = of_runes (take 4 (to_runes v)) @ of_runes (drop 4 (to_runes v))"
    by (simp only: of_runes_append)
  moreover have "maskSecret v = of_runes (take 4 (to_runes v)) @ ellipsis @ of_runes (drop 4 (to_runes v))"
    using l by (simp add: maskSecret_def Let_def)
  ultimately show "\<exists>a b. v = a @ b \<and> maskSecret v = a @ ellipsis @ b" by blast
qed

text \<open>
  Fingerprints identify values: a fingerprint has 64 characters whatever the value and the salt, two values have
  the same fingerprint exactly when their keyed digests are equal, and the compiled-in salt is used
  when none is configured.
\<close>

theorem fingerprint_identity:
  "length (Fingerprint E v) = 64 \<and>
   (Fingerprint E v = Fingerprint E v' \<longleftrightarrow>
      hmac_sha256 (to_bytes (fingerprintSalt E)) (to_bytes v) = hmac_sha256 (to_bytes (fingerprintSalt E)) (to_bytes v')) \<and>
   Fingerprint (E(fingerprintSaltEnv := [])) v = Fingerprint (E(fingerprintSaltEnv := defaultFingerprintSalt)) v"
  using hex_encode_inj by (auto simp: Fingerprint_def fingerprintSalt_def)

section \<open>Instances\<close>

text \<open>A key of 32 bytes given in hexadecimal.\<close>

definition sample_env :: env where
  "sample_env x = (if x = encryptionKeyEnv then replicate 64 (CHR ''0'') else [])"

lemma hex_decode_zeros: "hex_decode (replicate (2 * n) (CHR ''0'')) = Some (replicate n 0)"
  by (induction n) (simp_all add: hex_val_def)

lemma trimSpace_zeros: "trimSpace (replicate n (CHR ''0'')) = replicate n (CHR ''0'')"
  by (rule trimSpace_printable) (cases n; simp add: printable_def)

lemma sample_key: "encryptionKey sample_env = Some (replicate 32 0)"
  using hex_decode_zeros [of 32] trimSpace_zeros [of 64]
  by (simp add: encryptionKey_def sample_env_def Let_def aesKeySize_def)

theorem reveal_protect_witness:
  "encryptionKey sample_env = Some (replicate 32 0) \<and> length (replicate 12 0 :: bytes) = 12 \<and>
   Reveal sample_env (ProtectAtRest sample_env (Some (replicate 12 0)) ''AKIA0123456789'') = (''AKIA0123456789'', True)"
  using reveal_protect [OF sample_key, of "replicate 12 0" "''AKIA0123456789''"] sample_key by simp

lemma sample_ascii: "is_ascii ''AKIA0123456789''" "is_ascii ''AKIA''" "is_ascii ''89''" "is_ascii ''1234''"
  by (simp_all add: is_ascii_def)

theorem mask_long_witness: "maskSecret ''AKIA0123456789'' = ''AKIA'' @ ellipsis @ ''89''"
  using mask_long [of "''AKIA0123456789''"]
    of_runes_ascii [OF sample_ascii(2)] of_runes_ascii [OF sample_ascii(3)]
  unfolding to_runes_ascii [OF sample_ascii(1)] take_map drop_map by simp

theorem mask_short_leaks_witness:
  "valid_utf8 ''1234'' \<and> maskSecret ''1234'' = ''1234'' @ ellipsis"
  using mask_short_leaks [OF valid_utf8_ascii [OF sample_ascii(4)]] valid_utf8_ascii [OF sample_ascii(4)]
  unfolding to_runes_ascii [OF sample_ascii(4)] by simp

end
