(* ===== verification/Secret_Model.thy ===== *)
theory Secret_Model
  imports Complex_Main Json
begin

text \<open>
  A detected secret, \<^verbatim>\<open>models/SecretModel.go\<close>.  The score, a \<^verbatim>\<open>float64\<close> in the code, is a real number.
\<close>

record SecretModel =
  SM_Type :: string
  LineNo :: int
  FileLocation :: string
  SecretType :: string
  SecretString :: string
  SecretConfidence :: string
  Score :: real
  Tier :: string
  VerificationStatus :: string
  MASVSID :: string

definition zero_secret :: SecretModel where
  "zero_secret = \<lparr>SM_Type = [], LineNo = 0, FileLocation = [], SecretType = [], SecretString = [],
     SecretConfidence = [], Score = 0, Tier = [], VerificationStatus = [], MASVSID = []\<rparr>"

end
