(* ===== verification/Json_Struct.thy ===== *)
theory Json_Struct
  imports Json
begin

text \<open>
  Decoding a JSON value into a Go struct, slice or map, as \<^verbatim>\<open>encoding/json\<close> does it: a member is assigned
  to the field with its exact name or, failing that, to the first field whose name is equal under
  case folding; members of no field are skipped; of several members for one field the last one
  counts; \<^verbatim>\<open>null\<close> leaves the zero value; a value of another kind is an error (\<^const>\<open>None\<close>).
\<close>

text \<open>
  Folding of a member name: the two characters outside ASCII that fold to an ASCII letter are U+017F
  (to s) and U+212A (to k).
\<close>

fun fold_name :: "string \<Rightarrow> string" where
  "fold_name (c # r) =
     (if hasPrefix (c # r) [CHR 0xC5, CHR 0xBF] then CHR ''s'' # fold_name (drop 1 r)
      else if hasPrefix (c # r) [CHR 0xE2, CHR 0x84, CHR 0xAA] then CHR ''k'' # fold_name (drop 2 r)
      else lower_char c # fold_name r)"
| "fold_name [] = []"

definition resolve_field :: "string list \<Rightarrow> string \<Rightarrow> string option" where
  "resolve_field names k =
     (if k \<in> set names then Some k else find (\<lambda>f. fold_name f = fold_name k) names)"

definition struct_get :: "string list \<Rightarrow> (string \<times> json) list \<Rightarrow> string \<Rightarrow> json option" where
  "struct_get names ms f = map_of (rev (map (\<lambda>(k, v). (resolve_field names k, v)) ms)) (Some f)"

text \<open>A field of type string, bool, int, \<^verbatim>\<open>[]string\<close>, \<^verbatim>\<open>[]T\<close> and \<^verbatim>\<open>map[string]T\<close>; an absent member gives the zero value.\<close>

definition dec_str :: "json option \<Rightarrow> string option" where
  "dec_str v = (case v of None \<Rightarrow> Some [] | Some JNull \<Rightarrow> Some [] | Some (JStr s) \<Rightarrow> Some s | _ \<Rightarrow> None)"

definition dec_bool :: "json option \<Rightarrow> bool option" where
  "dec_bool v = (case v of None \<Rightarrow> Some False | Some JNull \<Rightarrow> Some False | Some (JBool b) \<Rightarrow> Some b | _ \<Rightarrow> None)"

definition dec_int :: "json option \<Rightarrow> int option" where
  "dec_int v = (case v of None \<Rightarrow> Some 0 | Some JNull \<Rightarrow> Some 0 | Some (JNum t) \<Rightarrow> atoi t | _ \<Rightarrow> None)"

fun dec_all :: "(json option \<Rightarrow> 'a option) \<Rightarrow> json list \<Rightarrow> 'a list option" where
  "dec_all d [] = Some []"
| "dec_all d (v # vs) =
     (case (d (Some v), dec_all d vs) of (Some x, Some xs) \<Rightarrow> Some (x # xs) | _ \<Rightarrow> None)"

definition dec_list :: "(json option \<Rightarrow> 'a option) \<Rightarrow> json option \<Rightarrow> 'a list option" where
  "dec_list d v =
     (case v of None \<Rightarrow> Some [] | Some JNull \<Rightarrow> Some [] | Some (JArr vs) \<Rightarrow> dec_all d vs | _ \<Rightarrow> None)"

text \<open>A map keeps its members in the order of the text; of several members with one key the last one counts.\<close>

definition dec_map :: "(json option \<Rightarrow> 'a option) \<Rightarrow> json option \<Rightarrow> (string \<times> 'a) list option" where
  "dec_map d v =
     (case v of
        None \<Rightarrow> Some []
      | Some JNull \<Rightarrow> Some []
      | Some (JObj ms) \<Rightarrow> map_option (zip (map fst ms)) (dec_all d (map snd ms))
      | _ \<Rightarrow> None)"

text \<open>The members of the object a struct is decoded from.\<close>

definition dec_obj :: "json option \<Rightarrow> (string \<times> json) list option" where
  "dec_obj v = (case v of None \<Rightarrow> Some [] | Some JNull \<Rightarrow> Some [] | Some (JObj ms) \<Rightarrow> Some ms | _ \<Rightarrow> None)"

lemma dec_all_strings: "dec_all dec_str (map JStr xs) = Some xs"
  by (induction xs) (simp_all add: dec_str_def)

lemma dec_list_strings [simp]: "dec_list dec_str (Some (JArr (map JStr xs))) = Some xs"
  by (simp add: dec_list_def dec_all_strings)

lemma resolve_exact [simp]: "f \<in> set names \<Longrightarrow> resolve_field names f = Some f"
  by (simp add: resolve_field_def)

text \<open>When the members carry field names, each at most once, decoding is a plain lookup.\<close>

lemma struct_get_exact:
  assumes "distinct (map fst ms)" "set (map fst ms) \<subseteq> set names"
  shows "struct_get names ms f = map_of ms f"
proof -
  have *: "map (\<lambda>(k, v). (resolve_field names k, v)) ms = map (\<lambda>(k, v). (Some k, v)) ms"
    using assms(2) by (auto simp: subset_iff)
  have "distinct (map fst (map (\<lambda>(k, v). (Some k, v)) ms))"
    using assms(1) by (simp add: comp_def case_prod_beta distinct_map inj_on_def)
  then have "struct_get names ms f = map_of (map (\<lambda>(k, v). (Some k, v)) ms) (Some f)"
    unfolding struct_get_def * by (rule map_of_rev_distinct [THEN fun_cong])
  also have "\<dots> = map_of ms f" by (induction ms) auto
  finally show ?thesis .
qed

lemma dec_all_map: "(\<And>x. x \<in> set xs \<Longrightarrow> d (Some (f x)) = Some (g x)) \<Longrightarrow> dec_all d (map f xs) = Some (map g xs)"
  by (induction xs) simp_all

end
