(* ===== verification/Gate.thy ===== *)
theory Gate
  imports Secret_Model Secret_Crypto Json_Struct "HOL-Library.List_Lexorder" "HOL-Library.Char_ord"
begin

text \<open>
  The build gate of \<^verbatim>\<open>gate/gate.go\<close>: baselines, their JSON form, and the decision whether a build fails.
  The Go maps to \<^verbatim>\<open>struct{}\<close> are sets; a nil \<^verbatim>\<open>*Baseline\<close> is \<^const>\<open>None\<close>.
\<close>

section \<open>Baselines\<close>

type_synonym Policy = string

definition FailOnNewVerified :: Policy where "FailOnNewVerified = ''new_verified''"
definition FailOnNewAny :: Policy where "FailOnNewAny = ''new_any''"
definition FailOnTierKeep :: Policy where "FailOnTierKeep = ''new_tier_keep''"
definition PolicyNone :: Policy where "PolicyNone = ''none''"

definition DefaultPolicy :: Policy where
  "DefaultPolicy = FailOnNewVerified"

lemmas policy_defs = FailOnNewVerified_def FailOnNewAny_def FailOnTierKeep_def PolicyNone_def DefaultPolicy_def

definition statusActive :: string where "statusActive = ''active''"
definition tierKeep :: string where "tierKeep = ''keep''"

record Baseline =
  Fingerprints :: "string set"
  AllowedFingerprints :: "string set"
  AllowedTypes :: "string set"

definition NewBaseline :: Baseline where
  "NewBaseline = \<lparr>Fingerprints = {}, AllowedFingerprints = {}, AllowedTypes = {}\<rparr>"

definition setToSortedSlice :: "string set \<Rightarrow> string list" where
  "setToSortedSlice m = sorted_list_of_set m"

definition sliceToSet :: "string list \<Rightarrow> string set" where
  "sliceToSet s = foldl (\<lambda>out v. insert v out) {} s"

definition json_strings :: "string list \<Rightarrow> json" where
  "json_strings xs = JArr (map JStr xs)"

definition MarshalJSON :: "Baseline \<Rightarrow> string" where
  "MarshalJSON b =
     (let f = setToSortedSlice (Fingerprints b); a = setToSortedSlice (AllowedFingerprints b);
          t = setToSortedSlice (AllowedTypes b)
      in marshal (JObj ([(''fingerprints'', json_strings f)]
           @ (if a = [] then [] else [(''allowedFingerprints'', json_strings a)])
           @ (if t = [] then [] else [(''allowedTypes'', json_strings t)]))))"

definition baseline_fields :: "string list" where
  "baseline_fields = [''fingerprints'', ''allowedFingerprints'', ''allowedTypes'']"

definition UnmarshalJSON :: "string \<Rightarrow> Baseline option" where
  "UnmarshalJSON data =
     (case json_unmarshal data of
        None \<Rightarrow> None
      | Some v \<Rightarrow>
          (case dec_obj (Some v) of
             None \<Rightarrow> None
           | Some ms \<Rightarrow>
               (let get = (\<lambda>f. dec_list dec_str (struct_get baseline_fields ms f)) in
                case (get ''fingerprints'', get ''allowedFingerprints'', get ''allowedTypes'') of
                  (Some f, Some a, Some t) \<Rightarrow>
                    Some \<lparr>Fingerprints = sliceToSet f, AllowedFingerprints = sliceToSet a, AllowedTypes = sliceToSet t\<rparr>
                | _ \<Rightarrow> None)))"

definition isKnown :: "Baseline option \<Rightarrow> string \<Rightarrow> string \<Rightarrow> bool" where
  "isKnown b fp secretType =
     (case b of
        None \<Rightarrow> False
      | Some b \<Rightarrow>
          if fp \<in> Fingerprints b then True
          else if fp \<in> AllowedFingerprints b then True
          else if secretType \<in> AllowedTypes b then True
          else False)"

definition Allow :: "string \<Rightarrow> Baseline \<Rightarrow> Baseline" where
  "Allow fp b = b\<lparr>AllowedFingerprints := insert fp (AllowedFingerprints b)\<rparr>"

definition AllowType :: "string \<Rightarrow> Baseline \<Rightarrow> Baseline" where
  "AllowType t b = b\<lparr>AllowedTypes := insert t (AllowedTypes b)\<rparr>"

definition BaselineFromScan :: "env \<Rightarrow> SecretModel list \<Rightarrow> Baseline" where
  "BaselineFromScan E current =
     foldl (\<lambda>b s. b\<lparr>Fingerprints := insert (Fingerprint E (SecretString s)) (Fingerprints b)\<rparr>) NewBaseline current"

section \<open>Evaluation\<close>

record GateResult =
  NewFindings :: "SecretModel list"
  NewVerified :: "SecretModel list"
  Failed :: bool
  Reason :: string

text \<open>The loop: the new findings, those among them that are verified active, and the number of keep-tier ones.\<close>

definition gate_scan :: "env \<Rightarrow> Baseline option \<Rightarrow> SecretModel list \<Rightarrow> SecretModel list \<times> SecretModel list \<times> nat" where
  "gate_scan E base current =
     foldl (\<lambda>(nf, nv, k) s.
       if isKnown base (Fingerprint E (SecretString s)) (SecretType s) then (nf, nv, k)
       else (nf @ [s], if VerificationStatus s = statusActive then nv @ [s] else nv,
             if Tier s = tierKeep then k + 1 else k)) ([], [], 0) current"

definition Evaluate :: "env \<Rightarrow> SecretModel list \<Rightarrow> Baseline option \<Rightarrow> Policy \<Rightarrow> GateResult" where
  "Evaluate E current base policy =
     (let policy = (if policy = [] then DefaultPolicy else policy);
          (nf, nv, k) = gate_scan E base current;
          result = (\<lambda>failed reason. \<lparr>NewFindings = nf, NewVerified = nv, Failed = failed, Reason = reason\<rparr>)
      in if policy = FailOnNewAny then
           (if length nf > 0
            then result True (show_nat (length nf) @ '' new finding(s) detected (policy='' @ policy @ '')'')
            else result False ''no new findings'')
         else if policy = FailOnTierKeep then
           (if k > 0 then result True (show_nat k @ '' new keep-tier finding(s) detected (policy='' @ policy @ '')'')
            else result False ''no new keep-tier findings'')
         else if policy = PolicyNone then
           result False (''gate disabled (policy='' @ policy @ ''); '' @ show_nat (length nf) @ '' new finding(s), ''
             @ show_nat (length nv) @ '' new verified'')
         else
           (if length nv > 0
            then result True (show_nat (length nv) @ '' new verified-active finding(s) detected (policy='' @ policy @ '')'')
            else result False ''no new verified-active findings''))"

section \<open>Properties\<close>

definition is_new :: "env \<Rightarrow> Baseline option \<Rightarrow> SecretModel \<Rightarrow> bool" where
  "is_new E base s \<longleftrightarrow> \<not> isKnown base (Fingerprint E (SecretString s)) (SecretType s)"

lemma gate_scan_gen:
  "foldl (\<lambda>(nf, nv, k) s.
       if isKnown base (Fingerprint E (SecretString s)) (SecretType s) then (nf, nv, k)
       else (nf @ [s], if VerificationStatus s = statusActive then nv @ [s] else nv,
             if Tier s = tierKeep then k + 1 else k)) (nf, nv, k) current =
   (nf @ filter (is_new E base) current,
    nv @ filter (\<lambda>s. is_new E base s \<and> VerificationStatus s = statusActive) current,
    k + length (filter (\<lambda>s. is_new E base s \<and> Tier s = tierKeep) current))"
  by (induction current arbitrary: nf nv k) (auto simp: is_new_def)

lemma gate_scan_eq:
  "gate_scan E base current =
   (filter (is_new E base) current, filter (\<lambda>s. is_new E base s \<and> VerificationStatus s = statusActive) current,
    length (filter (\<lambda>s. is_new E base s \<and> Tier s = tierKeep) current))"
  by (simp add: gate_scan_def gate_scan_gen)

text \<open>The condition a new finding must meet to fail the build under a policy.\<close>

definition gating :: "Policy \<Rightarrow> SecretModel \<Rightarrow> bool" where
  "gating policy s \<longleftrightarrow>
     (if policy = FailOnNewAny then True
      else if policy = FailOnTierKeep then Tier s = tierKeep
      else if policy = PolicyNone then False
      else VerificationStatus s = statusActive)"


lemma baseline_fold:
  "foldl (\<lambda>b s. b\<lparr>Fingerprints := insert (Fingerprint E (SecretString s)) (Fingerprints b)\<rparr>) b current =
   b\<lparr>Fingerprints := Fingerprints b \<union> (Fingerprint E \<circ> SecretString) ` set current\<rparr>"
  by (induction current arbitrary: b) auto

text \<open>
  An accepted snapshot does not gate: evaluating a scan against the baseline taken from a scan with at
  least its secret values reports nothing new and passes under every policy.
\<close>

theorem snapshot_passes:
  assumes "SecretString ` set current \<subseteq> SecretString ` set accepted"
  shows "NewFindings (Evaluate E current (Some (BaselineFromScan E accepted)) policy) = [] \<and>
    \<not> Failed (Evaluate E current (Some (BaselineFromScan E accepted)) policy)"
proof -
  have "\<not> is_new E (Some (BaselineFromScan E accepted)) s" if "s \<in> set current" for s
  proof -
    from that assms obtain t where "t \<in> set accepted" "SecretString s = SecretString t" by blast
    then show ?thesis
      by (auto simp: is_new_def isKnown_def BaselineFromScan_def baseline_fold NewBaseline_def)
  qed
  then have "gate_scan E (Some (BaselineFromScan E accepted)) current = ([], [], 0)"
    by (simp add: gate_scan_eq filter_empty_conv)
  then show ?thesis by (simp add: Evaluate_def Let_def)
qed

definition relocate :: "(SecretModel \<Rightarrow> string) \<Rightarrow> (SecretModel \<Rightarrow> int) \<Rightarrow> SecretModel \<Rightarrow> SecretModel" where
  "relocate loc lnr s = s\<lparr>FileLocation := loc s, LineNo := lnr s\<rparr>"

lemma relocate_filters:
  "filter (is_new E base) (map (relocate loc lnr) cur) = map (relocate loc lnr) (filter (is_new E base) cur)"
  "filter (\<lambda>s. is_new E base s \<and> VerificationStatus s = x) (map (relocate loc lnr) cur) =
     map (relocate loc lnr) (filter (\<lambda>s. is_new E base s \<and> VerificationStatus s = x) cur)"
  "filter (\<lambda>s. is_new E base s \<and> Tier s = x) (map (relocate loc lnr) cur) =
     map (relocate loc lnr) (filter (\<lambda>s. is_new E base s \<and> Tier s = x) cur)"
  by (induction cur) (simp_all add: relocate_def is_new_def)

text \<open>
  Moved lines do not gate: changing the files and lines of findings, in any way, changes neither which findings are
  new nor the decision nor its explanation.
\<close>

theorem gate_ignores_location:
  "NewFindings (Evaluate E (map (relocate loc lnr) cur) base policy) =
     map (relocate loc lnr) (NewFindings (Evaluate E cur base policy)) \<and>
   Failed (Evaluate E (map (relocate loc lnr) cur) base policy) = Failed (Evaluate E cur base policy) \<and>
   Reason (Evaluate E (map (relocate loc lnr) cur) base policy) = Reason (Evaluate E cur base policy)"
  by (simp add: Evaluate_def gate_scan_eq Let_def relocate_filters)

text \<open>
  Allowlisting removes exactly what it names: after \<^verbatim>\<open>Allow\<close> of a fingerprint, or \<^verbatim>\<open>AllowType\<close> of a type, the new
  findings are those of before without the ones with that fingerprint, or type.
\<close>

theorem allow_exact:
  "NewFindings (Evaluate E cur (Some (Allow fp b)) policy) =
     filter (\<lambda>s. Fingerprint E (SecretString s) \<noteq> fp) (NewFindings (Evaluate E cur (Some b) policy)) \<and>
   NewFindings (Evaluate E cur (Some (AllowType t b)) policy) =
     filter (\<lambda>s. SecretType s \<noteq> t) (NewFindings (Evaluate E cur (Some b) policy))"
proof -
  have new: "NewFindings (Evaluate E cur base policy) = filter (is_new E base) cur" for base
    by (simp add: Evaluate_def gate_scan_eq Let_def)
  have "is_new E (Some (Allow fp b)) s \<longleftrightarrow> Fingerprint E (SecretString s) \<noteq> fp \<and> is_new E (Some b) s"
    "is_new E (Some (AllowType t b)) s \<longleftrightarrow> SecretType s \<noteq> t \<and> is_new E (Some b) s" for s
    by (auto simp: is_new_def isKnown_def Allow_def AllowType_def)
  then show ?thesis by (auto simp: new filter_filter intro!: filter_cong)
qed

lemma sliceToSet_eq: "sliceToSet xs = set xs"
proof -
  have "foldl (\<lambda>out v. insert v out) A xs = A \<union> set xs" for A
    by (induction xs arbitrary: A) auto
  then show ?thesis by (simp add: sliceToSet_def)
qed

lemma resolve_baseline:
  "resolve_field baseline_fields ''fingerprints'' = Some ''fingerprints''"
  "resolve_field baseline_fields ''allowedFingerprints'' = Some ''allowedFingerprints''"
  "resolve_field baseline_fields ''allowedTypes'' = Some ''allowedTypes''"
  by (simp_all add: baseline_fields_def)

lemma struct_get_baseline:
  "struct_get baseline_fields ([(''fingerprints'', f)] @ (if c then [] else [(''allowedFingerprints'', a)]) @
     (if d then [] else [(''allowedTypes'', t)])) ''fingerprints'' = Some f"
  "struct_get baseline_fields ([(''fingerprints'', f)] @ (if c then [] else [(''allowedFingerprints'', a)]) @
     (if d then [] else [(''allowedTypes'', t)])) ''allowedFingerprints'' = (if c then None else Some a)"
  "struct_get baseline_fields ([(''fingerprints'', f)] @ (if c then [] else [(''allowedFingerprints'', a)]) @
     (if d then [] else [(''allowedTypes'', t)])) ''allowedTypes'' = (if d then None else Some t)"
  by (simp_all add: struct_get_def resolve_baseline)

text \<open>
  Baselines survive the disk: a baseline with finite sets is read back from its JSON form unchanged.
\<close>

theorem baseline_round_trip:
  assumes "finite (Fingerprints b)" "finite (AllowedFingerprints b)" "finite (AllowedTypes b)"
  shows "UnmarshalJSON (MarshalJSON b) = Some b"
proof -
  let ?f = "setToSortedSlice (Fingerprints b)" and ?a = "setToSortedSlice (AllowedFingerprints b)"
    and ?t = "setToSortedSlice (AllowedTypes b)"
  let ?ms = "[(''fingerprints'', json_strings ?f)]
           @ (if ?a = [] then [] else [(''allowedFingerprints'', json_strings ?a)])
           @ (if ?t = [] then [] else [(''allowedTypes'', json_strings ?t)])"
  have "json_ok (JObj ?ms)" by (auto simp: json_strings_def list_all_iff)
  then have un: "json_unmarshal (MarshalJSON b) = Some (JObj ?ms)"
    unfolding MarshalJSON_def Let_def by (rule unmarshal_marshal)
  have get: "dec_list dec_str (struct_get baseline_fields ?ms ''fingerprints'') = Some ?f"
    "dec_list dec_str (struct_get baseline_fields ?ms ''allowedFingerprints'') = Some ?a"
    "dec_list dec_str (struct_get baseline_fields ?ms ''allowedTypes'') = Some ?t"
    unfolding struct_get_baseline by (simp_all add: json_strings_def) (simp_all add: dec_list_def)
  show ?thesis
    unfolding UnmarshalJSON_def un option.case dec_obj_def json.case Let_def get prod.case
    using assms by (simp add: sliceToSet_eq setToSortedSlice_def)
qed

section \<open>Instances\<close>

definition key_finding :: SecretModel where
  "key_finding = zero_secret\<lparr>SecretString := ''AKIA0123456789'', SecretType := ''aws-access-key''\<rparr>"

theorem snapshot_passes_witness:
  "SecretString ` set [key_finding] \<subseteq> SecretString ` set [key_finding] \<and>
   \<not> Failed (Evaluate sample_env [key_finding] (Some (BaselineFromScan sample_env [key_finding])) FailOnNewAny)"
  using snapshot_passes [of "[key_finding]" "[key_finding]" sample_env FailOnNewAny] by simp

definition sample_baseline :: Baseline where
  "sample_baseline = AllowType ''aws-access-key'' (Allow ''ab12'' NewBaseline)"

theorem baseline_round_trip_witness: "UnmarshalJSON (MarshalJSON sample_baseline) = Some sample_baseline"
  using baseline_round_trip [of sample_baseline]
  by (simp add: sample_baseline_def Allow_def AllowType_def NewBaseline_def)

end
