(* ===== verification/Go_Float.thy ===== *)
theory Go_Float
  imports Json "HOL-Library.Log_Nat"
begin

text \<open>
  Reading a JSON number into a \<^verbatim>\<open>float64\<close> and printing it with \<^verbatim>\<open>%.0f\<close>: the token denotes a fraction, which
  is rounded to the nearest binary fraction with a mantissa of 53 bits (ties to even), and the result
  is rounded to an integer (ties to even).  A magnitude beyond the largest float is a read error.
\<close>

definition round_half_even :: "int \<Rightarrow> int \<Rightarrow> int" where
  "round_half_even n d =
     (let q = n div d; r = n mod d in
      if 2 * r < d then q else if 2 * r > d then q + 1 else if even q then q else q + 1)"

text \<open>The exponent of the last mantissa bit for the positive fraction \<open>n / d\<close>.\<close>

definition float_exp :: "int \<Rightarrow> int \<Rightarrow> int" where
  "float_exp n d =
     (let e0 = bitlen n - bitlen d - 53;
          big = (if e0 \<ge> 0 then n \<ge> d * 2 ^ nat e0 * 2 ^ 53 else n * 2 ^ nat (- e0) \<ge> d * 2 ^ 53)
      in max (- 1074) (if big then e0 + 1 else e0))"

definition float_mant :: "int \<Rightarrow> int \<Rightarrow> int" where
  "float_mant n d =
     (let e = float_exp n d in
      if e \<ge> 0 then round_half_even n (d * 2 ^ nat e) else round_half_even (n * 2 ^ nat (- e)) d)"

definition float_fmt0 :: "int \<Rightarrow> int \<Rightarrow> int option" where
  "float_fmt0 n d =
     (if n = 0 then Some 0
      else
        (let e = float_exp n d; m = float_mant n d in
         if e \<ge> 0 then (if m * 2 ^ nat e \<ge> 2 ^ 1024 then None else Some (m * 2 ^ nat e))
         else Some (round_half_even m (2 ^ nat (- e)))))"

text \<open>The parts of a number token: sign, fraction.\<close>

definition num_parts :: "string \<Rightarrow> bool \<times> int \<times> int" where
  "num_parts t =
     (let neg = hasPrefix t ''-''; u = (if neg then tl t else t);
          ip = takeWhile is_digit u; r = dropWhile is_digit u;
          fp = (if hasPrefix r ''.'' then takeWhile is_digit (tl r) else []);
          r2 = (if hasPrefix r ''.'' then dropWhile is_digit (tl r) else r);
          ex = (case r2 of
                  _ # s \<Rightarrow> (if hasPrefix s ''-'' then - int (digits_val (tl s))
                            else if hasPrefix s ''+'' then int (digits_val (tl s)) else int (digits_val s))
                | [] \<Rightarrow> 0);
          m = int (digits_val (ip @ fp)); e = ex - int (length fp)
      in (neg, if e \<ge> 0 then m * 10 ^ nat e else m, if e \<ge> 0 then 1 else 10 ^ nat (- e)))"

definition fmt_float0 :: "string \<Rightarrow> string option" where
  "fmt_float0 t =
     (case num_parts t of
        (neg, n, d) \<Rightarrow>
          (case float_fmt0 n d of
             None \<Rightarrow> None
           | Some v \<Rightarrow> Some ((if neg then ''-'' else []) @ show_nat (nat v))))"

lemma round_exact: "0 < d \<Longrightarrow> round_half_even (k * d) d = k"
  by (simp add: round_half_even_def)

lemma float_fmt0_int:
  assumes "0 \<le> k" "k < 2 ^ 53"
  shows "float_fmt0 k 1 = Some k"
proof (cases "k = 0")
  case False
  then have pos: "0 < k" using assms by simp
  have "bitlen k \<le> 53" using assms by (intro bitlen_le_iff_power [THEN iffD2]) auto
  moreover have "bitlen 1 = 1" by (simp add: bitlen_def floorlog_def)
  ultimately have e: "float_exp k 1 \<le> 0" by (simp add: float_exp_def Let_def)
  have m: "float_mant k 1 = k * 2 ^ nat (- float_exp k 1)"
  proof (cases "float_exp k 1 = 0")
    case True
    then show ?thesis using round_exact [of 1 k] by (simp add: float_mant_def Let_def)
  next
    case False
    then show ?thesis
      using e round_exact [of 1 "k * 2 ^ nat (- float_exp k 1)"] by (simp add: float_mant_def Let_def)
  qed
  have "k < 2 ^ 1024" using assms(2) by (rule order.strict_trans) simp
  then show ?thesis
    using e m False by (cases "float_exp k 1 = 0") (simp_all add: float_fmt0_def Let_def round_exact)
qed (simp add: float_fmt0_def)

text \<open>Integers of at most 53 bits are printed as they were written.\<close>

lemma fmt_float0_int:
  assumes "\<bar>k\<bar> < 2 ^ 53"
  shows "fmt_float0 (show_int k) = Some (show_int k)"
proof -
  have d0: "dropWhile is_digit (show_nat n) = []" for n
    using show_nat_digits [of n] by (simp add: dropWhile_eq_Nil_conv list_all_iff)
  have parts: "num_parts (show_nat n) = (False, int n, 1)" for n
    by (simp add: num_parts_def Let_def d0)
  have nparts: "num_parts (CHR ''-'' # show_nat n) = (True, int n, 1)" for n
    by (simp add: num_parts_def Let_def d0)
  have "float_fmt0 (int (nat \<bar>k\<bar>)) 1 = Some (int (nat \<bar>k\<bar>))"
    using assms by (intro float_fmt0_int) auto
  then show ?thesis
    by (cases "k < 0") (simp_all add: fmt_float0_def show_int_def parts nparts)
qed

section \<open>Decoding into a map\<close>

type_synonym jmap = "(string \<times> json) list"

text \<open>\<^verbatim>\<open>json.Unmarshal\<close> into a map: only an object, or \<^verbatim>\<open>null\<close>, can be decoded, and every number must fit a float.\<close>

fun nums_ok :: "json \<Rightarrow> bool" where
  "nums_ok (JNum t) = (fmt_float0 t \<noteq> None)"
| "nums_ok (JArr vs) = list_all nums_ok vs"
| "nums_ok (JObj ms) = list_all (\<lambda>m. nums_ok (snd m)) ms"
| "nums_ok _ = True"

definition unmarshal_jmap :: "string \<Rightarrow> jmap option" where
  "unmarshal_jmap s =
     (case json_unmarshal s of
        Some JNull \<Rightarrow> Some []
      | Some (JObj ms) \<Rightarrow> if nums_ok (JObj ms) then Some ms else None
      | _ \<Rightarrow> None)"

end
