(* ===== verification/Comparison.thy ===== *)
theory Comparison
  imports Scan_Job Go_Float "HOL-Library.Multiset"
begin

text \<open>
  Comparison of two scan results, \<^verbatim>\<open>utils/comparison.go\<close>, on the schemaless JSON of \<^verbatim>\<open>ScanJob.Result\<close>.  The
  Go maps the secrets are indexed in are sets of keys.  An error carries the text of this file only, not
  that of the decoder.
\<close>

record ComparisonResult =
  JobID1 :: string
  JobID2 :: string
  Added :: "jmap list"
  Removed :: "jmap list"
  Unchanged :: "jmap list"
  TotalJob1 :: nat
  TotalJob2 :: nat
  AddedCount :: nat
  RemovedCount :: nat
  UnchangedCount :: nat

definition extractSecrets :: "jmap \<Rightarrow> jmap list" where
  "extractSecrets resultData =
     (case obj_get resultData ''data'' of
        Some (JObj data) \<Rightarrow>
          (case obj_get data ''secrets'' of
             Some (JArr vs) \<Rightarrow> concat (map (\<lambda>v. case v of JObj m \<Rightarrow> [m] | _ \<Rightarrow> []) vs)
           | _ \<Rightarrow> [])
      | _ \<Rightarrow> [])"

definition str_val :: "json option \<Rightarrow> string" where
  "str_val v = (case v of Some (JStr s) \<Rightarrow> s | _ \<Rightarrow> [])"

definition getSecretKey :: "jmap \<Rightarrow> string" where
  "getSecretKey secret =
     (let lineNo = (case obj_get secret ''lineNo'' of
            Some (JStr s) \<Rightarrow> s
          | Some (JNum t) \<Rightarrow> (case fmt_float0 t of Some s \<Rightarrow> s | None \<Rightarrow> [])
          | _ \<Rightarrow> [])
      in str_val (obj_get secret ''secretString'') @ ''|'' @ str_val (obj_get secret ''fileLocation'') @ ''|'' @ lineNo)"

definition index_of :: "jmap list \<Rightarrow> string set" where
  "index_of secrets = foldl (\<lambda>idx s. insert (getSecretKey s) idx) {} secrets"

text \<open>The loop that splits the secrets of the first job.\<close>

fun split_job1 :: "string set \<Rightarrow> jmap list \<Rightarrow> jmap list \<times> jmap list" where
  "split_job1 idx2 [] = ([], [])"
| "split_job1 idx2 (s # ss) =
     (case split_job1 idx2 ss of
        (unchanged, removed) \<Rightarrow>
          if getSecretKey s \<in> idx2 then (s # unchanged, removed) else (unchanged, s # removed))"

definition CompareScans :: "ScanJob \<Rightarrow> ScanJob \<Rightarrow> go_error + ComparisonResult" where
  "CompareScans job1 job2 =
     (case unmarshal_jmap (Result job1) of
        None \<Rightarrow> Inl (Errorf ''failed to parse job1 result'' [])
      | Some data1 \<Rightarrow>
          (case unmarshal_jmap (Result job2) of
             None \<Rightarrow> Inl (Errorf ''failed to parse job2 result'' [])
           | Some data2 \<Rightarrow>
               (let secrets1 = extractSecrets data1; secrets2 = extractSecrets data2;
                    idx1 = index_of secrets1; idx2 = index_of secrets2;
                    added = filter (\<lambda>s. getSecretKey s \<notin> idx1) secrets2;
                    (unchanged, removed) = split_job1 idx2 secrets1
                in Inr \<lparr>JobID1 = ID job1, JobID2 = ID job2, Added = added, Removed = removed, Unchanged = unchanged,
                        TotalJob1 = length secrets1, TotalJob2 = length secrets2, AddedCount = length added,
                        RemovedCount = length removed, UnchangedCount = length unchanged\<rparr>)))"

section \<open>Properties\<close>

lemma index_of_eq: "index_of ss = getSecretKey ` set ss"
proof -
  have "foldl (\<lambda>idx s. insert (getSecretKey s) idx) A ss = A \<union> getSecretKey ` set ss" for A
    by (induction ss arbitrary: A) auto
  then show ?thesis by (simp add: index_of_def)
qed

lemma split_job1_eq:
  "split_job1 idx ss = (filter (\<lambda>s. getSecretKey s \<in> idx) ss, filter (\<lambda>s. getSecretKey s \<notin> idx) ss)"
  by (induction ss) (simp_all split: prod.splits)

text \<open>The secrets of a job, none when its result cannot be read.\<close>

definition job_secrets :: "ScanJob \<Rightarrow> jmap list" where
  "job_secrets job = (case unmarshal_jmap (Result job) of Some d \<Rightarrow> extractSecrets d | None \<Rightarrow> [])"


text \<open>
  A scan compared with itself is unchanged: comparing a readable result with a result of the same text reports nothing added or
  removed.
\<close>

theorem compare_same:
  assumes "unmarshal_jmap (Result job1) = Some d" "Result job2 = Result job1"
  shows "\<exists>r. CompareScans job1 job2 = Inr r \<and> Added r = [] \<and> Removed r = [] \<and> Unchanged r = extractSecrets d"
  using assms by (auto simp: CompareScans_def index_of_eq split_job1_eq Let_def filter_empty_conv)

section \<open>Instances\<close>

definition result_json :: "jmap list \<Rightarrow> string" where
  "result_json ss = marshal (JObj [(''data'', JObj [(''secrets'', JArr (map JObj ss))])])"

definition key_at :: "string \<Rightarrow> string \<Rightarrow> int \<Rightarrow> jmap" where
  "key_at k f l = [(''secretString'', JStr k), (''fileLocation'', JStr f), (''lineNo'', JNum (show_int l))]"

definition job_with :: "string \<Rightarrow> jmap list \<Rightarrow> ScanJob" where
  "job_with i ss = zero_job\<lparr>ID := i, Result := result_json ss\<rparr>"

lemma unmarshal_job_with:
  assumes "\<bar>l\<bar> < 2 ^ 53"
  shows "unmarshal_jmap (Result (job_with i [key_at k f l])) =
    Some [(''data'', JObj [(''secrets'', JArr [JObj (key_at k f l)])])]"
proof -
  have "json_unmarshal (result_json [key_at k f l]) =
      Some (JObj [(''data'', JObj [(''secrets'', JArr (map JObj [key_at k f l]))])])"
    unfolding result_json_def by (rule unmarshal_marshal) (simp add: key_at_def num_show_int)
  with assms show ?thesis
    by (simp add: unmarshal_jmap_def job_with_def key_at_def fmt_float0_int)
qed

lemma extract_job_with: "extractSecrets [(''data'', JObj [(''secrets'', JArr [JObj m])])] = [m]"
  by (simp add: extractSecrets_def obj_get_def)

lemma getSecretKey_key_at: "\<bar>l\<bar> < 2 ^ 53 \<Longrightarrow> getSecretKey (key_at k f l) = k @ ''|'' @ f @ ''|'' @ show_int l"
  by (simp add: getSecretKey_def key_at_def obj_get_def str_val_def fmt_float0_int)

text \<open>
  Distinct secrets may share a key: the parts of a key are joined without escaping, so a secret that contains the
  delimiter and another secret in another file have the same key; when each is the only secret of its
  job, the comparison reports the first one as unchanged and nothing as added or removed.
\<close>

theorem key_collision:
  "\<exists>r. CompareScans (job_with ''1'' [key_at ''x|y'' ''z'' 1]) (job_with ''2'' [key_at ''x'' ''y|z'' 1]) = Inr r \<and>
     Added r = [] \<and> Removed r = [] \<and> Unchanged r = [key_at ''x|y'' ''z'' 1]"
  by (simp add: CompareScans_def unmarshal_job_with extract_job_with index_of_eq split_job1_eq getSecretKey_key_at Let_def)


theorem compare_same_witness:
  "\<exists>r. CompareScans (job_with ''1'' [key_at ''x'' ''z'' 1]) (job_with ''2'' [key_at ''x'' ''z'' 1]) = Inr r \<and>
     Added r = [] \<and> Removed r = [] \<and> Unchanged r = [key_at ''x'' ''z'' 1]"
proof -
  have "unmarshal_jmap (Result (job_with ''1'' [key_at ''x'' ''z'' 1])) =
      Some [(''data'', JObj [(''secrets'', JArr [JObj (key_at ''x'' ''z'' 1)])])]"
    by (simp add: unmarshal_job_with)
  from compare_same [OF this, of "job_with ''2'' [key_at ''x'' ''z'' 1]"] show ?thesis
    by (simp add: extract_job_with) (simp add: job_with_def)
qed

end
