(* ===== verification/Precision.thy ===== *)
theory Precision
  imports Secret_Model Go_Utf8 Go_Crypto Go_Float
begin

text \<open>
  The false-positive filter of \<^verbatim>\<open>detect/precision.go\<close>.  Its regular expressions are fixed, and each is
  translated into a matcher on bytes; under \<^verbatim>\<open>(?i)\<close> the letters \<^verbatim>\<open>s\<close> and \<^verbatim>\<open>k\<close> also match U+017F and
  U+212A, as in Go.  The entropy is computed over the reals.
\<close>

section \<open>The regular expressions\<close>

text \<open>
  A literal under \<^verbatim>\<open>(?i)\<close>, given in lower case: what is left of the subject after it.
\<close>

definition long_s :: string where
  "long_s = [CHR 0xC5, CHR 0xBF]"

definition kelvin :: string where
  "kelvin = [CHR 0xE2, CHR 0x84, CHR 0xAA]"

fun fold_prefix :: "string \<Rightarrow> string \<Rightarrow> string option" where
  "fold_prefix [] s = Some s"
| "fold_prefix (p # ps) s =
     (if p = CHR ''s'' \<and> hasPrefix s long_s then fold_prefix ps (drop 2 s)
      else if p = CHR ''k'' \<and> hasPrefix s kelvin then fold_prefix ps (drop 3 s)
      else case s of
        [] \<Rightarrow> None
      | c # r \<Rightarrow> if lower_char c = p then fold_prefix ps r else None)"

definition is_word :: "char \<Rightarrow> bool" where
  "is_word c \<longleftrightarrow> is_digit c \<or> c = CHR ''_'' \<or> (let n = (of_char (lower_char c) :: nat) in 97 \<le> n \<and> n \<le> 122)"

definition head_word :: "string \<Rightarrow> bool" where
  "head_word s = (case s of [] \<Rightarrow> False | c # _ \<Rightarrow> is_word c)"

text \<open>
  The words of \<^verbatim>\<open>placeholderRE\<close>, with the three forms of its last alternative.
\<close>

definition placeholder_words :: "string list" where
  "placeholder_words = [''test'', ''example'', ''sample'', ''fake'', ''dummy'', ''placeholder'', ''xxxx'', ''changeme'',
     ''yourkey'', ''your_key'', ''your-key'']"

text \<open>
  A match at a position is preceded and followed by a word boundary; \<open>before\<close> tells whether the
  byte before the position is a word byte.
\<close>

definition placeholder_at :: "bool \<Rightarrow> string \<Rightarrow> bool" where
  "placeholder_at before s =
     list_ex (\<lambda>w. case fold_prefix w s of
        None \<Rightarrow> False
      | Some r \<Rightarrow> before \<noteq> head_word s \<and>
          (case length s - length r of n \<Rightarrow> is_word (s ! (n - 1)) \<noteq> head_word r)) placeholder_words"

fun placeholder_from :: "bool \<Rightarrow> string \<Rightarrow> bool" where
  "placeholder_from before [] = placeholder_at before []"
| "placeholder_from before (c # s) = (placeholder_at before (c # s) \<or> placeholder_from (is_word c) s)"

definition placeholderRE :: "string \<Rightarrow> bool" where
  "placeholderRE s = placeholder_from False s"

definition bcryptRE :: "string \<Rightarrow> bool" where
  "bcryptRE s = list_ex (\<lambda>c. hasPrefix s [CHR ''$'', CHR ''2'', c, CHR ''$'']) ''abxy''"

fun fold_contains :: "string \<Rightarrow> string \<Rightarrow> bool" where
  "fold_contains p [] = (fold_prefix p [] \<noteq> None)"
| "fold_contains p (c # s) = (fold_prefix p (c # s) \<noteq> None \<or> fold_contains p s)"

definition benignDomainRE :: "string \<Rightarrow> bool" where
  "benignDomainRE s = list_ex (\<lambda>p. fold_contains p s) [''sentry.io'', ''googleapis.com'', ''apple.com'', ''crashlytics'']"

definition team_char :: "char \<Rightarrow> bool" where
  "team_char c \<longleftrightarrow> is_digit c \<or> (let n = (of_char c :: nat) in 65 \<le> n \<and> n \<le> 90)"

definition validKeychainRE :: "string \<Rightarrow> bool" where
  "validKeychainRE s \<longleftrightarrow> 11 \<le> length s \<and> list_all team_char (take 10 s) \<and> s ! 10 = CHR ''.''"

text \<open>One occurrence of \<^verbatim>\<open>pemMarkerRE\<close> at the start of the subject, and the removal of all of them.\<close>

definition pem_marker :: "string \<Rightarrow> string option" where
  "pem_marker s =
     (let close = (\<lambda>r. let q = dropWhile (\<lambda>c. c \<noteq> CHR ''-'') r in
                       if hasPrefix q ''-----'' then Some (drop 5 q) else None) in
      if hasPrefix s ''-----BEGIN'' then close (drop 10 s)
      else if hasPrefix s ''-----END'' then close (drop 8 s) else None)"

lemma dropWhile_length_le [simp]: "length (dropWhile P xs) \<le> length xs"
  by (induction xs) auto

lemma pem_marker_shorter: "pem_marker s = Some r \<Longrightarrow> length r < length s"
proof -
  assume a: "pem_marker s = Some r"
  have "length r + 5 \<le> length q" if "hasPrefix q ''-----''" "r = drop 5 q" for q
    using that by (auto simp: hasPrefix_iff dest: prefix_length_le)
  moreover have "8 \<le> length s" if "hasPrefix s ''-----BEGIN'' \<or> hasPrefix s ''-----END''"
    using that by (auto simp: hasPrefix_iff dest!: prefix_length_le)
  ultimately show ?thesis
    using a dropWhile_length_le [of "\<lambda>c. c \<noteq> CHR ''-''" "drop 10 s"] dropWhile_length_le [of "\<lambda>c. c \<noteq> CHR ''-''" "drop 8 s"]
    by (fastforce simp: pem_marker_def Let_def split: if_splits)
qed

function strip_pem :: "string \<Rightarrow> string" where
  "strip_pem s =
     (case pem_marker s of
        Some r \<Rightarrow> strip_pem r
      | None \<Rightarrow> (case s of [] \<Rightarrow> [] | c # r \<Rightarrow> c # strip_pem r))"
  by pat_completeness auto

termination
  by (relation "measure length") (auto simp: pem_marker_shorter)

declare strip_pem.simps [simp del]

definition b64_class :: "char \<Rightarrow> bool" where
  "b64_class c \<longleftrightarrow> is_digit c \<or> c = CHR ''+'' \<or> c = CHR ''/'' \<or> (let n = (of_char (lower_char c) :: nat) in 97 \<le> n \<and> n \<le> 122)"

fun has_run :: "(char \<Rightarrow> bool) \<Rightarrow> nat \<Rightarrow> nat \<Rightarrow> string \<Rightarrow> bool" where
  "has_run P n k [] = (n \<le> k)"
| "has_run P n k (c # s) = (n \<le> k \<or> has_run P n (if P c then Suc k else 0) s)"

definition hasPEMBody :: "string \<Rightarrow> bool" where
  "hasPEMBody v = has_run b64_class 40 0 (strip_pem v)"

section \<open>Types of findings\<close>

definition isPrivateKeyType :: "string \<Rightarrow> bool" where
  "isPrivateKeyType t = str_contains (toLower t) ''private key''"

definition isKeychainGroupType :: "string \<Rightarrow> bool" where
  "isKeychainGroupType t = hasPrefix t ''iOS Keychain Access Group''"

definition isCredentialType :: "string \<Rightarrow> bool" where
  "isCredentialType t =
     (if isPrivateKeyType t \<or> t = ''JSON Web Token (JWT)'' \<or> isKeychainGroupType t then False else True)"

definition publicTypes :: "string list" where
  "publicTypes = [''Google Cloud Platform OAuth'', ''iOS Google Reversed Client ID Scheme'', ''Firebase Database URL'']"

section \<open>Signals\<close>

definition isAllAlpha :: "string \<Rightarrow> bool" where
  "isAllAlpha w \<longleftrightarrow> w \<noteq> [] \<and> list_all (\<lambda>c. let n = (of_char (lower_char c) :: nat) in 97 \<le> n \<and> n \<le> 122) w"

text \<open>\<^verbatim>\<open>strings.Fields\<close>: the maximal runs without white space.\<close>

fun fields_from :: "string \<Rightarrow> string \<Rightarrow> string list" where
  "fields_from acc [] = (if acc = [] then [] else [rev acc])"
| "fields_from acc (c # s) =
     (case find (\<lambda>p. hasPrefix (c # s) p) space_seqs of
        Some p \<Rightarrow> (if acc = [] then [] else [rev acc]) @ fields_from [] (drop (length p - 1) s)
      | None \<Rightarrow> fields_from (c # acc) s)"

definition looksNaturalLanguage :: "string \<Rightarrow> bool" where
  "looksNaturalLanguage v =
     (if \<not> list_ex (\<lambda>c. c = CHR '' '' \<or> c = CHR 0x09) (trimSpace v) then False
      else 2 \<le> length (filter (\<lambda>w. 4 \<le> length w \<and> isAllAlpha w) (fields_from [] v)))"

definition shannonEntropy :: "string \<Rightarrow> real" where
  "shannonEntropy s =
     (let rs = to_runes s; n = real (length rs) in
      - (\<Sum>r\<in>set rs. real (count_list rs r) / n * log 2 (real (count_list rs r) / n)))"

definition countDigits :: "string \<Rightarrow> nat" where
  "countDigits s = length (filter is_digit s)"

definition precisionScore :: "real \<Rightarrow> nat \<Rightarrow> nat \<Rightarrow> real" where
  "precisionScore entropy digits len =
     (let e = (if entropy / 6 > 1 then 1 else entropy / 6);
          score = 7 / 10 * e;
          score = (if digits \<ge> 2 then score + 15 / 100 else score);
          score = (if len \<ge> 20 then score + 15 / 100 else score);
          score = (if score > 1 then 1 else score)
      in if score < 0 then 0 else score)"

text \<open>\<^verbatim>\<open>base64.URLEncoding\<close> and \<^verbatim>\<open>RawURLEncoding\<close>: the alphabet with \<^verbatim>\<open>-\<close> and \<^verbatim>\<open>_\<close>.\<close>

definition url64_char :: "char \<Rightarrow> char" where
  "url64_char c =
     (if c = CHR ''-'' then CHR ''+'' else if c = CHR ''_'' then CHR ''/''
      else if c = CHR ''+'' \<or> c = CHR ''/'' then CHR 0x00 else c)"

definition url64_decode :: "bool \<Rightarrow> string \<Rightarrow> bytes option" where
  "url64_decode padded s = b64_decode padded (map url64_char s)"

definition jwtIsPublicCert :: "string \<Rightarrow> bool" where
  "jwtIsPublicCert v =
     (let seg = takeWhile (\<lambda>c. c \<noteq> CHR ''.'') v;
          seg = seg @ replicate ((4 - length seg mod 4) mod 4) (CHR ''='');
          raw = (case url64_decode True seg of
                   Some r \<Rightarrow> Some r
                 | None \<Rightarrow> url64_decode False (rev (dropWhile (\<lambda>c. c = CHR ''='') (rev seg))))
      in case raw of
           None \<Rightarrow> False
         | Some bs \<Rightarrow>
             (case unmarshal_jmap (map (\<lambda>b. char_of (unat b)) bs) of
                None \<Rightarrow> False
              | Some hdr \<Rightarrow> obj_get hdr ''x5c'' \<noteq> None \<or> obj_get hdr ''x5u'' \<noteq> None \<or> obj_get hdr ''jku'' \<noteq> None))"

section \<open>Classification\<close>

datatype precisionVerdict = precisionDrop | precisionInfo | precisionKeep

definition classifyPrecision :: "SecretModel \<Rightarrow> precisionVerdict \<times> real" where
  "classifyPrecision s =
     (let t = SecretType s;
          v = trimSpace (map (\<lambda>c. if c = CHR 0x0A then CHR '' '' else c) (SecretString s));
          score = precisionScore (shannonEntropy v) (countDigits v) (length v)
      in if placeholderRE v then (precisionDrop, 0)
         else if bcryptRE v then (precisionDrop, 0)
         else if isCredentialType t \<and> looksNaturalLanguage v then (precisionDrop, 0)
         else if isPrivateKeyType t \<and> \<not> hasPEMBody v then (precisionDrop, 0)
         else if t = ''JSON Web Token (JWT)'' \<and> jwtIsPublicCert v then (precisionDrop, 0)
         else if isKeychainGroupType t \<and> (v = ''keychain-access-groups'' \<or> benignDomainRE v \<or> \<not> validKeychainRE v)
           then (precisionDrop, 0)
         else if t \<in> set publicTypes then (precisionInfo, score)
         else if isKeychainGroupType t then (precisionInfo, score)
         else (precisionKeep, score))"

fun ApplyPrecision :: "SecretModel list \<Rightarrow> SecretModel list" where
  "ApplyPrecision [] = []"
| "ApplyPrecision (s # ss) =
     (case classifyPrecision s of
        (precisionDrop, _) \<Rightarrow> ApplyPrecision ss
      | (precisionInfo, score) \<Rightarrow> s\<lparr>Tier := ''info'', SecretConfidence := ''low'', Score := score\<rparr> # ApplyPrecision ss
      | (precisionKeep, score) \<Rightarrow> s\<lparr>Tier := ''keep'', Score := score\<rparr> # ApplyPrecision ss)"

section \<open>Properties\<close>

text \<open>The reference: keep what is not dropped, in order, and relabel it.\<close>

definition relabel :: "SecretModel \<Rightarrow> SecretModel" where
  "relabel s =
     (case classifyPrecision s of
        (precisionInfo, score) \<Rightarrow> s\<lparr>Tier := ''info'', SecretConfidence := ''low'', Score := score\<rparr>
      | (_, score) \<Rightarrow> s\<lparr>Tier := ''keep'', Score := score\<rparr>)"

lemma ApplyPrecision_eq: "ApplyPrecision ss = map relabel (filter (\<lambda>s. fst (classifyPrecision s) \<noteq> precisionDrop) ss)"
  by (induction ss) (auto simp: relabel_def split: prod.split precisionVerdict.split)

text \<open>The classification reads the type and the value only.\<close>

lemma classify_relabel: "classifyPrecision (relabel s) = classifyPrecision s"
proof -
  have "SecretType (relabel s) = SecretType s" "SecretString (relabel s) = SecretString s"
    by (simp_all add: relabel_def split: prod.split precisionVerdict.split)
  then show ?thesis by (simp add: classifyPrecision_def)
qed

lemma relabel_idem: "relabel (relabel s) = relabel s"
proof -
  obtain v x where c: "classifyPrecision s = (v, x)" by (cases "classifyPrecision s")
  then show ?thesis
    using classify_relabel [of s] unfolding relabel_def [of "relabel s"]
    by (cases v) (simp_all add: relabel_def)
qed

lemma precisionScore_range: "0 \<le> precisionScore e d n \<and> precisionScore e d n \<le> 1"
  by (simp add: precisionScore_def Let_def)

lemma classify_range: "0 \<le> snd (classifyPrecision s) \<and> snd (classifyPrecision s) \<le> 1"
  by (simp add: classifyPrecision_def Let_def precisionScore_range)


text \<open>A value that carries a placeholder as a word of its own is dropped, whatever its type.\<close>

lemma fold_prefix_self: "list_all (\<lambda>c. lower_char c = c \<and> (of_char c :: nat) < 128) p \<Longrightarrow> fold_prefix p (p @ s) = Some s"
  by (induction p) (auto simp: long_s_def kelvin_def)

lemma placeholder_from_append:
  "placeholder_at b (w @ s) \<Longrightarrow> (pre = [] \<longrightarrow> b = b0) \<Longrightarrow> (pre \<noteq> [] \<longrightarrow> b = is_word (last pre)) \<Longrightarrow> placeholder_from b0 (pre @ w @ s)"
proof (induction pre arbitrary: b0)
  case Nil
  then show ?case by (cases "w @ s") auto
next
  case (Cons c pre)
  then show ?case by (cases pre) auto
qed

lemma placeholder_word_dropped:
  assumes w: "w \<in> set placeholder_words" and pre: "pre = [] \<or> \<not> is_word (last pre)" and post: "\<not> head_word post"
  shows "placeholderRE (pre @ w @ post)"
proof -
  have all: "list_all (\<lambda>w. list_all (\<lambda>c. lower_char c = c \<and> (of_char c :: nat) < 128) w \<and> w \<noteq> [] \<and> is_word (hd w) \<and> is_word (last w)) placeholder_words"
    by (simp add: placeholder_words_def lower_char_def is_word_def is_digit_def Let_def)
  with w have p: "fold_prefix w (w @ post) = Some post" "w \<noteq> []" "is_word (hd w)" "is_word (last w)"
    by (auto simp: list_all_iff fold_prefix_self)
  have h: "head_word (w @ post)" using p(2,3) by (cases w) (simp_all add: head_word_def)
  have l: "is_word ((w @ post) ! (length w - 1))" using p(2,4) by (simp add: nth_append last_conv_nth)
  have "placeholder_at False (w @ post)"
    using w p post h l by (auto simp: placeholder_at_def list_ex_iff intro!: bexI [of _ w])
  then show ?thesis
    unfolding placeholderRE_def using pre by (intro placeholder_from_append) auto
qed

end
