(* ===== verification/Cache.thy ===== *)
theory Cache
  imports World Json_Struct
begin

text \<open>
  The metadata cache of \<^verbatim>\<open>utils/cache.go\<close>: models keyed by the hash of an archive, stored in Redis under
  a key that carries the version of the detection patterns.  A pod keeps a local copy of that version;
  bumping the counter in Redis makes all older entries invisible.  The functions take the pod's own
  variables (\<^verbatim>\<open>patternVersion\<close>, \<^verbatim>\<open>redisClient\<close> and \<^verbatim>\<open>cacheEnabled\<close>) as an argument and return them.
\<close>

section \<open>Keys and state\<close>

definition metadataCachePrefix :: string where "metadataCachePrefix = ''morf:metadata:''"
definition packageDataCachePrefix :: string where "packageDataCachePrefix = ''morf:package_data:''"
definition patternVersionKey :: string where "patternVersionKey = ''morf:pattern_version''"
definition metadataCacheTTL :: int where "metadataCacheTTL = 7 * 24 * 3600"
definition invalidateAllSentinel :: string where "invalidateAllSentinel = ''*''"

record pod =
  patternVersion :: int
  redisClient :: bool
  cacheEnabled :: bool

definition setRedisClient :: "bool \<Rightarrow> bool \<Rightarrow> pod \<Rightarrow> pod" where
  "setRedisClient client enabled p = p\<lparr>redisClient := client, cacheEnabled := enabled\<rparr>"

definition IsCacheEnabled :: "pod \<Rightarrow> bool" where
  "IsCacheEnabled p = (cacheEnabled p \<and> redisClient p)"

definition metadataKey :: "pod \<Rightarrow> string \<Rightarrow> string" where
  "metadataKey p apkHash = metadataCachePrefix @ ''v'' @ show_int (patternVersion p) @ '':'' @ apkHash"

definition packageDataKey :: "string \<Rightarrow> string" where
  "packageDataKey apkHash = packageDataCachePrefix @ apkHash"

section \<open>The pattern version\<close>

text \<open>\<^verbatim>\<open>client.Get(...).Int64()\<close>, with an absent key mapped to 0.\<close>

definition get_version :: "'s redis \<Rightarrow> ('s, int) op" where
  "get_version R =
     op_bind (rcall (read_cmd (\<lambda>s. k_str (view R s) patternVersionKey)))
       (\<lambda>got. case got of
          None \<Rightarrow> op_ret 0
        | Some x \<Rightarrow> (case atoi x of
              Some v \<Rightarrow> op_ret v
            | None \<Rightarrow> op_fail (Errorf (''strconv.ParseInt: parsing '' @ x) [])))"

definition loadPatternVersion :: "'s redis \<Rightarrow> pod \<Rightarrow> ('s, int \<times> pod) op" where
  "loadPatternVersion R p =
     (if \<not> redisClient p then op_ret (0, p)
      else op_bind (op_try (redisDo (get_version R)))
        (\<lambda>r. op_ret (case r of
           Inl e \<Rightarrow> (patternVersion p, p)
         | Inr v \<Rightarrow> (v, p\<lparr>patternVersion := v\<rparr>))))"

definition RefreshPatternVersion :: "'s redis \<Rightarrow> pod \<Rightarrow> ('s, int \<times> pod) op" where
  "RefreshPatternVersion R p = loadPatternVersion R p"

text \<open>
  Initialisation: the client is swapped in when it answers a \<^verbatim>\<open>PING\<close>; \<open>parseURL\<close> is the client library's
  reading of the address.  The result is the pod's state and the error that is returned.
\<close>

definition ping :: "('s, unit) op" where
  "ping = rcall (read_cmd (\<lambda>_. ()))"

definition InitCache :: "'s redis \<Rightarrow> (string \<Rightarrow> go_error option) \<Rightarrow> string \<Rightarrow> pod \<Rightarrow> ('s, pod \<times> go_error option) op" where
  "InitCache R parseURL url p =
     (if url = [] then op_ret (setRedisClient False False p, None)
      else case parseURL url of
        Some e \<Rightarrow> op_ret (setRedisClient False False p, Some e)
      | None \<Rightarrow>
          op_bind (op_try ping)
            (\<lambda>r. case r of
               Inl e \<Rightarrow> op_ret (setRedisClient False False p, Some e)
             | Inr _ \<Rightarrow> op_bind (loadPatternVersion R (setRedisClient True True p)) (\<lambda>(v, p'). op_ret (p', None))))"

definition InitCacheFromClient :: "'s redis \<Rightarrow> bool \<Rightarrow> pod \<Rightarrow> ('s, pod) op" where
  "InitCacheFromClient R client p =
     (if \<not> client then op_ret (setRedisClient False False p)
      else op_bind (op_try ping)
        (\<lambda>r. case r of
           Inl e \<Rightarrow> op_ret (setRedisClient False False p)
         | Inr _ \<Rightarrow> op_bind (loadPatternVersion R (setRedisClient True True p)) (\<lambda>(v, p'). op_ret p')))"

section \<open>Reading and writing entries\<close>

text \<open>
  The two kinds of models are stored in the same way; \<open>enc\<close> and \<open>dec\<close> are \<^verbatim>\<open>json.Marshal\<close> and
  \<^verbatim>\<open>json.Unmarshal\<close> for the model.  A result \<^verbatim>\<open>(model, true)\<close> is \<^const>\<open>Some\<close>, and \<^verbatim>\<open>(zero, false)\<close> is
  \<^const>\<open>None\<close>.
\<close>

definition get_entry :: "'s redis \<Rightarrow> key \<Rightarrow> ('s, go_error + string option) op" where
  "get_entry R k = op_try (redisDo (rcall (read_cmd (\<lambda>s. k_str (view R s) k))))"

definition set_entry :: "'s redis \<Rightarrow> key \<Rightarrow> string \<Rightarrow> ('s, unit) op" where
  "set_entry R k data = redisDo (rcall (write_cmd (cmd_set_ex R k data metadataCacheTTL)))"

definition GetMetadataFromCache :: "'s redis \<Rightarrow> (string \<Rightarrow> 'm option) \<Rightarrow> pod \<Rightarrow> string \<Rightarrow> ('s, 'm option \<times> pod) op" where
  "GetMetadataFromCache R dec p apkHash =
     (if \<not> redisClient p then op_ret (None, p)
      else op_bind (get_entry R (metadataKey p apkHash))
        (\<lambda>r. case r of
           Inr None \<Rightarrow> op_bind (loadPatternVersion R p) (\<lambda>(v, p'). op_ret (None, p'))
         | Inl e \<Rightarrow> op_ret (None, p)
         | Inr (Some data) \<Rightarrow> op_ret (dec data, p)))"

definition SetMetadataInCache :: "'s redis \<Rightarrow> ('m \<Rightarrow> go_error + string) \<Rightarrow> pod \<Rightarrow> string \<Rightarrow> 'm \<Rightarrow> ('s, unit) op" where
  "SetMetadataInCache R enc p apkHash metadata =
     (if \<not> redisClient p then op_ret ()
      else case enc metadata of
        Inl e \<Rightarrow> op_fail (Errorf (''failed to marshal metadata: '' @ err_msg e) [])
      | Inr data \<Rightarrow> set_entry R (metadataKey p apkHash) data)"

definition GetPackageDataFromCache :: "'s redis \<Rightarrow> (string \<Rightarrow> 'm option) \<Rightarrow> pod \<Rightarrow> string \<Rightarrow> ('s, 'm option) op" where
  "GetPackageDataFromCache R dec p apkHash =
     (if \<not> redisClient p then op_ret None
      else op_bind (get_entry R (packageDataKey apkHash))
        (\<lambda>r. case r of
           Inr None \<Rightarrow> op_ret None
         | Inl e \<Rightarrow> op_ret None
         | Inr (Some data) \<Rightarrow> op_ret (dec data)))"

definition SetPackageDataInCache :: "'s redis \<Rightarrow> ('m \<Rightarrow> go_error + string) \<Rightarrow> pod \<Rightarrow> string \<Rightarrow> 'm \<Rightarrow> ('s, unit) op" where
  "SetPackageDataInCache R enc p apkHash packageData =
     (if \<not> redisClient p then op_ret ()
      else case enc packageData of
        Inl e \<Rightarrow> op_fail (Errorf (''failed to marshal package data: '' @ err_msg e) [])
      | Inr data \<Rightarrow> set_entry R (packageDataKey apkHash) data)"

section \<open>Package data\<close>

text \<open>
  \<^verbatim>\<open>models.PackageDataModel\<close> and its JSON form.  A nil slice, which is written as \<^verbatim>\<open>null\<close>, is \<^const>\<open>None\<close>.
\<close>

type_synonym JSONStringArray = "string list option"

record PackageDataModel =
  PackageDataID :: int
  PD_APKHash :: string
  PackageName :: string
  VersionCode :: string
  VersionName :: string
  CompileSdkVersion :: string
  SdkVersion :: string
  TargetSdk :: string
  MinSDK :: string
  SupportScreens :: JSONStringArray
  Densities :: JSONStringArray
  NativeCode :: JSONStringArray

definition enc_array :: "JSONStringArray \<Rightarrow> json" where
  "enc_array a = (case a of None \<Rightarrow> JNull | Some xs \<Rightarrow> JArr (map JStr xs))"

definition dec_array :: "json option \<Rightarrow> JSONStringArray option" where
  "dec_array v =
     (case v of
        None \<Rightarrow> Some None
      | Some JNull \<Rightarrow> Some None
      | Some (JArr vs) \<Rightarrow> map_option Some (dec_all dec_str vs)
      | _ \<Rightarrow> None)"

definition package_members :: "PackageDataModel \<Rightarrow> (string \<times> json) list" where
  "package_members m =
     [(''packageDataId'', JNum (show_int (PackageDataID m))), (''apkHash'', JStr (PD_APKHash m)),
      (''packageName'', JStr (PackageName m)), (''versionCode'', JStr (VersionCode m)),
      (''versionName'', JStr (VersionName m)), (''compileSdkVersion'', JStr (CompileSdkVersion m)),
      (''sdkVersion'', JStr (SdkVersion m)), (''targetSdk'', JStr (TargetSdk m)), (''minSdk'', JStr (MinSDK m)),
      (''supportScreens'', enc_array (SupportScreens m)), (''densities'', enc_array (Densities m)),
      (''nativeCode'', enc_array (NativeCode m))]"

definition package_fields :: "string list" where
  "package_fields = [''packageDataId'', ''apkHash'', ''packageName'', ''versionCode'', ''versionName'', ''compileSdkVersion'',
     ''sdkVersion'', ''targetSdk'', ''minSdk'', ''supportScreens'', ''densities'', ''nativeCode'']"

definition enc_package :: "PackageDataModel \<Rightarrow> go_error + string" where
  "enc_package m = Inr (marshal (JObj (package_members m)))"

definition dec_members :: "(string \<times> json) list \<Rightarrow> PackageDataModel option" where
  "dec_members ms =
     (let get = struct_get package_fields ms; str = (\<lambda>f. dec_str (get f)); arr = (\<lambda>f. dec_array (get f)) in
      case (dec_int (get ''packageDataId''), str ''apkHash'', str ''packageName'', str ''versionCode'', str ''versionName'',
            str ''compileSdkVersion'', str ''sdkVersion'', str ''targetSdk'', str ''minSdk'',
            arr ''supportScreens'', arr ''densities'', arr ''nativeCode'') of
        (Some i, Some h, Some pn, Some vc, Some vn, Some cs, Some sv, Some ts, Some ms, Some ss, Some ds, Some nc) \<Rightarrow>
          Some \<lparr>PackageDataID = i, PD_APKHash = h, PackageName = pn, VersionCode = vc, VersionName = vn,
                CompileSdkVersion = cs, SdkVersion = sv, TargetSdk = ts, MinSDK = ms,
                SupportScreens = ss, Densities = ds, NativeCode = nc\<rparr>
      | _ \<Rightarrow> None)"

definition dec_package :: "string \<Rightarrow> PackageDataModel option" where
  "dec_package data =
     (case json_unmarshal data of
        None \<Rightarrow> None
      | Some v \<Rightarrow> (case dec_obj (Some v) of None \<Rightarrow> None | Some ms \<Rightarrow> dec_members ms))"

lemma dec_enc_array [simp]: "dec_array (Some (enc_array a)) = Some a"
  by (cases a) (simp_all add: enc_array_def dec_array_def dec_all_strings)

lemma json_ok_array [simp]: "json_ok (enc_array a)"
  by (auto simp: enc_array_def list_all_iff split: option.split)

lemma dec_enc_package:
  assumes "in_int64 (PackageDataID m)" "enc_package m = Inr data"
  shows "dec_package data = Some m"
proof -
  have ok: "json_ok (JObj (package_members m))"
    by (simp add: package_members_def num_show_int)
  have get: "struct_get package_fields (package_members m) = map_of (package_members m)"
    by (rule ext, rule struct_get_exact) (simp_all add: package_members_def package_fields_def)
  have "dec_members (package_members m) = Some m"
    unfolding dec_members_def get
    using assms(1) by (simp add: package_members_def dec_int_def dec_str_def Let_def)
  with assms(2) unmarshal_marshal [OF ok] show ?thesis
    by (auto simp: enc_package_def dec_package_def dec_obj_def)
qed

section \<open>Invalidation\<close>

text \<open>\<^verbatim>\<open>PUBLISH\<close> reaches the subscribers and leaves the data alone.\<close>

definition publishInvalidation :: "pod \<Rightarrow> ('s, unit) op" where
  "publishInvalidation p = (if \<not> redisClient p then op_ret () else op_ignore (redisDo (rcall (read_cmd (\<lambda>_. ())))))"

definition bump_version :: "'s redis \<Rightarrow> ('s, int) op" where
  "bump_version R =
     op_bind (rcall (cmd_incr R patternVersionKey))
       (\<lambda>r. case r of
          None \<Rightarrow> op_fail (Errorf ''ERR value is not an integer or out of range'' [])
        | Some v \<Rightarrow> op_ret v)"

definition InvalidateAllMetadataCache :: "'s redis \<Rightarrow> pod \<Rightarrow> ('s, pod) op" where
  "InvalidateAllMetadataCache R p =
     (if \<not> redisClient p then op_ret p
      else op_bind (redisDo (bump_version R))
        (\<lambda>v. let p' = p\<lparr>patternVersion := v\<rparr> in op_seq (publishInvalidation p') (op_ret p')))"

definition handleInvalidationMessage :: "'s redis \<Rightarrow> string \<Rightarrow> pod \<Rightarrow> ('s, pod) op" where
  "handleInvalidationMessage R payload p =
     (if payload = invalidateAllSentinel then op_bind (loadPatternVersion R p) (\<lambda>(v, p'). op_ret p')
      else op_ret p)"

text \<open>
  The goroutine of \<^verbatim>\<open>StartCacheInvalidationSubscriber\<close>: it handles the messages that arrive until the
  context ends or the channel is closed; \<open>msgs\<close> are those that arrive before that.
\<close>

fun subscriber_loop :: "'s redis \<Rightarrow> string list \<Rightarrow> pod \<Rightarrow> ('s, pod) op" where
  "subscriber_loop R [] p = op_ret p"
| "subscriber_loop R (m # ms) p = op_bind (handleInvalidationMessage R m p) (subscriber_loop R ms)"

definition StartCacheInvalidationSubscriber :: "'s redis \<Rightarrow> string list \<Rightarrow> pod \<Rightarrow> ('s, pod) op" where
  "StartCacheInvalidationSubscriber R msgs p = (if \<not> redisClient p then op_ret p else subscriber_loop R msgs p)"

text \<open>One tick of \<^verbatim>\<open>StartPatternVersionRefresher\<close>, whose interval defaults to a minute.\<close>

definition refresh_tick :: "'s redis \<Rightarrow> pod \<Rightarrow> ('s, pod) op" where
  "refresh_tick R p =
     (if \<not> redisClient p then op_ret p else op_bind (loadPatternVersion R p) (\<lambda>(v, p'). op_ret p'))"

section \<open>Versions\<close>

text \<open>The value of the counter, and the key of an entry by its version.\<close>

definition version_of :: "keyspace \<Rightarrow> int option" where
  "version_of v = (case k_str v patternVersionKey of None \<Rightarrow> Some 0 | Some x \<Rightarrow> atoi x)"

definition entry_key :: "int \<Rightarrow> string \<Rightarrow> string" where
  "entry_key v apkHash = metadataCachePrefix @ ''v'' @ show_int v @ '':'' @ apkHash"

lemma metadataKey_entry: "metadataKey p h = entry_key (patternVersion p) h"
  by (simp add: metadataKey_def entry_key_def)

lemma show_int_no_colon: "CHR '':'' \<notin> set (show_int i)"
  using num_show_int(2) [of i] by (auto simp: list_all_iff is_num_char_def is_digit_def)

lemma entry_key_inj [simp]: "entry_key v h = entry_key v' h' \<longleftrightarrow> v = v' \<and> h = h'"
proof
  assume "entry_key v h = entry_key v' h'"
  then have e: "show_int v @ CHR '':'' # h = show_int v' @ CHR '':'' # h'" by (simp add: entry_key_def)
  have "takeWhile (\<lambda>c. c \<noteq> CHR '':'') (show_int i @ CHR '':'' # t) = show_int i" for i t
    using show_int_no_colon [of i] by (subst takeWhile_append2) auto
  with e have "show_int v = show_int v'" by metis
  with e show "v = v' \<and> h = h'" by simp
qed simp

lemma keys_apart [simp]:
  "entry_key v h \<noteq> patternVersionKey" "packageDataKey h \<noteq> patternVersionKey" "packageDataKey h \<noteq> entry_key v h'"
  "patternVersionKey \<noteq> entry_key v h" "patternVersionKey \<noteq> packageDataKey h"
  by (simp_all add: entry_key_def patternVersionKey_def packageDataKey_def metadataCachePrefix_def packageDataCachePrefix_def)

section \<open>The fleet\<close>

text \<open>
  What the pods do, in any order and with any network: each event is one call on one pod.  The other
  clients of the server, the passage of time (entries expire, the counter has no expiry) and restarts
  of pods happen in between.
\<close>

datatype cache_event =
    CacheInit
  | CacheGet string
  | CacheSet string string
  | CacheInvalidate
  | CacheMessage string
  | CacheTick

definition pod_run :: "'s redis \<Rightarrow> cache_event \<Rightarrow> pod \<Rightarrow> ('s, pod) op" where
  "pod_run R ev p =
     (case ev of
        CacheInit \<Rightarrow> InitCacheFromClient R True p
      | CacheGet h \<Rightarrow> op_bind (GetMetadataFromCache R Some p h) (\<lambda>(m, p'). op_ret p')
      | CacheSet h data \<Rightarrow> op_seq (SetMetadataInCache R Inr p h data) (op_ret p)
      | CacheInvalidate \<Rightarrow> InvalidateAllMetadataCache R p
      | CacheMessage m \<Rightarrow> handleInvalidationMessage R m p
      | CacheTick \<Rightarrow> refresh_tick R p)"

definition after_event :: "go_error + pod \<Rightarrow> pod \<Rightarrow> pod" where
  "after_event r p = (case r of Inl _ \<Rightarrow> p | Inr p' \<Rightarrow> p')"

definition entries_kept :: "keyspace \<Rightarrow> keyspace \<Rightarrow> bool" where
  "entries_kept v v' \<longleftrightarrow> k_str v' patternVersionKey = k_str v patternVersionKey \<and>
     (\<forall>n h. k_str v' (entry_key n h) = k_str v (entry_key n h) \<or> k_str v' (entry_key n h) = None)"

definition fresh_pod :: pod where
  "fresh_pod = \<lparr>patternVersion = 0, redisClient = False, cacheEnabled = False\<rparr>"

inductive fleet :: "'s redis \<Rightarrow> (nat \<Rightarrow> pod) \<Rightarrow> 's world \<Rightarrow> bool" for R where
  start: "k_str (view R (server w)) = Map.empty \<Longrightarrow> fleet R (\<lambda>_. fresh_pod) w"
| event: "fleet R ps w \<Longrightarrow> pod_run R ev (ps i) w = (r, w') \<Longrightarrow> fleet R (ps(i := after_event r (ps i))) w'"
| restart: "fleet R ps w \<Longrightarrow> fleet R (ps(i := fresh_pod)) w"
| other: "fleet R ps w \<Longrightarrow> entries_kept (view R (server w)) (view R (server w')) \<Longrightarrow> fleet R ps w'"

text \<open>No entry and no pod is ahead of the counter.\<close>

definition behind :: "'s redis \<Rightarrow> int \<Rightarrow> 's \<Rightarrow> bool" where
  "behind R m s \<longleftrightarrow> (\<exists>n. version_of (view R s) = Some n \<and> m \<le> n \<and> (\<forall>v h. k_str (view R s) (entry_key v h) \<noteq> None \<longrightarrow> v \<le> n))"

abbreviation versions_ok :: "'s redis \<Rightarrow> 's \<Rightarrow> bool" where
  "versions_ok R \<equiv> behind R 0"

definition pods_behind :: "'s redis \<Rightarrow> int \<Rightarrow> int \<Rightarrow> 's \<Rightarrow> bool" where
  "pods_behind R m n s \<longleftrightarrow> behind R m s \<and> behind R n s"

section \<open>Every event keeps the versions\<close>

context redis_server
begin

lemma behind_incr:
  assumes "behind R m s"
  shows "behind R m (snd (cmd_incr R patternVersionKey s))"
    "fst (cmd_incr R patternVersionKey s) = Some v \<Longrightarrow> behind R v (snd (cmd_incr R patternVersionKey s))"
  using assms unfolding behind_def view_incr incr_value
  by (fastforce simp: ks_incr_def ks_incr_val_def version_of_def in_int64_def split: option.splits if_splits)+

lemma behind_set:
  assumes "behind R m s" "behind R v s"
  shows "behind R m (cmd_set_ex R (entry_key v h) data ttl s)"
  using assms by (auto simp: behind_def view_set_ex version_of_def split: option.splits)

lemma behind_version: "behind R m s \<Longrightarrow> version_of (view R s) = Some v \<Longrightarrow> behind R v s"
  by (auto simp: behind_def)

lemma hoare_get_version:
  "hoare (behind R m) (get_version R) (\<lambda>r s. behind R m s \<and> (\<forall>v. r = Inr v \<longrightarrow> behind R v s))"
  unfolding get_version_def
  by (rule hoare_bind [OF hoare_read [where Q = "\<lambda>r s. behind R m s \<and> (\<forall>x. r = Inr x \<longrightarrow> x = k_str (view R s) patternVersionKey)"]])
    (auto simp: hoare_def op_ret_def op_fail_def version_of_def behind_def split: option.splits)

lemma hoare_load:
  "hoare (pods_behind R m (patternVersion p)) (loadPatternVersion R p)
     (\<lambda>r s. \<exists>v p'. r = Inr (v, p') \<and> pods_behind R m (patternVersion p') s)"
proof (cases "redisClient p")
  case False
  then show ?thesis by (simp add: loadPatternVersion_def hoare_def op_ret_def)
next
  case True
  have "hoare (pods_behind R m (patternVersion p)) (redisDo (get_version R))
      (\<lambda>r s. pods_behind R m (patternVersion p) s \<and> (\<forall>v. r = Inr v \<longrightarrow> behind R v s))"
  proof (rule hoare_redisDo)
    show "hoare (pods_behind R m (patternVersion p)) (get_version R)
        (\<lambda>r s. pods_behind R m (patternVersion p) s \<and> (\<forall>v. r = Inr v \<longrightarrow> behind R v s))"
      using hoare_get_version [of m] hoare_get_version [of "patternVersion p"]
      by (simp add: hoare_def pods_behind_def)
  qed simp
  then show ?thesis
    using True by (fastforce simp: loadPatternVersion_def hoare_def op_bind_def op_try_def op_ret_def pods_behind_def
        case_prod_beta split: sum.splits)
qed

text \<open>What the events leave: both bounds hold again, with the pod's new version.\<close>

abbreviation pod_post :: "int \<Rightarrow> pod \<Rightarrow> go_error + pod \<Rightarrow> 's \<Rightarrow> bool" where
  "pod_post m p r s \<equiv> pods_behind R m (patternVersion (after_event r p)) s"

lemma hoare_reload:
  "hoare (pods_behind R m (patternVersion p)) (op_bind (loadPatternVersion R p) (\<lambda>(v, p'). op_ret p')) (pod_post m p')"
  by (rule hoare_bind [OF hoare_load]) (auto simp: hoare_def op_ret_def after_event_def)

lemma hoare_init: "hoare (pods_behind R m (patternVersion p)) (InitCacheFromClient R True p) (pod_post m p)"
proof -
  have "hoare (pods_behind R m (patternVersion p)) (op_try ping)
      (\<lambda>r s. \<exists>x. r = Inr x \<and> pods_behind R m (patternVersion p) s)"
    unfolding ping_def by (rule hoare_try, rule hoare_read) simp_all
  then show ?thesis
    unfolding InitCacheFromClient_def if_False not_True_eq_False
  proof (rule hoare_bind)
    fix x :: "go_error + unit"
    show "hoare (\<lambda>s. \<exists>y. Inr x = Inr y \<and> pods_behind R m (patternVersion p) s)
        (case x of Inl e \<Rightarrow> op_ret (setRedisClient False False p)
         | Inr _ \<Rightarrow> op_bind (loadPatternVersion R (setRedisClient True True p)) (\<lambda>(v, p'). op_ret p')) (pod_post m p)"
      using hoare_reload [of m "setRedisClient True True p"]
      by (cases x) (auto simp: hoare_def op_ret_def after_event_def setRedisClient_def)
  qed simp
qed

lemma hoare_get: "hoare (pods_behind R m (patternVersion p)) (op_bind (GetMetadataFromCache R dec p h) (\<lambda>(x, p'). op_ret p')) (pod_post m p)"
proof -
  have e: "hoare (pods_behind R m (patternVersion p)) (get_entry R (metadataKey p h))
      (\<lambda>r s. \<exists>x. r = Inr x \<and> pods_behind R m (patternVersion p) s)"
    unfolding get_entry_def by (rule hoare_try, rule hoare_redisDo, rule hoare_read) simp_all
  have l: "hoare (pods_behind R m (patternVersion p)) (op_bind (loadPatternVersion R p) (\<lambda>(v, p'). op_ret (y, p')))
      (\<lambda>r s. \<exists>x p'. r = Inr (x, p') \<and> pods_behind R m (patternVersion p') s)" for y :: "'m option"
    by (rule hoare_bind [OF hoare_load]) (auto simp: hoare_def op_ret_def)
  have "hoare (pods_behind R m (patternVersion p)) (GetMetadataFromCache R dec p h)
      (\<lambda>r s. \<exists>x p'. r = Inr (x, p') \<and> pods_behind R m (patternVersion p') s)"
  proof (cases "redisClient p")
    case True
    have eq: "GetMetadataFromCache R dec p h = op_bind (get_entry R (metadataKey p h))
        (\<lambda>r. case r of Inr None \<Rightarrow> op_bind (loadPatternVersion R p) (\<lambda>(v, p'). op_ret (None, p'))
         | Inl e \<Rightarrow> op_ret (None, p) | Inr (Some data) \<Rightarrow> op_ret (dec data, p))"
      using True by (simp add: GetMetadataFromCache_def)
    show ?thesis
      unfolding eq by (rule hoare_bind [OF e]) (use l in \<open>auto simp: hoare_def op_ret_def split: sum.split option.split\<close>)
  qed (simp add: GetMetadataFromCache_def hoare_def op_ret_def)
  then show ?thesis
    by (rule hoare_bind) (auto simp: hoare_def op_ret_def after_event_def)
qed

lemma hoare_set: "hoare (pods_behind R m (patternVersion p)) (op_seq (SetMetadataInCache R enc p h data) (op_ret p)) (pod_post m p)"
proof -
  have "hoare (pods_behind R m (patternVersion p)) (set_entry R (entry_key (patternVersion p) h) d)
      (\<lambda>r. pods_behind R m (patternVersion p))" for d
    unfolding set_entry_def
    by (rule hoare_redisDo, rule hoare_rcall) (auto simp: write_cmd_def pods_behind_def behind_set)
  then have "hoare (pods_behind R m (patternVersion p)) (SetMetadataInCache R enc p h data) (\<lambda>r. pods_behind R m (patternVersion p))"
    by (simp add: SetMetadataInCache_def metadataKey_entry hoare_def op_ret_def op_fail_def split: sum.split)
  then show ?thesis
    by (rule hoare_seq) (simp_all add: hoare_def op_ret_def after_event_def)
qed

lemma hoare_bump:
  "hoare (pods_behind R m (patternVersion p)) (redisDo (bump_version R))
     (\<lambda>r s. pods_behind R m (patternVersion p) s \<and> (\<forall>v. r = Inr v \<longrightarrow> behind R v s))"
proof -
  have i: "hoare (pods_behind R m (patternVersion p)) (rcall (cmd_incr R patternVersionKey))
      (\<lambda>r s. pods_behind R m (patternVersion p) s \<and> (\<forall>v. r = Inr (Some v) \<longrightarrow> behind R v s))"
    by (rule hoare_rcall) (auto simp: pods_behind_def behind_incr)
  show ?thesis
    unfolding bump_version_def
    by (rule hoare_redisDo, rule hoare_bind [OF i]) (auto simp: hoare_def op_ret_def op_fail_def split: option.split)
qed

lemma hoare_publish: "hoare P (publishInvalidation p) (\<lambda>r s. r = Inr () \<and> P s)"
proof -
  have "hoare P (op_try (redisDo (rcall (read_cmd (\<lambda>_. ()))))) (\<lambda>r s. (\<exists>x. r = Inr x) \<and> P s)"
    by (rule hoare_try, rule hoare_redisDo, rule hoare_read) simp_all
  then have "hoare P (op_ignore (redisDo (rcall (read_cmd (\<lambda>_. ()))))) (\<lambda>r s. r = Inr () \<and> P s)"
    unfolding op_ignore_def by (rule hoare_bind) (auto simp: hoare_def op_ret_def)
  moreover have "hoare P (op_ret ()) (\<lambda>r s. r = Inr () \<and> P s)" by (simp add: hoare_def op_ret_def)
  ultimately show ?thesis by (simp add: publishInvalidation_def)
qed

lemma hoare_invalidate: "hoare (pods_behind R m (patternVersion p)) (InvalidateAllMetadataCache R p) (pod_post m p)"
proof (cases "redisClient p")
  case True
  have "hoare (\<lambda>s. pods_behind R m (patternVersion p) s \<and> behind R v s)
      (op_seq (publishInvalidation p') (op_ret (p\<lparr>patternVersion := v\<rparr>))) (pod_post m p)" for v p'
    by (rule hoare_seq [where M = "\<lambda>s. pods_behind R m (patternVersion p) s \<and> behind R v s", OF hoare_conseq [OF hoare_publish]])
      (auto simp: hoare_def op_ret_def after_event_def pods_behind_def)
  then show ?thesis
    using True unfolding InvalidateAllMetadataCache_def Let_def
    by simp (rule hoare_bind [OF hoare_bump], auto simp: hoare_def after_event_def)
qed (simp add: InvalidateAllMetadataCache_def hoare_def op_ret_def after_event_def)

lemma hoare_same_pod: "hoare (pods_behind R m (patternVersion p)) (op_ret p) (pod_post m p)"
  by (simp add: hoare_def op_ret_def after_event_def)

lemma hoare_pod_run: "hoare (pods_behind R m (patternVersion p)) (pod_run R ev p) (pod_post m p)"
proof (cases ev)
  case (CacheMessage msg)
  then show ?thesis
    by (simp add: pod_run_def handleInvalidationMessage_def hoare_reload hoare_same_pod)
next
  case CacheTick
  then show ?thesis by (simp add: pod_run_def refresh_tick_def hoare_reload hoare_same_pod)
qed (simp_all add: pod_run_def hoare_init hoare_get hoare_set hoare_invalidate)

end

lemma behind_kept: "behind R m s \<Longrightarrow> entries_kept (view R s) (view R s') \<Longrightarrow> behind R m s'"
  unfolding behind_def entries_kept_def version_of_def by metis

lemma behind_weaken: "behind R m s \<Longrightarrow> k \<le> m \<Longrightarrow> behind R k s"
  by (auto simp: behind_def)

lemma fleet_behind:
  assumes "redis_server R" "fleet R ps w"
  shows "pods_behind R 0 (patternVersion (ps j)) (server w)"
  using assms(2)
proof (induction arbitrary: j)
  case (start w)
  then show ?case by (simp add: pods_behind_def behind_def version_of_def fresh_pod_def)
next
  case (event ps w ev i r w')
  have "hoare (pods_behind R m (patternVersion (ps i))) (pod_run R ev (ps i))
      (\<lambda>r. pods_behind R m (patternVersion (after_event r (ps i))))" for m
    by (rule redis_server.hoare_pod_run [OF assms(1)])
  from hoareD [OF this, of _ w] event show ?case
    by (auto simp: pods_behind_def)
next
  case (restart ps w i)
  then show ?case by (auto simp: fresh_pod_def pods_behind_def)
next
  case (other ps w w')
  then show ?case by (auto simp: pods_behind_def intro: behind_kept)
qed

section \<open>Invalidation hides every entry\<close>

text \<open>After an acknowledged bump the counter is the new version and every entry is older.\<close>

definition all_older :: "'s redis \<Rightarrow> int \<Rightarrow> 's \<Rightarrow> bool" where
  "all_older R n s \<longleftrightarrow> version_of (view R s) = Some n \<and> (\<forall>v h. k_str (view R s) (entry_key v h) \<noteq> None \<longrightarrow> v < n)"

lemma all_older_incr:
  assumes "redis_server R" "versions_ok R s" "fst (cmd_incr R patternVersionKey s) = Some n"
  shows "all_older R n (snd (cmd_incr R patternVersionKey s))"
  using assms(2,3) unfolding behind_def all_older_def redis_server.view_incr [OF assms(1)] redis_server.incr_value [OF assms(1)]
  by (fastforce simp: ks_incr_def ks_incr_val_def version_of_def in_int64_def split: option.splits if_splits)

lemma hoare_bump_older:
  assumes "redis_server R"
  shows "hoare (versions_ok R) (redisDo (bump_version R)) (\<lambda>r s. \<forall>n. r = Inr n \<longrightarrow> all_older R n s)"
proof -
  have i: "hoare (versions_ok R) (rcall (cmd_incr R patternVersionKey)) (\<lambda>r s. \<forall>n. r = Inr (Some n) \<longrightarrow> all_older R n s)"
    by (rule hoare_rcall) (auto simp: all_older_incr [OF assms] redis_server.behind_incr [OF assms])
  show ?thesis
    unfolding bump_version_def
    by (rule hoare_redisDo, rule hoare_bind [OF i]) (auto simp: hoare_def op_ret_def op_fail_def split: option.split)
qed

lemma hoare_invalidate_older:
  assumes "redis_server R" "redisClient p"
  shows "hoare (versions_ok R) (InvalidateAllMetadataCache R p)
    (\<lambda>r s. \<forall>p'. r = Inr p' \<longrightarrow> redisClient p' \<and> all_older R (patternVersion p') s)"
proof -
  have "hoare (all_older R v) (op_seq (publishInvalidation q) (op_ret (p\<lparr>patternVersion := v\<rparr>)))
      (\<lambda>r s. \<forall>p'. r = Inr p' \<longrightarrow> redisClient p' \<and> all_older R (patternVersion p') s)" for v q
    by (rule hoare_seq [where M = "all_older R v", OF hoare_conseq [OF redis_server.hoare_publish [OF assms(1)]]])
      (auto simp: hoare_def op_ret_def assms(2))
  then show ?thesis
    using assms(2) unfolding InvalidateAllMetadataCache_def Let_def
    by simp (rule hoare_bind [OF hoare_bump_older [OF assms(1)]], auto simp: hoare_def)
qed

lemma all_older_none: "all_older R n s \<Longrightarrow> k_str (view R s) (entry_key n h) = None"
  unfolding all_older_def by (metis order.strict_iff_order)

lemma hoare_get_hidden:
  assumes "redisClient p"
  shows "hoare (all_older R (patternVersion p)) (GetMetadataFromCache R dec p h) (\<lambda>r s. \<exists>q. r = Inr (None, q))"
proof -
  have e: "hoare (all_older R (patternVersion p)) (get_entry R (metadataKey p h)) (\<lambda>r s. r = Inr (Inr None) \<or> (\<exists>e. r = Inr (Inl e)))"
    unfolding get_entry_def metadataKey_entry
    by (rule hoare_try, rule hoare_redisDo, rule hoare_read) (auto simp: all_older_none)
  have l: "\<exists>q. fst (op_bind (loadPatternVersion R p) (\<lambda>(v, p'). op_ret (None :: 'b option, p')) w) = Inr (None, q)" for w
    using assms by (auto simp: loadPatternVersion_def op_bind_def op_try_def op_ret_def case_prod_beta split: sum.splits)
  have eq: "GetMetadataFromCache R dec p h = op_bind (get_entry R (metadataKey p h))
      (\<lambda>r. case r of Inr None \<Rightarrow> op_bind (loadPatternVersion R p) (\<lambda>(v, p'). op_ret (None, p'))
       | Inl e \<Rightarrow> op_ret (None, p) | Inr (Some data) \<Rightarrow> op_ret (dec data, p))"
    using assms by (simp add: GetMetadataFromCache_def)
  show ?thesis
    unfolding eq by (rule hoare_bind [OF e]) (use l in \<open>auto simp: hoare_def op_ret_def split: sum.split option.split\<close>)
qed


section \<open>Round trip of an entry\<close>

lemma get_entry_healthy:
  assumes "healthy w"
  shows "fst (get_entry R k w) = Inr (Inr (k_str (view R (server w)) k))"
  using redisDo_rcall_healthy [OF assms, of "read_cmd (\<lambda>s. k_str (view R s) k)"]
  by (simp add: get_entry_def op_try_def read_cmd_def case_prod_beta)

text \<open>
  In a healthy world, package data put into the cache is read back as it was, under the same hash and under no
  other, and also after the metadata cache was invalidated.
\<close>

theorem package_cache_round_trip:
  fixes w :: "'s world"
  assumes "redis_server R" "healthy w" "redisClient p" "in_int64 (PackageDataID m)"
    "SetPackageDataInCache R enc_package p h m w = (r, w1)" "server w2 = server (snd (InvalidateAllMetadataCache R p w1))" "healthy w2"
  shows "r = Inr () \<and> fst (GetPackageDataFromCache R dec_package p h w2) = Inr (Some m)
    \<and> (h' \<noteq> h \<longrightarrow> fst (GetPackageDataFromCache R dec_package p h' w2) = fst (GetPackageDataFromCache R dec_package p h' w))"
proof -
  obtain data where data: "enc_package m = Inr data" by (simp add: enc_package_def)
  have set: "r = Inr ()" "view R (server w1) = ks_set_ex (packageDataKey h) data metadataCacheTTL (view R (server w))" "healthy w1"
    using redisDo_rcall_healthy [OF assms(2), of "write_cmd (cmd_set_ex R (packageDataKey h) data metadataCacheTTL)"] assms(3,5) data
    by (auto simp: SetPackageDataInCache_def set_entry_def write_cmd_def redis_server.view_set_ex [OF assms(1)])
  have "hoare (\<lambda>s. \<forall>k. k \<noteq> patternVersionKey \<longrightarrow> k_str (view R s) k = k_str (view R (server w1)) k)
      (InvalidateAllMetadataCache R p) (\<lambda>r s. \<forall>k. k \<noteq> patternVersionKey \<longrightarrow> k_str (view R s) k = k_str (view R (server w1)) k)"
    unfolding InvalidateAllMetadataCache_def bump_version_def publishInvalidation_def Let_def
    by (rule hoare_keeps, auto intro!: keeps_rules split: option.split)
      (auto simp: redis_server.view_incr [OF assms(1)] ks_incr_def read_cmd_def split: option.split)
  from hoareD [OF this, of w1] assms(6)
  have same: "k_str (view R (server w2)) (packageDataKey k) = k_str (view R (server w1)) (packageDataKey k)" for k by simp
  have get: "fst (GetPackageDataFromCache R dec_package p k v) =
      Inr (case k_str (view R (server v)) (packageDataKey k) of None \<Rightarrow> None | Some d \<Rightarrow> dec_package d)" if "healthy v" for k v
    using assms(3) get_entry_healthy [OF that, of R "packageDataKey k"]
    by (simp add: GetPackageDataFromCache_def op_bind_def op_ret_def case_prod_beta split: option.split)
  show ?thesis
    using set(1) dec_enc_package [OF assms(4) data] unfolding get [OF assms(7)] get [OF assms(2)] same set(2)
    by (simp add: packageDataKey_def)
qed

section \<open>Instances\<close>

definition sample_pod :: pod where
  "sample_pod = \<lparr>patternVersion = 0, redisClient = True, cacheEnabled = True\<rparr>"

definition sample_package :: PackageDataModel where
  "sample_package = \<lparr>PackageDataID = 7, PD_APKHash = ''ab'', PackageName = ''org.example'', VersionCode = ''1'', VersionName = ''1.0'',
     CompileSdkVersion = ''34'', SdkVersion = ''21'', TargetSdk = ''34'', MinSDK = ''21'',
     SupportScreens = Some [''small''], Densities = Some [], NativeCode = None\<rparr>"

definition noon :: go_time where
  "noon = \<lparr>year = 2024, month = 1, day = 1, hour = 12, minute = 0, second = 0, nano = 0, zone = 0\<rparr>"

abbreviation empty_world :: "keyspace world" where
  "empty_world \<equiv> quiet_world noon empty_keyspace"

theorem package_cache_round_trip_witness:
  "let R = mem_redis [] []; w1 = snd (SetPackageDataInCache R enc_package sample_pod ''ab'' sample_package empty_world);
       w2 = quiet_world noon (server (snd (InvalidateAllMetadataCache R sample_pod w1))) in
    fst (GetPackageDataFromCache R dec_package sample_pod ''ab'' w2) = Inr (Some sample_package)"
proof -
  let ?R = "mem_redis [] []"
  obtain r w1 where set: "SetPackageDataInCache ?R enc_package sample_pod ''ab'' sample_package empty_world = (r, w1)"
    by (cases "SetPackageDataInCache ?R enc_package sample_pod ''ab'' sample_package empty_world") auto
  have "fst (GetPackageDataFromCache ?R dec_package sample_pod ''ab''
      (quiet_world noon (server (snd (InvalidateAllMetadataCache ?R sample_pod w1))))) = Inr (Some sample_package)"
    by (rule conjunct1 [OF conjunct2 [OF package_cache_round_trip [OF mem.redis_server_axioms _ _ _ set]]])
      (simp_all add: calm_quiet_world sample_pod_def sample_package_def in_int64_def)
  then show ?thesis by (simp add: set)
qed

text \<open>A fleet whose first pod has come up.\<close>

lemma sample_fleet:
  "fleet (mem_redis [] []) ((\<lambda>_. fresh_pod)(0 := sample_pod)) (snd (pod_run (mem_redis [] []) CacheInit fresh_pod empty_world))"
proof -
  let ?R = "mem_redis [] []"
  have "fleet ?R (\<lambda>_. fresh_pod) empty_world" by (rule fleet.start) (simp add: empty_keyspace_def)
  moreover have "pod_run ?R CacheInit fresh_pod empty_world = (Inr sample_pod, snd (pod_run ?R CacheInit fresh_pod empty_world))"
    by (simp add: pod_run_def InitCacheFromClient_def ping_def loadPatternVersion_def get_version_def op_bind_def op_try_def op_ret_def
        rcall_def read_cmd_def redisDo_def Do_def quiet_world_def setRedisClient_def fresh_pod_def sample_pod_def empty_keyspace_def)
  ultimately show ?thesis
    using fleet.event [of ?R "\<lambda>_. fresh_pod" empty_world CacheInit 0 "Inr sample_pod"] by (simp add: after_event_def)
qed


end
