(* ===== verification/Pattern_Store.thy ===== *)
theory Pattern_Store
  imports Cache Go_Path "HOL-Library.AList" "HOL-Library.List_Lexorder" "HOL-Library.Char_ord"
begin

text \<open>
  The detection patterns on disk, \<^verbatim>\<open>utils/pattern.go\<close>: YAML files in one directory, listed, read and edited
  through the management API.  The YAML package, the regular-expression compiler and the faults of
  the file system are parameters (the record \<open>pattern_host\<close>); a disk maps absolute paths to files.
  Every save ends with an invalidation of the metadata cache, so the operations also take the pod's
  cache variables and the world of the Redis client.
\<close>

section \<open>Patterns and files\<close>

record Pattern =
  P_Name :: string
  P_Regex :: string
  P_Confidence :: string
  P_Enabled :: bool

record PatternFile =
  PF_Filename :: string
  PF_Patterns :: "Pattern list"

text \<open>
  What the YAML package decodes a file into: the structure of \<^verbatim>\<open>LoadPatternsFromFile\<close>, where an omitted
  \<^verbatim>\<open>enabled\<close> is a nil pointer, and the larger one of \<^verbatim>\<open>detect/detect.go\<close>.
\<close>

record yaml_pattern =
  y_name :: string
  y_regex :: string
  y_confidence :: string
  y_enabled :: "bool option"

record scan_pattern = yaml_pattern +
  y_masvs :: string

record SecretPatterns =
  Platform :: string
  MASVS :: string
  Patterns :: "scan_pattern list"

record pfile =
  pf_mtime :: int
  pf_data :: string

type_synonym disk = "(string \<times> pfile) list"

text \<open>
  A compiled regular expression, as Go's \<^verbatim>\<open>regexp\<close> package presents it: the number of its groups and, for a
  text, the list of its matches, each as the bounds of the whole match and of every group in turn
  (\<^verbatim>\<open>-1\<close> for a group that took no part).
\<close>

record regexp =
  NumSubexp :: nat
  FindAllStringSubmatchIndex :: "string \<Rightarrow> int list list"

definition substr :: "string \<Rightarrow> int \<Rightarrow> int \<Rightarrow> string" where
  "substr s a b = take (nat (b - a)) (drop (nat a) s)"

definition FindAllString :: "regexp \<Rightarrow> string \<Rightarrow> string list" where
  "FindAllString re s = map (\<lambda>loc. substr s (loc ! 0) (loc ! 1)) (FindAllStringSubmatchIndex re s)"

text \<open>
  The host: the variable \<^verbatim>\<open>MORF_PATTERNS_DIR\<close>, the working directory, the two decodings and the encoding
  of the YAML package, \<^verbatim>\<open>regexp.Compile\<close>, and the faults of the file system.  A write
  truncates the file before it writes, so a failing one leaves the file alone or leaves some part of
  the data in it.
\<close>

record pattern_host =
  patterns_env :: string
  cwd :: string
  getwd_err :: "go_error option"
  yaml_load :: "string \<Rightarrow> go_error + yaml_pattern list"
  yaml_scan :: "string \<Rightarrow> go_error + SecretPatterns"
  yaml_marshal :: "Pattern list \<Rightarrow> go_error + string"
  re_compile :: "string \<Rightarrow> go_error + regexp"
  read_fault :: "string \<Rightarrow> go_error option"
  write_fault :: "string \<Rightarrow> (go_error \<times> string option) option"
  remove_fault :: "string \<Rightarrow> go_error option"
  write_time :: int

definition GetPatternsDir :: "pattern_host \<Rightarrow> string" where
  "GetPatternsDir H = (let dir = trimSpace (patterns_env H) in if dir \<noteq> [] then dir else ''/app/patterns'')"

text \<open>The absolute path the operating system resolves a path to, and \<^verbatim>\<open>filepath.Abs\<close>.\<close>

definition os_path :: "pattern_host \<Rightarrow> string \<Rightarrow> string" where
  "os_path H p = (if isAbs p then path_clean p else path_join [cwd H, p])"

definition path_abs :: "pattern_host \<Rightarrow> string \<Rightarrow> go_error + string" where
  "path_abs H p =
     (if isAbs p then Inr (path_clean p)
      else case getwd_err H of Some e \<Rightarrow> Inl e | None \<Rightarrow> Inr (path_join [cwd H, p]))"

definition not_exist :: "string \<Rightarrow> string \<Rightarrow> go_error" where
  "not_exist what p = Errorf (what @ '' '' @ p @ '': no such file or directory'') []"

definition ReadFile :: "pattern_host \<Rightarrow> disk \<Rightarrow> string \<Rightarrow> go_error + string" where
  "ReadFile H d p =
     (case read_fault H p of
        Some e \<Rightarrow> Inl e
      | None \<Rightarrow> (case map_of d (os_path H p) of None \<Rightarrow> Inl (not_exist ''open'' p) | Some f \<Rightarrow> Inr (pf_data f)))"

text \<open>\<^verbatim>\<open>ReadDir\<close>: the files directly below the directory, sorted by name.\<close>

definition dir_entry :: "string \<Rightarrow> string \<Rightarrow> string option" where
  "dir_entry dir p = (if hasPrefix p (dir @ ''/'') \<and> CHR ''/'' \<notin> set (drop (length dir + 1) p) then Some (drop (length dir + 1) p) else None)"

definition ReadDir :: "pattern_host \<Rightarrow> disk \<Rightarrow> string \<Rightarrow> (string \<times> pfile) list" where
  "ReadDir H d dir =
     sort_key fst (List.map_filter (\<lambda>(p, f). map_option (\<lambda>n. (n, f)) (dir_entry (os_path H dir) p)) d)"

section \<open>Resolving a file name\<close>

definition resolvePatternPath :: "pattern_host \<Rightarrow> string \<Rightarrow> go_error + string" where
  "resolvePatternPath H filename =
     (let base = path_base filename in
      if base = ''.'' \<or> base = ''..'' \<or> base = ''/'' \<or> trimSpace base = []
      then Inl (Errorf (''invalid pattern filename: '' @ quoted filename) [])
      else (let lower = toLower base in
        if \<not> hasSuffix lower ''.yaml'' \<and> \<not> hasSuffix lower ''.yml''
        then Inl (Errorf (''pattern filename must have a .yaml or .yml extension: '' @ quoted filename) [])
        else case path_abs H (GetPatternsDir H) of
          Inl e \<Rightarrow> Inl (Errorf (''failed to resolve patterns directory: '' @ err_msg e) [e])
        | Inr dir \<Rightarrow>
            (let full = path_join [dir, base] in
             case path_rel dir full of
               None \<Rightarrow> Inl (Errorf (''pattern filename escapes patterns directory: '' @ quoted filename) [])
             | Some rel \<Rightarrow>
                 if rel = ''..'' \<or> hasPrefix rel ''../'' \<or> isAbs rel
                 then Inl (Errorf (''pattern filename escapes patterns directory: '' @ quoted filename) [])
                 else Inr full)))"

section \<open>Reading\<close>

definition to_pattern :: "yaml_pattern \<Rightarrow> Pattern" where
  "to_pattern y =
     \<lparr>P_Name = y_name y, P_Regex = y_regex y, P_Confidence = y_confidence y,
      P_Enabled = (case y_enabled y of None \<Rightarrow> True | Some b \<Rightarrow> b)\<rparr>"

definition LoadPatternsFromFile :: "pattern_host \<Rightarrow> disk \<Rightarrow> string \<Rightarrow> go_error + Pattern list" where
  "LoadPatternsFromFile H d filePath =
     (case ReadFile H d filePath of
        Inl e \<Rightarrow> Inl (Errorf (''failed to read pattern file '' @ filePath @ '': '' @ err_msg e) [e])
      | Inr data \<Rightarrow>
          (case yaml_load H data of
             Inl e \<Rightarrow> Inl (Errorf (''failed to unmarshal YAML: '' @ err_msg e) [])
           | Inr ps \<Rightarrow> Inr (map to_pattern ps)))"

fun list_files :: "pattern_host \<Rightarrow> disk \<Rightarrow> (string \<times> pfile) list \<Rightarrow> PatternFile list" where
  "list_files H d [] = []"
| "list_files H d ((n, f) # fs) =
     (if hasSuffix n ''.yaml'' \<or> hasSuffix n ''.yml''
      then (case LoadPatternsFromFile H d (path_join [GetPatternsDir H, n]) of
          Inl e \<Rightarrow> list_files H d fs
        | Inr ps \<Rightarrow> \<lparr>PF_Filename = n, PF_Patterns = ps\<rparr> # list_files H d fs)
      else list_files H d fs)"

definition ListPatternFiles :: "pattern_host \<Rightarrow> disk \<Rightarrow> PatternFile list" where
  "ListPatternFiles H d = list_files H d (ReadDir H d (GetPatternsDir H))"

definition GetPatternFileContent :: "pattern_host \<Rightarrow> disk \<Rightarrow> string \<Rightarrow> go_error + string" where
  "GetPatternFileContent H d filename =
     (case resolvePatternPath H filename of Inl e \<Rightarrow> Inl e | Inr full \<Rightarrow> ReadFile H d full)"

definition LoadPatternsByFilename :: "pattern_host \<Rightarrow> disk \<Rightarrow> string \<Rightarrow> go_error + Pattern list" where
  "LoadPatternsByFilename H d filename =
     (case resolvePatternPath H filename of Inl e \<Rightarrow> Inl e | Inr full \<Rightarrow> LoadPatternsFromFile H d full)"

definition ValidatePattern :: "pattern_host \<Rightarrow> Pattern \<Rightarrow> go_error option" where
  "ValidatePattern H p =
     (if P_Name p = [] then Some (Errorf ''pattern name is required'' [])
      else if P_Regex p = [] then Some (Errorf ''pattern regex is required'' [])
      else case re_compile H (P_Regex p) of
        Inl e \<Rightarrow> Some (Errorf (''invalid regex: '' @ err_msg e) [])
      | Inr _ \<Rightarrow>
          if P_Confidence p \<noteq> ''high'' \<and> P_Confidence p \<noteq> ''low'' \<and> P_Confidence p \<noteq> ''medium''
          then Some (Errorf (''confidence must be 'high', 'medium', or 'low'' @ [CHR 0x27]) []) else None)"

definition TestPattern :: "pattern_host \<Rightarrow> Pattern \<Rightarrow> string \<Rightarrow> go_error + bool \<times> string list" where
  "TestPattern H p sampleText =
     (case re_compile H (P_Regex p) of
        Inl e \<Rightarrow> Inl (Errorf (''invalid regex: '' @ err_msg e) [])
      | Inr re \<Rightarrow> (let matches = FindAllString re sampleText in Inr (0 < length matches, matches)))"

section \<open>Writing\<close>

text \<open>
  An editing operation ends with its error or success, the disk after it and the pod's cache
  variables after it.
\<close>

type_synonym ('s) edit = "('s, (go_error + unit) \<times> disk \<times> pod) op"

definition edit_fail :: "go_error \<Rightarrow> disk \<Rightarrow> pod \<Rightarrow> 's edit" where
  "edit_fail e d p = op_ret (Inl e, d, p)"

definition write_data :: "pattern_host \<Rightarrow> string \<Rightarrow> string \<Rightarrow> disk \<Rightarrow> disk" where
  "write_data H path data d = AList.update path \<lparr>pf_mtime = write_time H, pf_data = data\<rparr> d"

definition SavePatternsToFile :: "pattern_host \<Rightarrow> 's redis \<Rightarrow> string \<Rightarrow> Pattern list \<Rightarrow> disk \<Rightarrow> pod \<Rightarrow> 's edit" where
  "SavePatternsToFile H R filePath patterns d p =
     (case yaml_marshal H patterns of
        Inl e \<Rightarrow> edit_fail (Errorf (''failed to marshal YAML: '' @ err_msg e) []) d p
      | Inr data \<Rightarrow>
          (case resolvePatternPath H filePath of
             Inl e \<Rightarrow> edit_fail e d p
           | Inr full \<Rightarrow>
               (case write_fault H full of
                  Some (e, left) \<Rightarrow>
                    edit_fail (Errorf (''failed to write file: '' @ err_msg e) [])
                      (case left of None \<Rightarrow> d | Some part \<Rightarrow> write_data H (os_path H full) part d) p
                | None \<Rightarrow>
                    op_bind (op_try (InvalidateAllMetadataCache R p))
                      (\<lambda>r. op_ret (Inr (), write_data H (os_path H full) data d, after_event r p)))))"

fun first_invalid :: "pattern_host \<Rightarrow> Pattern list \<Rightarrow> go_error option" where
  "first_invalid H [] = None"
| "first_invalid H (q # qs) =
     (case ValidatePattern H q of
        Some e \<Rightarrow> Some (Errorf (''invalid pattern '' @ P_Name q @ '': '' @ err_msg e) [])
      | None \<Rightarrow> first_invalid H qs)"

definition UpdatePatternFile :: "pattern_host \<Rightarrow> 's redis \<Rightarrow> string \<Rightarrow> Pattern list \<Rightarrow> disk \<Rightarrow> pod \<Rightarrow> 's edit" where
  "UpdatePatternFile H R filename patterns d p =
     (case first_invalid H patterns of
        Some e \<Rightarrow> edit_fail e d p
      | None \<Rightarrow> SavePatternsToFile H R filename patterns d p)"

definition DeletePatternFile :: "pattern_host \<Rightarrow> string \<Rightarrow> disk \<Rightarrow> (go_error + unit) \<times> disk" where
  "DeletePatternFile H filename d =
     (case resolvePatternPath H filename of
        Inl e \<Rightarrow> (Inl e, d)
      | Inr full \<Rightarrow>
          (case remove_fault H full of
             Some e \<Rightarrow> (Inl e, d)
           | None \<Rightarrow>
               if map_of d (os_path H full) = None then (Inl (not_exist ''remove'' full), d)
               else (Inr (), AList.delete (os_path H full) d)))"

definition CreatePatternFile :: "pattern_host \<Rightarrow> 's redis \<Rightarrow> string \<Rightarrow> Pattern list \<Rightarrow> disk \<Rightarrow> pod \<Rightarrow> 's edit" where
  "CreatePatternFile H R filename0 patterns d p =
     (let filename = (if \<not> hasSuffix filename0 ''.yaml'' \<and> \<not> hasSuffix filename0 ''.yml'' then filename0 @ ''.yaml'' else filename0) in
      case resolvePatternPath H filename of
        Inl e \<Rightarrow> edit_fail e d p
      | Inr full \<Rightarrow>
          if map_of d (os_path H full) \<noteq> None then edit_fail (Errorf (''file already exists: '' @ filename) []) d p
          else (case first_invalid H patterns of
              Some e \<Rightarrow> edit_fail e d p
            | None \<Rightarrow> SavePatternsToFile H R filename patterns d p))"

text \<open>The four operations that load a file, change its list and save it back share their frame.\<close>

definition edit_file ::
  "pattern_host \<Rightarrow> 's redis \<Rightarrow> string \<Rightarrow> (Pattern list \<Rightarrow> go_error + Pattern list) \<Rightarrow> disk \<Rightarrow> pod \<Rightarrow> 's edit" where
  "edit_file H R filename change d p =
     (case resolvePatternPath H filename of
        Inl e \<Rightarrow> edit_fail e d p
      | Inr full \<Rightarrow>
          (case LoadPatternsFromFile H d full of
             Inl e \<Rightarrow> edit_fail (Errorf (''failed to load existing patterns: '' @ err_msg e) []) d p
           | Inr existing \<Rightarrow>
               (case change existing of
                  Inl e \<Rightarrow> edit_fail e d p
                | Inr patterns \<Rightarrow> SavePatternsToFile H R filename patterns d p)))"

definition not_found :: "string \<Rightarrow> go_error" where
  "not_found n = Errorf (''pattern '' @ [CHR 0x27] @ n @ [CHR 0x27] @ '' not found'') []"

definition add_to :: "Pattern \<Rightarrow> Pattern list \<Rightarrow> go_error + Pattern list" where
  "add_to q existing =
     (if list_ex (\<lambda>x. P_Name x = P_Name q) existing
      then Inl (Errorf (''pattern with name '' @ [CHR 0x27] @ P_Name q @ [CHR 0x27] @ '' already exists'') [])
      else Inr (existing @ [q]))"

definition AddPatternToFile :: "pattern_host \<Rightarrow> 's redis \<Rightarrow> string \<Rightarrow> Pattern \<Rightarrow> disk \<Rightarrow> pod \<Rightarrow> 's edit" where
  "AddPatternToFile H R filename q d p =
     (case ValidatePattern H q of
        Some e \<Rightarrow> edit_fail e d p
      | None \<Rightarrow> edit_file H R filename (add_to q) d p)"

text \<open>The loop that changes the first pattern with the name, and reports whether there was one.\<close>

fun change_first :: "string \<Rightarrow> (Pattern \<Rightarrow> Pattern) \<Rightarrow> Pattern list \<Rightarrow> go_error + Pattern list" where
  "change_first n f [] = Inl (not_found n)"
| "change_first n f (q # qs) =
     (if P_Name q = n then Inr (f q # qs)
      else (case change_first n f qs of Inl e \<Rightarrow> Inl e | Inr qs' \<Rightarrow> Inr (q # qs')))"

definition UpdatePatternInFile :: "pattern_host \<Rightarrow> 's redis \<Rightarrow> string \<Rightarrow> string \<Rightarrow> Pattern \<Rightarrow> disk \<Rightarrow> pod \<Rightarrow> 's edit" where
  "UpdatePatternInFile H R filename patternName q d p =
     (case ValidatePattern H q of
        Some e \<Rightarrow> edit_fail e d p
      | None \<Rightarrow> edit_file H R filename (change_first patternName (\<lambda>_. q)) d p)"

definition drop_named :: "string \<Rightarrow> Pattern list \<Rightarrow> go_error + Pattern list" where
  "drop_named n existing =
     (let newPatterns = filter (\<lambda>q. P_Name q \<noteq> n) existing in
      if length newPatterns = length existing then Inl (not_found n) else Inr newPatterns)"

definition DeletePatternFromFile :: "pattern_host \<Rightarrow> 's redis \<Rightarrow> string \<Rightarrow> string \<Rightarrow> disk \<Rightarrow> pod \<Rightarrow> 's edit" where
  "DeletePatternFromFile H R filename patternName d p = edit_file H R filename (drop_named patternName) d p"

definition EnableDisablePattern :: "pattern_host \<Rightarrow> 's redis \<Rightarrow> string \<Rightarrow> string \<Rightarrow> bool \<Rightarrow> disk \<Rightarrow> pod \<Rightarrow> 's edit" where
  "EnableDisablePattern H R filename patternName enabled d p =
     edit_file H R filename (change_first patternName (\<lambda>q. q\<lparr>P_Enabled := enabled\<rparr>)) d p"

section \<open>Where files can be\<close>

text \<open>The patterns directory as an absolute path; the working directory of a process is one.\<close>

definition patterns_root :: "pattern_host \<Rightarrow> string" where
  "patterns_root H = (if isAbs (GetPatternsDir H) then GetPatternsDir H else cwd H @ ''/'' @ GetPatternsDir H)"

lemma path_base_no_slash: "path_base p \<noteq> ''/'' \<Longrightarrow> CHR ''/'' \<notin> set (path_base p)"
  by (auto simp: path_base_def Let_def dest: set_takeWhileD split: if_splits)

lemma trimSpace_Nil [simp]: "trimSpace [] = []"
  by (rule trimSpace_printable) simp

lemma GetPatternsDir_nonempty [simp]: "GetPatternsDir H \<noteq> []"
  by (simp add: GetPatternsDir_def Let_def)

lemma isAbs_append [simp]: "isAbs p \<Longrightarrow> isAbs (p @ q)"
  by (cases p) (auto simp: isAbs_def)

lemma isAbs_root: "isAbs (cwd H) \<Longrightarrow> isAbs (patterns_root H)"
  by (simp add: patterns_root_def)

lemma abs_root:
  assumes "isAbs (cwd H)" "path_abs H (GetPatternsDir H) = Inr dir"
  shows "dir = path_clean (patterns_root H)"
  using assms isAbs_nonempty [OF assms(1)]
  by (auto simp: path_abs_def patterns_root_def path_join_pair split: if_splits option.splits)

definition yaml_name :: "string \<Rightarrow> bool" where
  "yaml_name n \<longleftrightarrow> plain_elem n \<and> n \<noteq> ''..'' \<and> trimSpace n \<noteq> [] \<and> (hasSuffix (toLower n) ''.yaml'' \<or> hasSuffix (toLower n) ''.yml'')"

lemma plain_not_abs: "plain_elem e \<Longrightarrow> \<not> isAbs e \<and> \<not> hasPrefix e ''../''"
  by (auto simp: plain_elem_def isAbs_def hasPrefix_iff prefix_def)

lemma resolve_iff:
  assumes "isAbs (cwd H)"
  shows "resolvePatternPath H f = Inr full \<longleftrightarrow>
    yaml_name (path_base f) \<and> path_abs H (GetPatternsDir H) = Inr (path_clean (patterns_root H)) \<and>
    full = child (patterns_root H) (path_base f)"
proof (cases "yaml_name (path_base f)")
  case True
  then have b: "plain_elem (path_base f)" "path_base f \<noteq> ''..''" and
    ok: "path_base f \<noteq> ''.''" "path_base f \<noteq> ''/''" "trimSpace (path_base f) \<noteq> []"
    "hasSuffix (toLower (path_base f)) ''.yaml'' \<or> hasSuffix (toLower (path_base f)) ''.yml''"
    by (auto simp: yaml_name_def plain_elem_def)
  note abs = isAbs_root [OF assms]
  have join: "path_join [path_clean (patterns_root H), path_base f] = child (patterns_root H) (path_base f)"
    by (rule path_join_child(2) [OF abs b])
  moreover have "path_rel (path_clean (patterns_root H)) (child (patterns_root H) (path_base f)) = Some (path_base f)"
    using b rooted_elems [OF abs] abs
    by (simp add: path_rel_def clean_elems_clean child_def clean_elems_rooted drop_common_snoc)
      (simp add: isAbs_def)
  ultimately show ?thesis
    using b ok True plain_not_abs [OF b(1)] abs_root [OF assms]
    by (auto simp: resolvePatternPath_def Let_def split: sum.split)
next
  case False
  then show ?thesis
    using path_base_no_slash [of f]
    by (auto simp: resolvePatternPath_def Let_def yaml_name_def plain_elem_def)
qed

text \<open>
  C23.  No file name reaches outside the patterns directory: a name is accepted exactly when its last element is
  a proper file name with a YAML extension, and it then stands for the file of that name directly
  in the patterns directory, whatever directories and parent references precede it.
\<close>

theorem patterns_contained:
  assumes "isAbs (cwd H)" "getwd_err H = None"
  shows "(resolvePatternPath H f = Inr full \<longleftrightarrow> yaml_name (path_base f) \<and> full = child (patterns_root H) (path_base f))
    \<and> (resolvePatternPath H f = Inr full \<longrightarrow> clean_elems full = clean_elems (patterns_root H) @ [path_base f])"
proof -
  have "path_abs H (GetPatternsDir H) = Inr (path_clean (patterns_root H))"
    using assms abs_root [OF assms(1)] by (cases "path_abs H (GetPatternsDir H)") (auto simp: path_abs_def split: if_splits)
  moreover have "yaml_name (path_base f) \<Longrightarrow> clean_elems (child (patterns_root H) (path_base f)) = clean_elems (patterns_root H) @ [path_base f]"
    using rooted_elems [OF isAbs_root [OF assms(1)]] by (simp add: child_def clean_elems_rooted yaml_name_def)
  ultimately show ?thesis by (simp add: resolve_iff [OF assms(1)])
qed

section \<open>Editing\<close>

text \<open>
  The contract of the YAML package for the structures of this file: what is marshalled is decoded to
  the same patterns, with the flag present, and to empty strings for the keys the text does not have.
\<close>

definition of_pattern :: "Pattern \<Rightarrow> yaml_pattern" where
  "of_pattern q = \<lparr>y_name = P_Name q, y_regex = P_Regex q, y_confidence = P_Confidence q, y_enabled = Some (P_Enabled q)\<rparr>"

definition scanned_pattern :: "Pattern \<Rightarrow> scan_pattern" where
  "scanned_pattern q =
     \<lparr>y_name = P_Name q, y_regex = P_Regex q, y_confidence = P_Confidence q, y_enabled = Some (P_Enabled q), y_masvs = []\<rparr>"

lemma to_of_pattern [simp]: "to_pattern (of_pattern q) = q"
  by (simp add: to_pattern_def of_pattern_def)

locale yaml_v2 =
  fixes H :: pattern_host
  assumes load_marshal: "yaml_marshal H ps = Inr t \<Longrightarrow> yaml_load H t = Inr (map of_pattern ps)"
    and scan_marshal: "yaml_marshal H ps = Inr t \<Longrightarrow>
      yaml_scan H t = Inr \<lparr>Platform = [], MASVS = [], Patterns = map scanned_pattern ps\<rparr>"

definition saved :: "pattern_host \<Rightarrow> string \<Rightarrow> Pattern list \<Rightarrow> disk \<Rightarrow> disk \<Rightarrow> bool" where
  "saved H f ps d d' \<longleftrightarrow> (\<exists>full t. resolvePatternPath H f = Inr full \<and> yaml_marshal H ps = Inr t \<and>
     map_of d' = (map_of d)(os_path H full \<mapsto> \<lparr>pf_mtime = write_time H, pf_data = t\<rparr>))"

lemma save_cases:
  "fst (SavePatternsToFile H R f ps d p w) = Inr (Inr (), d', p') \<Longrightarrow> saved H f ps d d'"
  "fst (SavePatternsToFile H R f ps d p w) = Inr (Inl e, d', p') \<Longrightarrow> write_fault H = Map.empty \<Longrightarrow> d' = d"
  by (auto simp: SavePatternsToFile_def edit_fail_def op_ret_def op_bind_def op_try_def saved_def write_data_def
      update_conv case_prod_beta split: sum.splits option.splits prod.splits)

lemma edit_cases:
  assumes "fst (edit_file H R f change d p w) = Inr (Inr (), d', p')"
  shows "\<exists>qs qs'. LoadPatternsByFilename H d f = Inr qs \<and> change qs = Inr qs' \<and> saved H f qs' d d'"
  using assms save_cases(1)
  by (fastforce simp: edit_file_def LoadPatternsByFilename_def edit_fail_def op_ret_def split: sum.splits)

lemma edit_error:
  assumes "fst (edit_file H R f change d p w) = Inr (Inl e, d', p')" "write_fault H = Map.empty"
  shows "d' = d"
  using assms save_cases(2)
  by (fastforce simp: edit_file_def edit_fail_def op_ret_def split: sum.splits)

context yaml_v2
begin

lemma load_saved:
  assumes "saved H f ps d d'" "read_fault H = Map.empty"
  shows "LoadPatternsByFilename H d' f = Inr ps"
proof -
  obtain full t where "resolvePatternPath H f = Inr full" "yaml_marshal H ps = Inr t"
    "map_of d' (os_path H full) = Some \<lparr>pf_mtime = write_time H, pf_data = t\<rparr>"
    using assms(1) by (auto simp: saved_def)
  then show ?thesis
    using assms(2) load_marshal by (simp add: LoadPatternsByFilename_def LoadPatternsFromFile_def ReadFile_def comp_def)
qed

lemma edited:
  assumes "fst (edit_file H R f change d p w) = Inr (Inr (), d', p')" "read_fault H = Map.empty"
  shows "\<exists>qs qs'. LoadPatternsByFilename H d f = Inr qs \<and> change qs = Inr qs' \<and> LoadPatternsByFilename H d' f = Inr qs'"
  using edit_cases [OF assms(1)] load_saved [OF _ assms(2)] by blast

end

lemma change_firstE:
  assumes "change_first n g qs = Inr qs'"
  obtains as x bs where "qs = as @ x # bs" "n \<notin> P_Name ` set as" "P_Name x = n" "qs' = as @ g x # bs"
  using assms
proof (induction qs arbitrary: qs' thesis)
  case (Cons q qs)
  show ?case
  proof (cases "P_Name q = n")
    case True
    with Cons.prems show ?thesis by (intro Cons.prems(1) [of "[]" q qs]) simp_all
  next
    case False
    then obtain qs'' where rest: "change_first n g qs = Inr qs''" and qs': "qs' = q # qs''"
      using Cons.prems(2) by (auto split: sum.splits)
    show ?thesis
    proof (rule Cons.IH [OF _ rest])
      fix as x bs assume "qs = as @ x # bs" "n \<notin> P_Name ` set as" "P_Name x = n" "qs'' = as @ g x # bs"
      with False qs' show ?thesis by (intro Cons.prems(1) [of "q # as" x bs]) auto
    qed
  qed
qed simp

text \<open>
  C24.  Every editing operation that reports success changes the file's list of patterns exactly as its name
  says, and reading the file again gives that list: a pattern with a new name is appended, the first
  pattern of the name is replaced or switched, or all patterns of the name are removed.
\<close>

theorem pattern_edits_exact:
  assumes "yaml_v2 H" "read_fault H = Map.empty"
  shows "(fst (AddPatternToFile H R f q d p w) = Inr (Inr (), d', p') \<longrightarrow>
      (\<exists>qs. LoadPatternsByFilename H d f = Inr qs \<and> ValidatePattern H q = None \<and> P_Name q \<notin> P_Name ` set qs \<and>
        LoadPatternsByFilename H d' f = Inr (qs @ [q])))
    \<and> (fst (UpdatePatternInFile H R f n q d p w) = Inr (Inr (), d', p') \<longrightarrow>
      (\<exists>as x bs. LoadPatternsByFilename H d f = Inr (as @ x # bs) \<and> ValidatePattern H q = None \<and> n \<notin> P_Name ` set as \<and> P_Name x = n \<and>
        LoadPatternsByFilename H d' f = Inr (as @ q # bs)))
    \<and> (fst (EnableDisablePattern H R f n b d p w) = Inr (Inr (), d', p') \<longrightarrow>
      (\<exists>as x bs. LoadPatternsByFilename H d f = Inr (as @ x # bs) \<and> n \<notin> P_Name ` set as \<and> P_Name x = n \<and>
        LoadPatternsByFilename H d' f = Inr (as @ x\<lparr>P_Enabled := b\<rparr> # bs)))
    \<and> (fst (DeletePatternFromFile H R f n d p w) = Inr (Inr (), d', p') \<longrightarrow>
      (\<exists>qs. LoadPatternsByFilename H d f = Inr qs \<and> n \<in> P_Name ` set qs \<and>
        LoadPatternsByFilename H d' f = Inr (filter (\<lambda>x. P_Name x \<noteq> n) qs)))"
proof (intro conjI impI)
  note ed = yaml_v2.edited [OF assms(1) _ assms(2)]
  assume "fst (AddPatternToFile H R f q d p w) = Inr (Inr (), d', p')"
  then have v: "ValidatePattern H q = None" and e: "fst (edit_file H R f (add_to q) d p w) = Inr (Inr (), d', p')"
    by (auto simp: AddPatternToFile_def edit_fail_def op_ret_def split: option.splits)
  from ed [OF e] v show "\<exists>qs. LoadPatternsByFilename H d f = Inr qs \<and> ValidatePattern H q = None \<and> P_Name q \<notin> P_Name ` set qs \<and>
        LoadPatternsByFilename H d' f = Inr (qs @ [q])"
    by (force simp: add_to_def list_ex_iff split: if_splits)
next
  note ed = yaml_v2.edited [OF assms(1) _ assms(2)]
  assume "fst (UpdatePatternInFile H R f n q d p w) = Inr (Inr (), d', p')"
  then have v: "ValidatePattern H q = None" and e: "fst (edit_file H R f (change_first n (\<lambda>_. q)) d p w) = Inr (Inr (), d', p')"
    by (auto simp: UpdatePatternInFile_def edit_fail_def op_ret_def split: option.splits)
  from ed [OF e] v show "\<exists>as x bs. LoadPatternsByFilename H d f = Inr (as @ x # bs) \<and> ValidatePattern H q = None \<and>
      n \<notin> P_Name ` set as \<and> P_Name x = n \<and> LoadPatternsByFilename H d' f = Inr (as @ q # bs)"
    by (auto elim!: change_firstE)
next
  assume "fst (EnableDisablePattern H R f n b d p w) = Inr (Inr (), d', p')"
  from yaml_v2.edited [OF assms(1) this [unfolded EnableDisablePattern_def] assms(2)]
  show "\<exists>as x bs. LoadPatternsByFilename H d f = Inr (as @ x # bs) \<and> n \<notin> P_Name ` set as \<and> P_Name x = n \<and>
        LoadPatternsByFilename H d' f = Inr (as @ x\<lparr>P_Enabled := b\<rparr> # bs)"
    by (auto elim!: change_firstE)
next
  assume "fst (DeletePatternFromFile H R f n d p w) = Inr (Inr (), d', p')"
  from yaml_v2.edited [OF assms(1) this [unfolded DeletePatternFromFile_def] assms(2)]
  show "\<exists>qs. LoadPatternsByFilename H d f = Inr qs \<and> n \<in> P_Name ` set qs \<and>
        LoadPatternsByFilename H d' f = Inr (filter (\<lambda>x. P_Name x \<noteq> n) qs)"
    by (auto simp: drop_named_def Let_def split: if_splits) (metis (mono_tags, lifting) filter_True image_eqI)
qed

section \<open>An instance\<close>

text \<open>
  A host whose YAML texts are written in the JSON subset of YAML, with the decoding of \<^verbatim>\<open>Json_Struct\<close>, and
  whose regular expressions are literals.
\<close>

definition pattern_json :: "Pattern \<Rightarrow> json" where
  "pattern_json q = JObj [(''pattern'', JObj [(''name'', JStr (P_Name q)), (''regex'', JStr (P_Regex q)),
     (''confidence'', JStr (P_Confidence q)), (''enabled'', JBool (P_Enabled q))])]"

definition dec_flag :: "json option \<Rightarrow> bool option option" where
  "dec_flag v = (case v of None \<Rightarrow> Some None | Some JNull \<Rightarrow> Some None | Some (JBool b) \<Rightarrow> Some (Some b) | _ \<Rightarrow> None)"

definition scan_fields :: "string list" where
  "scan_fields = [''name'', ''regex'', ''confidence'', ''masvs'', ''enabled'']"

definition dec_scan_pattern :: "json option \<Rightarrow> scan_pattern option" where
  "dec_scan_pattern v =
     (case dec_obj v of None \<Rightarrow> None | Some ms \<Rightarrow>
       (case dec_obj (struct_get [''pattern''] ms ''pattern'') of None \<Rightarrow> None | Some fs \<Rightarrow>
         (let get = struct_get scan_fields fs in
          case (dec_str (get ''name''), dec_str (get ''regex''), dec_str (get ''confidence''), dec_str (get ''masvs''), dec_flag (get ''enabled'')) of
            (Some n, Some r, Some c, Some m, Some e) \<Rightarrow>
              Some \<lparr>y_name = n, y_regex = r, y_confidence = c, y_enabled = e, y_masvs = m\<rparr>
          | _ \<Rightarrow> None)))"

definition decode_err :: go_error where
  "decode_err = Errorf ''yaml: cannot unmarshal'' []"

definition json_scan :: "string \<Rightarrow> go_error + SecretPatterns" where
  "json_scan t =
     (case json_unmarshal t of None \<Rightarrow> Inl decode_err | Some v \<Rightarrow>
       (case dec_obj (Some v) of None \<Rightarrow> Inl decode_err | Some ms \<Rightarrow>
         (let get = struct_get [''platform'', ''masvs'', ''patterns''] ms in
          case (dec_str (get ''platform''), dec_str (get ''masvs''), dec_list dec_scan_pattern (get ''patterns'')) of
            (Some pl, Some m, Some ps) \<Rightarrow> Inr \<lparr>Platform = pl, MASVS = m, Patterns = ps\<rparr>
          | _ \<Rightarrow> Inl decode_err)))"

definition json_load :: "string \<Rightarrow> go_error + yaml_pattern list" where
  "json_load t = (case json_scan t of Inl e \<Rightarrow> Inl e | Inr doc \<Rightarrow> Inr (map yaml_pattern.truncate (Patterns doc)))"

definition json_patterns :: "Pattern list \<Rightarrow> json" where
  "json_patterns ps = JObj [(''patterns'', JArr (map pattern_json ps))]"

fun occurrences :: "nat \<Rightarrow> string \<Rightarrow> string \<Rightarrow> int list list" where
  "occurrences i lit [] = []"
| "occurrences i lit (c # s) =
     (if hasPrefix (c # s) lit then [[int i, int (i + length lit)]] else []) @ occurrences (Suc i) lit s"

definition literal_re :: "string \<Rightarrow> regexp" where
  "literal_re lit = \<lparr>NumSubexp = 0, FindAllStringSubmatchIndex = occurrences 0 lit\<rparr>"

definition json_host :: pattern_host where
  "json_host = \<lparr>patterns_env = [], cwd = ''/app'', getwd_err = None, yaml_load = json_load, yaml_scan = json_scan,
     yaml_marshal = (\<lambda>ps. Inr (marshal (json_patterns ps))), re_compile = (\<lambda>r. Inr (literal_re r)),
     read_fault = Map.empty, write_fault = Map.empty, remove_fault = Map.empty, write_time = 100\<rparr>"

lemma dec_pattern_json: "dec_scan_pattern (Some (pattern_json q)) = Some (scanned_pattern q)"
proof -
  let ?fs = "[(''name'', JStr (P_Name q)), (''regex'', JStr (P_Regex q)),
     (''confidence'', JStr (P_Confidence q)), (''enabled'', JBool (P_Enabled q))]"
  have "struct_get scan_fields ?fs = map_of ?fs"
    by (rule ext, rule struct_get_exact) (simp_all add: scan_fields_def)
  moreover have "struct_get [''pattern''] [(''pattern'', JObj ?fs)] ''pattern'' = Some (JObj ?fs)"
    by (subst struct_get_exact) simp_all
  ultimately show ?thesis
    by (simp add: dec_scan_pattern_def pattern_json_def scanned_pattern_def dec_obj_def dec_str_def dec_flag_def)
qed

lemma json_scan_patterns:
  "json_scan (marshal (json_patterns ps)) = Inr \<lparr>Platform = [], MASVS = [], Patterns = map scanned_pattern ps\<rparr>"
proof -
  have "json_ok (json_patterns ps)"
    by (auto simp: json_patterns_def pattern_json_def list_all_iff)
  then have un: "json_unmarshal (marshal (json_patterns ps)) = Some (json_patterns ps)" by (rule unmarshal_marshal)
  have get: "struct_get [''platform'', ''masvs'', ''patterns''] [(''patterns'', JArr (map pattern_json ps))] =
      map_of [(''patterns'', JArr (map pattern_json ps))]"
    by (rule ext, rule struct_get_exact) simp_all
  have "dec_all dec_scan_pattern (map pattern_json ps) = Some (map scanned_pattern ps)"
    by (rule dec_all_map) (rule dec_pattern_json)
  then show ?thesis
    by (simp add: json_scan_def un) (simp add: json_patterns_def dec_obj_def get dec_str_def dec_list_def)
qed

lemma truncate_scanned: "yaml_pattern.truncate (scanned_pattern q) = of_pattern q"
  by (simp add: scanned_pattern_def of_pattern_def yaml_pattern.truncate_def)

interpretation json_yaml: yaml_v2 json_host
  by unfold_locales (auto simp: json_host_def json_load_def json_scan_patterns truncate_scanned comp_def)

lemma json_host_sel [simp]:
  "yaml_load json_host = json_load" "yaml_scan json_host = json_scan" "yaml_marshal json_host = (\<lambda>ps. Inr (marshal (json_patterns ps)))"
  "re_compile json_host = (\<lambda>r. Inr (literal_re r))" "read_fault json_host = Map.empty" "write_fault json_host = Map.empty"
  "remove_fault json_host = Map.empty" "write_time json_host = 100" "getwd_err json_host = None"
  by (simp_all add: json_host_def)

definition sample_pattern :: "string \<Rightarrow> Pattern" where
  "sample_pattern n = \<lparr>P_Name = n, P_Regex = ''AKIA'', P_Confidence = ''high'', P_Enabled = True\<rparr>"

theorem patterns_contained_witness:
  "isAbs (cwd json_host) \<and> resolvePatternPath json_host ''../../etc/keys.yaml'' = Inr ''/app/patterns/keys.yaml''"
proof -
  have root: "patterns_root json_host = ''/app/patterns''"
    by (simp add: patterns_root_def GetPatternsDir_def json_host_def isAbs_def)
  have base: "path_base ''../../etc/keys.yaml'' = ''keys.yaml''"
    by (simp add: path_base_def strip_slashes_def Let_def)
  have "yaml_name ''keys.yaml''"
    using trimSpace_printable [of "''keys.yaml''"]
    by (simp add: yaml_name_def plain_elem_def printable_def hasSuffix_def lower_char_def)
  moreover have "child ''/app/patterns'' ''keys.yaml'' = ''/app/patterns/keys.yaml''"
    by (simp add: child_def clean_elems_def isAbs_def)
  ultimately show ?thesis
    using patterns_contained [of json_host "''../../etc/keys.yaml''" "''/app/patterns/keys.yaml''"] root base
    by (simp add: json_host_def isAbs_def)
qed

text \<open>A patterns directory with one file.\<close>

definition sample_disk :: disk where
  "sample_disk = [(''/app/patterns/keys.yaml'', \<lparr>pf_mtime = 1, pf_data = marshal (json_patterns [sample_pattern ''a''])\<rparr>)]"

lemma sample_resolve: "resolvePatternPath json_host ''keys.yaml'' = Inr ''/app/patterns/keys.yaml''"
proof -
  have root: "patterns_root json_host = ''/app/patterns''" "path_abs json_host (GetPatternsDir json_host) = Inr (path_clean ''/app/patterns'')"
    by (simp_all add: patterns_root_def path_abs_def GetPatternsDir_def json_host_def isAbs_def)
  have "yaml_name ''keys.yaml''"
    using trimSpace_printable [of "''keys.yaml''"]
    by (simp add: yaml_name_def plain_elem_def printable_def hasSuffix_def lower_char_def)
  moreover have "child ''/app/patterns'' ''keys.yaml'' = ''/app/patterns/keys.yaml''" "path_base ''keys.yaml'' = ''keys.yaml''"
    by (simp_all add: child_def clean_elems_def isAbs_def path_base_def strip_slashes_def Let_def)
  ultimately show ?thesis
    using resolve_iff [of json_host "''keys.yaml''"] root by (simp add: json_host_def isAbs_def)
qed

lemma sample_path: "os_path json_host ''/app/patterns/keys.yaml'' = ''/app/patterns/keys.yaml''"
  by (simp add: os_path_def path_clean_def clean_elems_def isAbs_def)

lemma sample_load: "LoadPatternsFromFile json_host sample_disk ''/app/patterns/keys.yaml'' = Inr [sample_pattern ''a'']"
  using json_yaml.load_marshal [of "[sample_pattern ''a'']" "marshal (json_patterns [sample_pattern ''a''])"]
  by (simp add: LoadPatternsFromFile_def ReadFile_def sample_path sample_disk_def)

theorem pattern_edits_exact_witness:
  "yaml_v2 json_host \<and> read_fault json_host = Map.empty \<and>
   (\<exists>d' p'. fst (AddPatternToFile json_host (mem_redis [] []) ''keys.yaml'' (sample_pattern ''b'') sample_disk sample_pod empty_world) = Inr (Inr (), d', p')
     \<and> LoadPatternsByFilename json_host d' ''keys.yaml'' = Inr [sample_pattern ''a'', sample_pattern ''b''])"
proof -
  let ?add = "AddPatternToFile json_host (mem_redis [] []) ''keys.yaml'' (sample_pattern ''b'') sample_disk sample_pod empty_world"
  have nofault: "read_fault json_host = Map.empty" by (simp add: json_host_def)
  have "\<exists>d' p'. fst ?add = Inr (Inr (), d', p')"
    by (simp add: AddPatternToFile_def edit_file_def sample_resolve sample_load SavePatternsToFile_def add_to_def
        ValidatePattern_def op_bind_def op_try_def op_ret_def case_prod_beta) (simp add: sample_pattern_def)
  then obtain d' p' where add: "fst ?add = Inr (Inr (), d', p')" by blast
  have "LoadPatternsByFilename json_host sample_disk ''keys.yaml'' = Inr [sample_pattern ''a'']"
    by (simp add: LoadPatternsByFilename_def sample_resolve sample_load)
  with pattern_edits_exact [OF json_yaml.yaml_v2_axioms nofault, THEN conjunct1, rule_format, OF add] nofault add json_yaml.yaml_v2_axioms
  show ?thesis by auto
qed

end
