(* ===== verification/Run_Command.thy ===== *)
theory Run_Command
  imports Prelude
begin

text \<open>
  Running a child process, \<^verbatim>\<open>utils/command.go\<close>.  The child itself is a parameter: whether it starts, what
  the reader of its output returns, its error output, and how it and the context end.  The theorem
  shows that the streaming reader delivers every line of the output, cut to a bound, however the
  output arrives in fragments.
\<close>

section \<open>Errors of a run\<close>

text \<open>
  The \<^verbatim>\<open>*exec.ExitError\<close> of a child that exited with a status or was killed by a signal, and the errors
  of an ended context.
\<close>

definition exit_status :: "nat \<Rightarrow> go_error" where
  "exit_status n = Sentinel (''exit status '' @ show_nat n)"

definition signal_killed :: go_error where "signal_killed = Sentinel ''signal: killed''"
definition DeadlineExceeded :: go_error where "DeadlineExceeded = Sentinel ''context deadline exceeded''"
definition Canceled :: go_error where "Canceled = Sentinel ''context canceled''"

definition exit_code_of :: "string \<Rightarrow> int option" where
  "exit_code_of s =
     (if s = ''signal: killed'' then Some (-1)
      else if hasPrefix s ''exit status '' then atoi (drop 12 s) else None)"

text \<open>\<^verbatim>\<open>errors.As\<close> into an \<^verbatim>\<open>*exec.ExitError\<close>: the first one in a pre-order walk, by its code.\<close>

fun as_exit :: "go_error \<Rightarrow> int option"
  and as_exit_list :: "go_error list \<Rightarrow> int option" where
  "as_exit (Sentinel s) = exit_code_of s"
| "as_exit (NetError s) = None"
| "as_exit (RetryableError e b) = as_exit e"
| "as_exit (Errorf s es) = as_exit_list es"
| "as_exit_list [] = None"
| "as_exit_list (e # es) = (case as_exit e of Some c \<Rightarrow> Some c | None \<Rightarrow> as_exit_list es)"

definition ExitCodeOf :: "go_error option \<Rightarrow> int" where
  "ExitCodeOf err =
     (case err of
        None \<Rightarrow> 0
      | Some e \<Rightarrow> (case as_exit e of Some c \<Rightarrow> c | None \<Rightarrow> if errors_is e DeadlineExceeded then -2 else -1))"

definition mapRunError :: "string \<Rightarrow> go_error option \<Rightarrow> go_error \<Rightarrow> string \<Rightarrow> go_error" where
  "mapRunError name ctx_err waitErr stderr =
     (let stderrText = trimSpace stderr in
      case ctx_err of
        Some e \<Rightarrow>
          if stderrText \<noteq> []
          then Errorf (''command '' @ quoted name @ '' did not complete ('' @ err_msg e @ ''); stderr: '' @ stderrText) [e]
          else Errorf (''command '' @ quoted name @ '' did not complete: '' @ err_msg e) [e]
      | None \<Rightarrow>
          if stderrText \<noteq> []
          then Errorf (''command '' @ quoted name @ '' failed: '' @ err_msg waitErr @ ''; stderr: '' @ stderrText) [waitErr]
          else Errorf (''command '' @ quoted name @ '' failed: '' @ err_msg waitErr) [waitErr])"

lemma as_exit_status: "int n < 2 ^ 63 \<Longrightarrow> as_exit (exit_status n) = Some (int n)"
  using show_nat_digits [of n] by (simp add: exit_status_def exit_code_of_def atoi_def in_int64_def)

lemma as_exit_deadline [simp]: "as_exit DeadlineExceeded = None"
  by (simp add: DeadlineExceeded_def exit_code_of_def)

lemma ExitCodeOf_mapped:
  "int n < 2 ^ 63 \<Longrightarrow> ExitCodeOf (Some (mapRunError name None (exit_status n) err)) = int n"
  "ExitCodeOf (Some (mapRunError name None signal_killed err)) = -1"
  "ExitCodeOf (Some (mapRunError name (Some DeadlineExceeded) we err)) = -2"
  "ExitCodeOf (Some (mapRunError name (Some Canceled) we err)) = -1"
  by (simp_all add: mapRunError_def ExitCodeOf_def as_exit_status Let_def)
    (simp_all add: signal_killed_def exit_code_of_def DeadlineExceeded_def Canceled_def)

text \<open>How \<^verbatim>\<open>Wait\<close> and a context can end.\<close>

definition wait_result :: "go_error option \<Rightarrow> bool" where
  "wait_result e \<longleftrightarrow> e = None \<or> e = Some signal_killed \<or> (\<exists>n. e = Some (exit_status n) \<and> int n < 2 ^ 63)"

definition context_result :: "go_error option \<Rightarrow> bool" where
  "context_result e \<longleftrightarrow> e = None \<or> e = Some DeadlineExceeded \<or> e = Some Canceled"

lemma ExitCodeOf_one:
  assumes "wait_result (Some we)" "context_result ce"
  shows "ExitCodeOf (Some (mapRunError name ce we err)) = 1 \<longleftrightarrow> we = exit_status 1 \<and> ce = None"
  using assms by (auto simp: wait_result_def context_result_def ExitCodeOf_mapped ExitCodeOf_mapped(1) [of 1])
    (simp add: exit_status_def signal_killed_def)

section \<open>Running\<close>

text \<open>
  One answer of \<^verbatim>\<open>reader.ReadLine\<close>: a fragment of a line without its newline, whether more of the line
  follows, and an error (\<^verbatim>\<open>io.EOF\<close> at the end).
\<close>

type_synonym reading = "string \<times> bool \<times> go_error option"

definition EOF :: go_error where "EOF = Sentinel ''EOF''"

record child =
  pipe_err :: "go_error option"
  start_err :: "go_error option"
  readings :: "reading list"
  stdout :: string
  stderr :: string
  wait_err :: "go_error option"
  ctx_err :: "go_error option"

definition RunWithContext :: "string \<Rightarrow> child \<Rightarrow> string \<times> go_error option" where
  "RunWithContext name c =
     (case start_err c of
        Some e \<Rightarrow> ([], Some (Errorf (''failed to start command '' @ quoted name @ '': '' @ err_msg e) [e]))
      | None \<Rightarrow>
          (case wait_err c of
             Some e \<Rightarrow> (stdout c, Some (mapRunError name (ctx_err c) e (stderr c)))
           | None \<Rightarrow> (stdout c, None)))"

definition ExecuteCommandWithTimeout :: "string \<Rightarrow> child \<Rightarrow> string \<times> go_error option" where
  "ExecuteCommandWithTimeout name c =
     (case RunWithContext name c of (out, Some e) \<Rightarrow> ([], Some e) | (out, None) \<Rightarrow> (out, None))"

definition maxLineBytes :: nat where "maxLineBytes = 8 * 1024 * 1024"

text \<open>
  The reading loop: the result is the error of the callback, the error of the reader, and the state
  of the callback.  The reader ends with an error, so the case of no further answer does not occur.
\<close>

fun stream_loop :: "(string \<Rightarrow> 'st \<Rightarrow> go_error option \<times> 'st) \<Rightarrow> string \<Rightarrow> reading list \<Rightarrow> 'st
    \<Rightarrow> go_error option \<times> go_error option \<times> 'st" where
  "stream_loop onLine lineBuf [] st = (None, None, st)"
| "stream_loop onLine lineBuf ((frag, isPrefix, readErr) # rs) st =
     (let buf = (if frag \<noteq> [] \<and> length lineBuf < maxLineBytes
                 then lineBuf @ take (maxLineBytes - length lineBuf) frag else lineBuf);
          (cb, buf', st') =
            (if \<not> isPrefix \<and> buf \<noteq> []
             then (case onLine buf st of (Some e, st1) \<Rightarrow> (Some e, buf, st1) | (None, st1) \<Rightarrow> (None, [], st1))
             else (None, buf, st))
      in case cb of
           Some e \<Rightarrow> (Some e, None, st')
         | None \<Rightarrow>
             (case readErr of
                Some e \<Rightarrow> (None, if e = EOF then None else Some e, st')
              | None \<Rightarrow> stream_loop onLine buf' rs st'))"

definition RunWithContextStream ::
  "string \<Rightarrow> child \<Rightarrow> (string \<Rightarrow> 'st \<Rightarrow> go_error option \<times> 'st) \<Rightarrow> 'st \<Rightarrow> go_error option \<times> 'st" where
  "RunWithContextStream name c onLine st =
     (case pipe_err c of
        Some e \<Rightarrow> (Some (Errorf (''failed to open stdout pipe for command '' @ quoted name @ '': '' @ err_msg e) [e]), st)
      | None \<Rightarrow>
          (case start_err c of
             Some e \<Rightarrow> (Some (Errorf (''failed to start command '' @ quoted name @ '': '' @ err_msg e) [e]), st)
           | None \<Rightarrow>
               (case stream_loop onLine [] (readings c) st of
                  (Some e, _, st') \<Rightarrow> (Some e, st')
                | (None, Some e, st') \<Rightarrow>
                    (case wait_err c of
                       Some we \<Rightarrow> (Some (mapRunError name (ctx_err c) we (stderr c)), st')
                     | None \<Rightarrow> (Some (Errorf (''error reading stdout of command '' @ quoted name @ '': '' @ err_msg e) [e]), st'))
                | (None, None, st') \<Rightarrow>
                    (case wait_err c of
                       Some we \<Rightarrow> (Some (mapRunError name (ctx_err c) we (stderr c)), st')
                     | None \<Rightarrow> (None, st')))))"

section \<open>Every line is delivered\<close>

text \<open>
  How a text arrives: each line as one or more fragments, all but the last one marked as prefixes,
  and the end of the output as an empty answer with \<^verbatim>\<open>io.EOF\<close>.
\<close>

inductive line_readings :: "string \<Rightarrow> reading list \<Rightarrow> bool" where
  whole: "line_readings l [(l, False, None)]"
| part: "line_readings l rs \<Longrightarrow> line_readings (frag @ l) ((frag, True, None) # rs)"

inductive text_readings :: "string list \<Rightarrow> reading list \<Rightarrow> bool" where
  finish: "text_readings [] [([], False, Some EOF)]"
| line: "line_readings l rs \<Longrightarrow> text_readings ls rs' \<Longrightarrow> text_readings (l # ls) (rs @ rs')"

definition deliver :: "(string \<Rightarrow> 'st \<Rightarrow> go_error option \<times> 'st) \<Rightarrow> string list \<Rightarrow> 'st \<Rightarrow> 'st" where
  "deliver onLine ls st = foldl (\<lambda>s l. snd (onLine l s)) st (filter (\<lambda>l. l \<noteq> []) (map (take maxLineBytes) ls))"

lemma take_take_append: "length b \<le> m \<Longrightarrow> (if frag \<noteq> [] \<and> length b < m then b @ take (m - length b) frag else b) = take m (b @ frag)"
  by (cases "length b < m") auto

lemma take_append_take: "take m (take m xs @ ys) = take m (xs @ ys)"
  by (simp add: min_def)

lemma stream_line:
  assumes "line_readings l rs" "length b \<le> maxLineBytes" "\<And>x s. fst (onLine x s) = None"
  shows "stream_loop onLine b (rs @ rs') st =
    (if take maxLineBytes (b @ l) = [] then stream_loop onLine [] rs' st
     else stream_loop onLine [] rs' (snd (onLine (take maxLineBytes (b @ l)) st)))"
  using assms(1,2)
proof (induction arbitrary: b rule: line_readings.induct)
  case (whole l)
  then show ?case
    using assms(3) [of "take maxLineBytes (b @ l)" st]
    by (simp only: append_Cons append_Nil stream_loop.simps take_take_append [OF whole])
      (auto simp: Let_def split: prod.split)
next
  case (part l rs frag)
  have len: "length (take maxLineBytes (b @ frag)) \<le> maxLineBytes" by simp
  have "take maxLineBytes (take maxLineBytes (b @ frag) @ l) = take maxLineBytes (b @ frag @ l)"
    by (simp only: take_append_take append_assoc)
  with part.IH [OF len] show ?case
    by (simp only: append_Cons stream_loop.simps take_take_append [OF part.prems]) (simp add: Let_def)
qed

lemma stream_text:
  assumes "text_readings ls rs" "\<And>x s. fst (onLine x s) = None"
  shows "stream_loop onLine [] rs st = (None, None, deliver onLine ls st)"
  using assms(1)
proof (induction arbitrary: st rule: text_readings.induct)
  case finish
  show ?case by (simp add: deliver_def)
next
  case (line l rs ls rs')
  have "stream_loop onLine [] (rs @ rs') st =
      (if take maxLineBytes l = [] then stream_loop onLine [] rs' st else stream_loop onLine [] rs' (snd (onLine (take maxLineBytes l) st)))"
    using stream_line [OF line.hyps(1), of "[]" onLine rs' st] assms(2) by simp
  then show ?case using line.IH by (simp add: deliver_def)
qed

text \<open>
  A child that ends without an error has every non-empty line of its output passed to the callback, in
  order and cut to \<^verbatim>\<open>maxLineBytes\<close>, in whatever fragments the output arrives; a child that fails has them
  delivered too, and the error then tells a status from a timeout.
\<close>

theorem stream_delivers:
  assumes "text_readings ls (readings c)" "pipe_err c = None" "start_err c = None" "\<And>x s. fst (onLine x s) = None"
  shows "snd (RunWithContextStream name c onLine st) = deliver onLine ls st
    \<and> (fst (RunWithContextStream name c onLine st) = None \<longleftrightarrow> wait_err c = None)
    \<and> (wait_err c = Some (exit_status n) \<and> ctx_err c = None \<and> int n < 2 ^ 63 \<longrightarrow>
        ExitCodeOf (fst (RunWithContextStream name c onLine st)) = int n)
    \<and> (wait_err c \<noteq> None \<and> ctx_err c = Some DeadlineExceeded \<longrightarrow> ExitCodeOf (fst (RunWithContextStream name c onLine st)) = -2)"
proof -
  have loop: "stream_loop onLine [] (readings c) st = (None, None, deliver onLine ls st)"
    by (rule stream_text [OF assms(1,4)])
  have run: "RunWithContextStream name c onLine st =
      (case wait_err c of Some we \<Rightarrow> (Some (mapRunError name (ctx_err c) we (stderr c)), deliver onLine ls st)
       | None \<Rightarrow> (None, deliver onLine ls st))"
    unfolding RunWithContextStream_def assms(2,3) option.case loop prod.case ..
  show ?thesis
    by (auto simp: run ExitCodeOf_mapped split: option.split)
qed

definition rg_child :: child where
  "rg_child = \<lparr>pipe_err = None, start_err = None, readings = [(''a:1:'', True, None), (''k'', False, None), ([], False, None), (''b:2:k'', False, None), ([], False, Some EOF)],
     stdout = [], stderr = [], wait_err = Some (exit_status 2), ctx_err = None\<rparr>"

theorem stream_delivers_witness:
  "RunWithContextStream ''rg'' rg_child (\<lambda>l s. (None, s @ [l])) [] =
     (fst (RunWithContextStream ''rg'' rg_child (\<lambda>l s. (None, s @ [l])) []), [''a:1:k'', ''b:2:k''])
   \<and> ExitCodeOf (fst (RunWithContextStream ''rg'' rg_child (\<lambda>l s. (None, s @ [l])) [])) = 2"
proof -
  have "line_readings ''a:1:k'' [(''a:1:'', True, None), (''k'', False, None)]"
    using line_readings.part [OF line_readings.whole, of "''a:1:''" "''k''"] by simp
  note read = text_readings.line [OF this text_readings.line [OF line_readings.whole [of "[]"]
    text_readings.line [OF line_readings.whole [of "''b:2:k''"] text_readings.finish]]]
  have "text_readings [''a:1:k'', [], ''b:2:k''] (readings rg_child)"
    using read by (simp add: rg_child_def)
  from stream_delivers [OF this, where onLine = "\<lambda>l s. (None, s @ [l])" and st = "[]" and name = "''rg''" and n = 2]
  show ?thesis by (auto simp: rg_child_def deliver_def maxLineBytes_def prod_eq_iff)
qed

end
