(* ===== verification/Detect.thy ===== *)
theory Detect
  imports Pattern_Store Run_Command Secret_Model
begin

text \<open>
  The detection core, \<^verbatim>\<open>detect/detect.go\<close>: the pattern cache built from the files of the patterns directory,
  the attribution of a matched line to patterns, the batch scan with \<^verbatim>\<open>ripgrep\<close>, and the clean-up of its
  findings.  Regular expressions are those of \<^verbatim>\<open>Pattern_Store\<close>, the child process is that of
  \<^verbatim>\<open>Run_Command\<close>.
\<close>

section \<open>Platform scope\<close>

definition normalizePlatform :: "string \<Rightarrow> string" where
  "normalizePlatform s =
     (let t = toLower (trimSpace s) in
      if t = ''ios'' then ''ios'' else if t = ''android'' then ''android'' else ''any'')"

definition filePlatform :: "string \<Rightarrow> string \<Rightarrow> string" where
  "filePlatform fileName declared =
     (let p = normalizePlatform declared in
      if p \<noteq> ''any'' then p
      else (let lower = toLower fileName in
        if hasPrefix lower ''ios-'' then ''ios''
        else if hasPrefix lower ''android-'' then ''android''
        else ''any''))"

definition patternApplies :: "string \<Rightarrow> string \<Rightarrow> bool" where
  "patternApplies patternPlatform scanPlatform \<longleftrightarrow> patternPlatform = ''any'' \<or> patternPlatform = scanPlatform"

section \<open>The pattern cache\<close>

record PatternInfo =
  PI_Name :: string
  PI_Regex :: string
  PI_Confidence :: string
  PI_Platform :: string
  PI_MASVS :: string
  Compiled :: "regexp option"

record PatternCache =
  C_Patterns :: "PatternInfo list"
  Combined :: "regexp option"
  GroupToPattern :: "int list"
  PatternsTxt :: string
  BuiltFrom :: int

definition readPatternFile :: "pattern_host \<Rightarrow> disk \<Rightarrow> string \<Rightarrow> string" where
  "readPatternFile H d path = (case ReadFile H d path of Inl _ \<Rightarrow> [] | Inr data \<Rightarrow> data)"

definition to_info :: "pattern_host \<Rightarrow> string \<Rightarrow> string \<Rightarrow> scan_pattern \<Rightarrow> PatternInfo" where
  "to_info H fp file_masvs q =
     \<lparr>PI_Name = y_name q, PI_Regex = y_regex q, PI_Confidence = y_confidence q, PI_Platform = fp,
      PI_MASVS = (if y_masvs q \<noteq> [] then y_masvs q else file_masvs),
      Compiled = (case re_compile H (y_regex q) of Inl _ \<Rightarrow> None | Inr re \<Rightarrow> Some re)\<rparr>"

text \<open>The patterns one file contributes to a scan of a platform.\<close>

definition file_patterns :: "pattern_host \<Rightarrow> disk \<Rightarrow> string \<Rightarrow> string \<Rightarrow> PatternInfo list" where
  "file_patterns H d platform name =
     (if \<not> hasSuffix name ''.yaml'' \<and> \<not> hasSuffix name ''.yml'' then []
      else case yaml_scan H (readPatternFile H d (path_join [GetPatternsDir H, name])) of
        Inl _ \<Rightarrow> []
      | Inr doc \<Rightarrow>
          (let fp = filePlatform name (Platform doc) in
           if \<not> patternApplies fp platform then []
           else map (to_info H fp (MASVS doc)) (filter (\<lambda>q. y_enabled q \<noteq> Some False) (Patterns doc))))"

text \<open>
  The union of the patterns that compile, \<^verbatim>\<open>(p0)|(p1)|...\<close>, and the owner of every group: \<^verbatim>\<open>-1\<close> for the
  whole match, then the index of each pattern once for its wrapping group and once for each of its
  own groups.
\<close>

fun combine_from :: "int \<Rightarrow> PatternInfo list \<Rightarrow> string list \<times> int list" where
  "combine_from i [] = ([], [])"
| "combine_from i (p # ps) =
     (case Compiled p of
        None \<Rightarrow> combine_from (i + 1) ps
      | Some re \<Rightarrow>
          (case combine_from (i + 1) ps of
             (alts, gs) \<Rightarrow> ((''('' @ PI_Regex p @ '')'') # alts, replicate (1 + NumSubexp re) i @ gs)))"

definition BuildCombinedRegex :: "pattern_host \<Rightarrow> PatternInfo list \<Rightarrow> regexp option \<times> int list" where
  "BuildCombinedRegex H patterns =
     (case combine_from 0 patterns of
        (alts, gs) \<Rightarrow>
          if alts = [] then (None, [])
          else (case re_compile H (str_join ''|'' alts) of
              Inl _ \<Rightarrow> (None, [])
            | Inr re \<Rightarrow> (Some re, -1 # gs)))"

definition buildPatternCache ::
  "pattern_host \<Rightarrow> disk \<Rightarrow> (string \<times> pfile) list \<Rightarrow> int \<Rightarrow> string \<Rightarrow> go_error + PatternCache" where
  "buildPatternCache H d entries maxMod platform =
     (let allPatterns = concat (map (\<lambda>(n, f). file_patterns H d platform n) entries) in
      if allPatterns = []
      then Inl (Errorf (''no secret patterns found in '' @ GetPatternsDir H @ '' for platform '' @ quoted platform) [])
      else (case BuildCombinedRegex H allPatterns of
          (combined, groupToPattern) \<Rightarrow>
            Inr \<lparr>C_Patterns = allPatterns, Combined = combined, GroupToPattern = groupToPattern,
                 PatternsTxt = concat (map (\<lambda>p. PI_Regex p @ [CHR 0x0A]) allPatterns), BuiltFrom = maxMod\<rparr>))"

text \<open>The largest modification time, starting from the zero time of Go (nanoseconds since 1970).\<close>

definition zero_time_ns :: int where
  "zero_time_ns = - 62135596800 * 10 ^ 9"

definition max_mod :: "(string \<times> pfile) list \<Rightarrow> int" where
  "max_mod entries = foldl (\<lambda>m (n, f). if pf_mtime f > m then pf_mtime f else m) zero_time_ns entries"

type_synonym caches = "string \<rightharpoonup> PatternCache"

definition GetPatternCache :: "pattern_host \<Rightarrow> disk \<Rightarrow> string \<Rightarrow> caches \<Rightarrow> (go_error + PatternCache) \<times> caches" where
  "GetPatternCache H d platform0 cs =
     (let platform = normalizePlatform platform0; entries = ReadDir H d (GetPatternsDir H); maxMod = max_mod entries in
      case (case cs platform of Some c \<Rightarrow> if maxMod \<le> BuiltFrom c then Some c else None | None \<Rightarrow> None) of
        Some c \<Rightarrow> (Inr c, cs)
      | None \<Rightarrow>
          (case buildPatternCache H d entries maxMod platform of
             Inl e \<Rightarrow> (Inl e, cs)
           | Inr built \<Rightarrow> (Inr built, cs(platform \<mapsto> built))))"

section \<open>Attribution\<close>

text \<open>
  The pattern that owns a match: the first group that took part in it and has an owner.  The loop runs
  over the groups from 1 while both bounds are in the list.
\<close>

definition owner :: "PatternCache \<Rightarrow> int list \<Rightarrow> int" where
  "owner c loc =
     (case find (\<lambda>g. \<not> loc ! (2 * g) < 0 \<and> g < length (GroupToPattern c) \<and>
          0 \<le> GroupToPattern c ! g \<and> GroupToPattern c ! g < int (length (C_Patterns c))) [1..<length loc div 2] of
        Some g \<Rightarrow> GroupToPattern c ! g
      | None \<Rightarrow> -1)"

definition first_uncompiled :: "PatternCache \<Rightarrow> int" where
  "first_uncompiled c =
     (case find (\<lambda>i. Compiled (C_Patterns c ! i) = None) [0..<length (C_Patterns c)] of Some i \<Rightarrow> int i | None \<Rightarrow> -1)"

definition FindMatchingPattern :: "PatternCache \<Rightarrow> string \<Rightarrow> PatternInfo option" where
  "FindMatchingPattern c content =
     (let i = (case Combined c of
          Some re \<Rightarrow> (case FindAllStringSubmatchIndex re content of [] \<Rightarrow> -1 | loc # _ \<Rightarrow> owner c loc)
        | None \<Rightarrow>
            (case find (\<lambda>i. case Compiled (C_Patterns c ! i) of None \<Rightarrow> False | Some re \<Rightarrow> FindAllStringSubmatchIndex re content \<noteq> [])
                [0..<length (C_Patterns c)] of
               Some i \<Rightarrow> int i
             | None \<Rightarrow> -1));
          j = (if i = -1 then first_uncompiled c else i)
      in if j = -1 then None else Some (C_Patterns c ! nat j))"

section \<open>Values\<close>

text \<open>
  \<^verbatim>\<open>ExtractSecret\<close>: the text between the first \<^verbatim>\<open>>\<close> and the last \<^verbatim>\<open><\<close>, else between the first two quotes, else
  after the last colon, else the whole.
\<close>

definition count_char :: "char \<Rightarrow> string \<Rightarrow> nat" where
  "count_char c s = length (filter (\<lambda>x. x = c) s)"

definition after_colon :: "string \<Rightarrow> string" where
  "after_colon content =
     (case last_index_char content (CHR '':'') of Some i \<Rightarrow> trimSpace (drop (i + 1) content) | None \<Rightarrow> content)"

definition between_quotes :: "string \<Rightarrow> string option" where
  "between_quotes content =
     (if 2 \<le> count_char (CHR 0x22) content
      then (case str_splitN 3 content (CHR 0x22) of _ # q # _ \<Rightarrow> Some q | _ \<Rightarrow> None)
      else None)"

definition between_tags :: "string \<Rightarrow> string option" where
  "between_tags content =
     (case (str_index content ''>'', last_index_char content (CHR ''<'')) of
        (Some i, Some end) \<Rightarrow>
          (let begin = i + 1 in if begin < end then Some (trimSpace (take (end - begin) (drop begin content))) else None)
      | _ \<Rightarrow> None)"

definition ExtractSecret :: "string \<Rightarrow> string" where
  "ExtractSecret content =
     (case between_tags content of
        Some v \<Rightarrow> v
      | None \<Rightarrow> (case between_quotes content of Some v \<Rightarrow> v | None \<Rightarrow> after_colon content))"

section \<open>Findings\<close>

definition finding :: "PatternCache \<Rightarrow> string \<Rightarrow> int \<Rightarrow> int \<times> string \<Rightarrow> SecretModel" where
  "finding c fileLocation lineNo m =
     (case m of (patternIdx, hit) \<Rightarrow>
        (let known = 0 \<le> patternIdx \<and> patternIdx < int (length (C_Patterns c));
             p = C_Patterns c ! nat patternIdx;
             value = ExtractSecret hit
         in zero_secret\<lparr>SM_Type := (if known then PI_Name p else ''unattributed''),
              LineNo := lineNo, FileLocation := fileLocation,
              SecretType := (if known then PI_Name p else ''unattributed''),
              SecretString := (if trimSpace value = [] then hit else value),
              SecretConfidence := (if known then PI_Confidence p else ''low''),
              MASVSID := (if known then PI_MASVS p else [])\<rparr>))"

text \<open>The matches of a line with their owners: those of the union, or of every pattern when there is no union.\<close>

definition valid_loc :: "int list \<Rightarrow> bool" where
  "valid_loc loc \<longleftrightarrow> \<not> (length loc < 2 \<or> loc ! 0 < 0 \<or> loc ! 1 < loc ! 0)"

definition line_matches :: "PatternCache \<Rightarrow> string \<Rightarrow> (int \<times> string) list" where
  "line_matches c content =
     (case Combined c of
        Some re \<Rightarrow>
          map (\<lambda>loc. (owner c loc, substr content (loc ! 0) (loc ! 1)))
            (filter valid_loc (FindAllStringSubmatchIndex re content))
      | None \<Rightarrow>
          concat (map (\<lambda>i. case Compiled (C_Patterns c ! i) of
              None \<Rightarrow> []
            | Some re \<Rightarrow> map (\<lambda>hit. (int i, hit)) (FindAllString re content)) [0..<length (C_Patterns c)]))"

definition FindingsForLine :: "PatternCache \<Rightarrow> string \<Rightarrow> int \<Rightarrow> string \<Rightarrow> SecretModel list" where
  "FindingsForLine c fileLocation lineNo content =
     (let out = map (finding c fileLocation lineNo) (line_matches c content) in
      if 0 < length out then out
      else out @ [finding c fileLocation lineNo (first_uncompiled c, content)])"

section \<open>The batch scan\<close>

record ScanOptions =
  Text :: bool
  ExtraExcludes :: "string list"
  MaxFileSizeMB :: int

definition binaryPassMaxFileSizeMB :: "(string \<Rightarrow> string) \<Rightarrow> int" where
  "binaryPassMaxFileSizeMB env =
     (let v = trimSpace (env ''MORF_BINARY_MAX_FILESIZE_MB'') in
      if v \<noteq> [] then (case atoi v of Some n \<Rightarrow> n | None \<Rightarrow> 50) else 50)"

definition buildRgArgs :: "string \<Rightarrow> string list \<Rightarrow> string list \<Rightarrow> ScanOptions \<Rightarrow> string list" where
  "buildRgArgs patternFilePath excludeGlobs existing opts =
     [''-n'', ''--file'', patternFilePath]
     @ (if Text opts
        then [''-a'', ''-o''] @ (if MaxFileSizeMB opts > 0 then [''--max-filesize'', show_int (MaxFileSizeMB opts) @ ''M''] else [])
        else [])
     @ excludeGlobs @ ExtraExcludes opts @ existing"

definition excludeGlobs :: "string list" where
  "excludeGlobs =
     [''-g'', ''!**/res/drawable*/**'', ''-g'', ''!**/res/mipmap*/**'', ''-g'', ''!**/res/color*/**'',
      ''-g'', ''!**/res/anim*/**'', ''-g'', ''!**/res/animator*/**'', ''-g'', ''!**/res/font*/**'']"

text \<open>
  One streamed line of \<^verbatim>\<open>file:lineno:content\<close>; a line without three parts or without a number is skipped.
\<close>

definition onLine :: "PatternCache \<Rightarrow> string \<Rightarrow> SecretModel list \<Rightarrow> go_error option \<times> SecretModel list" where
  "onLine c b secretModel =
     (None,
      (let line = trimSpace b in
       if line = [] then secretModel
       else (case str_splitN 3 line (CHR '':'') of
           [file, no, rest] \<Rightarrow>
             (case atoi no of
                None \<Rightarrow> secretModel
              | Some lineNumber \<Rightarrow> secretModel @ FindingsForLine c file lineNumber (trimSpace rest))
         | _ \<Rightarrow> secretModel)))"

text \<open>
  The host of a scan: which directories exist, the temporary file and its faults, and the \<^verbatim>\<open>rg\<close> process
  for an argument list.
\<close>

record scan_env =
  is_dir :: "string \<Rightarrow> bool"
  temp_file :: "go_error + string"
  temp_write_err :: "go_error option"
  temp_close_err :: "go_error option"
  rg :: "string list \<Rightarrow> child"

definition scanCorpusWithOpts ::
  "pattern_host \<Rightarrow> scan_env \<Rightarrow> disk \<Rightarrow> string list \<Rightarrow> string \<Rightarrow> ScanOptions \<Rightarrow> caches \<Rightarrow> (go_error + SecretModel list) \<times> caches" where
  "scanCorpusWithOpts H E d roots platform opts cs =
     (case GetPatternCache H d platform cs of
        (Inl e, cs') \<Rightarrow> (Inr [], cs')
      | (Inr c, cs') \<Rightarrow>
          (let existing = filter (is_dir E) roots in
           if existing = [] then (Inr [], cs')
           else case temp_file E of
             Inl e \<Rightarrow> (Inl (Errorf (''failed to create pattern file: '' @ err_msg e) [e]), cs')
           | Inr path \<Rightarrow>
               (case temp_write_err E of
                  Some e \<Rightarrow> (Inl (Errorf (''failed to write pattern file: '' @ err_msg e) [e]), cs')
                | None \<Rightarrow>
                    (case temp_close_err E of
                       Some e \<Rightarrow> (Inl (Errorf (''failed to close pattern file: '' @ err_msg e) [e]), cs')
                     | None \<Rightarrow>
                         (case RunWithContextStream ''rg'' (rg E (buildRgArgs path excludeGlobs existing opts)) (onLine c) [] of
                            (None, secretModel) \<Rightarrow> (Inr secretModel, cs')
                          | (Some e, secretModel) \<Rightarrow>
                              (let code = ExitCodeOf (Some e) in
                               if code = 1 then (Inr [], cs')
                               else (Inl (Errorf (''ripgrep failed (exit '' @ show_int code @ ''): '' @ err_msg e) [e]), cs')))))))"

definition ScanCorpus where
  "ScanCorpus H E d roots platform cs =
     scanCorpusWithOpts H E d roots platform \<lparr>Text = False, ExtraExcludes = [], MaxFileSizeMB = 0\<rparr> cs"

definition ScanCorpusText where
  "ScanCorpusText H E env d roots platform extraExcludes cs =
     scanCorpusWithOpts H E d roots platform
       \<lparr>Text = True, ExtraExcludes = extraExcludes, MaxFileSizeMB = binaryPassMaxFileSizeMB env\<rparr> cs"

section \<open>Clean-up\<close>

definition secret_key :: "SecretModel \<Rightarrow> string \<times> string" where
  "secret_key s = (SecretType s, SecretString s)"

fun sanitize_from :: "(string \<times> string) list \<Rightarrow> SecretModel list \<Rightarrow> SecretModel list" where
  "sanitize_from seen [] = []"
| "sanitize_from seen (s # ss) =
     (if secret_key s \<in> set seen then sanitize_from seen ss else s # sanitize_from (secret_key s # seen) ss)"

definition SanitizeSecrets :: "SecretModel list \<Rightarrow> SecretModel list" where
  "SanitizeSecrets scannerData = sanitize_from [] scannerData"

section \<open>Attribution is right\<close>

text \<open>The groups a pattern occupies in the union, and where its block starts.\<close>

definition block :: "PatternInfo \<Rightarrow> nat" where
  "block p = (case Compiled p of None \<Rightarrow> 0 | Some re \<Rightarrow> 1 + NumSubexp re)"

definition group_start :: "PatternInfo list \<Rightarrow> nat \<Rightarrow> nat" where
  "group_start ps i = 1 + sum_list (map block (take i ps))"

lemma combine_from_block:
  assumes "i < length ps" "k < block (ps ! i)"
  shows "sum_list (map block (take i ps)) + k < length (snd (combine_from n ps))
    \<and> snd (combine_from n ps) ! (sum_list (map block (take i ps)) + k) = n + int i"
  using assms
proof (induction n ps arbitrary: i rule: combine_from.induct)
  case (2 n p ps)
  have snd: "snd (combine_from n (p # ps)) = replicate (block p) n @ snd (combine_from (n + 1) ps)"
    by (auto simp: block_def split: option.split prod.split)
  show ?case
  proof (cases i)
    case 0
    with 2 snd show ?thesis by (simp add: nth_append)
  next
    case (Suc j)
    have "sum_list (map block (take j ps)) + k < length (snd (combine_from (n + 1) ps)) \<and>
        snd (combine_from (n + 1) ps) ! (sum_list (map block (take j ps)) + k) = n + 1 + int j"
      using 2 Suc by (cases "Compiled p") auto
    with Suc show ?thesis unfolding snd by (simp add: nth_append add.assoc)
  qed
qed simp

lemma union_groups:
  assumes "BuildCombinedRegex H ps = (Some re, gm)" "i < length ps" "k < block (ps ! i)"
  shows "group_start ps i + k < length gm \<and> gm ! (group_start ps i + k) = int i"
proof -
  obtain alts gs where c: "combine_from 0 ps = (alts, gs)" by (cases "combine_from 0 ps") auto
  with assms(1) have "gm = -1 # gs" by (auto simp: BuildCombinedRegex_def split: if_splits sum.splits)
  with combine_from_block [OF assms(2,3), of 0] c show ?thesis by (simp add: group_start_def)
qed

lemma built_parts:
  assumes "buildPatternCache H d es m pl = Inr c"
  shows "BuildCombinedRegex H (C_Patterns c) = (Combined c, GroupToPattern c)" "BuiltFrom c = m"
    "C_Patterns c = concat (map (\<lambda>(n, f). file_patterns H d pl n) es)"
  using assms by (auto simp: buildPatternCache_def Let_def split: if_splits prod.splits)

text \<open>
  Attribution: in a cache built from files, a match whose participating groups all lie in the block of one
  pattern (its wrapping group and its own groups) is attributed to that pattern.
\<close>

theorem attribution:
  assumes "buildPatternCache H d es m pl = Inr c" "Combined c = Some re" "i < length (C_Patterns c)"
    "\<And>g. 1 \<le> g \<Longrightarrow> g < length loc div 2 \<Longrightarrow> 0 \<le> loc ! (2 * g) \<Longrightarrow>
       group_start (C_Patterns c) i \<le> g \<and> g < group_start (C_Patterns c) i + block (C_Patterns c ! i)"
    "1 \<le> g0" "g0 < length loc div 2" "0 \<le> loc ! (2 * g0)"
  shows "owner c loc = int i"
proof -
  let ?ok = "\<lambda>g. \<not> loc ! (2 * g) < 0 \<and> g < length (GroupToPattern c) \<and>
    0 \<le> GroupToPattern c ! g \<and> GroupToPattern c ! g < int (length (C_Patterns c))"
  have union: "BuildCombinedRegex H (C_Patterns c) = (Some re, GroupToPattern c)"
    using built_parts(1) [OF assms(1)] assms(2) by simp
  have own: "g < length (GroupToPattern c) \<and> GroupToPattern c ! g = int i"
    if "1 \<le> g" "g < length loc div 2" "0 \<le> loc ! (2 * g)" for g
  proof -
    from assms(4) [OF that] obtain k where "g = group_start (C_Patterns c) i + k" "k < block (C_Patterns c ! i)"
      by (metis add_less_cancel_left le_Suc_ex)
    with union_groups [OF union assms(3)] show ?thesis by simp
  qed
  have "?ok g0" using own [OF assms(5-7)] assms(3,7) by simp
  then have "find ?ok [1..<length loc div 2] \<noteq> None"
    using assms(5,6) by (auto simp: find_None_iff)
  then obtain g where g: "find ?ok [1..<length loc div 2] = Some g" by auto
  then have "g \<in> set [1..<length loc div 2]" "?ok g" by (auto simp: find_Some_iff)
  with own [of g] g show ?thesis by (simp add: owner_def)
qed

section \<open>Findings of a line\<close>

lemma sublist_substr: "sublist (substr s a b) s"
  by (simp add: substr_def sublist_take sublist_drop sublist_order.order.trans [OF sublist_take sublist_drop])

lemma str_splitN_sublist: "p \<in> set (str_splitN n s c) \<Longrightarrow> sublist p s"
proof (induction n s c arbitrary: p rule: str_splitN.induct)
  case (3 n s c)
  show ?case
  proof (cases "dropWhile (\<lambda>x. x \<noteq> c) s")
    case Nil
    with 3 show ?thesis by simp
  next
    case (Cons x rest)
    have "sublist rest s"
      by (metis Cons sublist_Cons_right sublist_order.order.refl sublist_order.order.trans suffix_dropWhile suffix_imp_sublist)
    with 3 Cons show ?thesis
      by (auto intro: sublist_order.order.trans)
  qed
qed simp_all

lemma extract_sublist: "sublist (ExtractSecret s) s"
proof -
  have trim: "sublist (trimSpace t) s" if "sublist t s" for t
    using trimSpace_sublist that by (rule sublist_order.order.trans)
  have "sublist v s" if "between_tags s = Some v" for v
    using that by (auto simp: between_tags_def Let_def split: option.splits if_splits
        intro!: trim sublist_order.order.trans [OF sublist_take sublist_drop])
  moreover have "sublist v s" if "between_quotes s = Some v" for v
    using that str_splitN_sublist [of _ 3 s "CHR 0x22"]
    by (auto simp: between_quotes_def split: list.splits if_splits)
  moreover have "sublist (after_colon s) s"
    by (auto simp: after_colon_def intro!: trim split: option.split)
  ultimately show ?thesis by (auto simp: ExtractSecret_def split: option.split)
qed

lemma finding_sel [simp]:
  "LineNo (finding c f n m) = n" "FileLocation (finding c f n m) = f" "Score (finding c f n m) = 0"
  by (simp_all add: finding_def zero_secret_def case_prod_beta Let_def)

lemma finding_value: "SecretString (finding c f n (i, hit)) = (if trimSpace (ExtractSecret hit) = [] then hit else ExtractSecret hit)"
  by (simp add: finding_def Let_def)

lemma line_match_sublist: "(i, hit) \<in> set (line_matches c content) \<Longrightarrow> sublist hit content"
  by (auto simp: line_matches_def FindAllString_def sublist_substr split: option.splits)

definition from_match :: "string \<Rightarrow> string \<Rightarrow> int \<Rightarrow> SecretModel \<Rightarrow> bool" where
  "from_match content f n s \<longleftrightarrow> LineNo s = n \<and> FileLocation s = f \<and> sublist (SecretString s) content"

lemma finding_from_match: "sublist hit content \<Longrightarrow> from_match content f n (finding c f n (i, hit))"
  using extract_sublist [of hit] by (auto simp: from_match_def finding_value intro: sublist_order.order.trans)

text \<open>
  A line that \<^verbatim>\<open>ripgrep\<close> reported yields one finding for every match on it and at least one in any case; each
  finding carries the line's file and number and a value that is a contiguous part of the line; and
  its value is blank only when the match itself is.
\<close>

theorem line_findings:
  "length (FindingsForLine c f n content) = max 1 (length (line_matches c content))
   \<and> list_all (from_match content f n) (FindingsForLine c f n content)
   \<and> list_all (\<lambda>(i, hit). trimSpace (SecretString (finding c f n (i, hit))) = [] \<longleftrightarrow>
         trimSpace (ExtractSecret hit) = [] \<and> trimSpace hit = []) (line_matches c content)"
proof -
  have "list_all (from_match content f n) (map (finding c f n) (line_matches c content))"
    using line_match_sublist by (fastforce simp: list_all_iff intro: finding_from_match)
  moreover have "from_match content f n (finding c f n (first_uncompiled c, content))"
    by (rule finding_from_match) simp
  moreover have "length (FindingsForLine c f n content) = max 1 (length (line_matches c content))"
    by (cases "line_matches c content") (simp_all add: FindingsForLine_def)
  ultimately show ?thesis
    by (auto simp: FindingsForLine_def Let_def finding_value list_all_iff)
qed

section \<open>Clean-up keeps first occurrences\<close>

lemma sanitize_from_find:
  "find (\<lambda>s. secret_key s = k) (sanitize_from seen ss) = (if k \<in> set seen then None else find (\<lambda>s. secret_key s = k) ss)"
  by (induction ss arbitrary: seen) auto

lemma sanitize_from_subseq: "subseq (sanitize_from seen ss) ss"
  by (induction ss arbitrary: seen) (auto intro: subseq_Cons')

lemma sanitize_from_distinct:
  "distinct (map secret_key (sanitize_from seen ss)) \<and> secret_key ` set (sanitize_from seen ss) = secret_key ` set ss - set seen"
  by (induction ss arbitrary: seen) (auto simp: insert_absorb)

lemma sanitize_from_id:
  "distinct (map secret_key ss) \<Longrightarrow> secret_key ` set ss \<inter> set seen = {} \<Longrightarrow> sanitize_from seen ss = ss"
  by (induction ss arbitrary: seen) auto

text \<open>
  \<^verbatim>\<open>SanitizeSecrets\<close> keeps, in order, the first finding of every pair of type and value and nothing else;
  doing it twice changes nothing.
\<close>

theorem sanitize_first:
  "find (\<lambda>s. secret_key s = k) (SanitizeSecrets ss) = find (\<lambda>s. secret_key s = k) ss
   \<and> distinct (map secret_key (SanitizeSecrets ss)) \<and> secret_key ` set (SanitizeSecrets ss) = secret_key ` set ss
   \<and> subseq (SanitizeSecrets ss) ss \<and> SanitizeSecrets (SanitizeSecrets ss) = SanitizeSecrets ss"
  using sanitize_from_find [of k "[]" ss] sanitize_from_distinct [of "[]" ss] sanitize_from_subseq [of "[]" ss]
  by (simp add: SanitizeSecrets_def sanitize_from_id)

section \<open>A scan is complete or fails\<close>

lemma onLine_ok: "fst (onLine c b ss) = None"
  by (simp add: onLine_def)

definition line_result :: "PatternCache \<Rightarrow> string \<Rightarrow> SecretModel list" where
  "line_result c l = snd (onLine c (take maxLineBytes l) [])"

lemma onLine_append: "snd (onLine c b ss) = ss @ snd (onLine c b [])"
  by (simp add: onLine_def Let_def split: list.split option.split)

lemma deliver_onLine: "deliver (onLine c) ls ss = ss @ concat (map (line_result c) ls)"
proof (induction ls arbitrary: ss)
  case (Cons l ls)
  show ?case
  proof (cases "take maxLineBytes l = []")
    case True
    then have "deliver (onLine c) (l # ls) ss = deliver (onLine c) ls ss" by (simp add: deliver_def)
    moreover have "line_result c l = []" unfolding line_result_def True by (simp add: onLine_def)
    ultimately show ?thesis using Cons by simp
  next
    case False
    then have "deliver (onLine c) (l # ls) ss = deliver (onLine c) ls (snd (onLine c (take maxLineBytes l) ss))"
      by (simp add: deliver_def)
    with Cons onLine_append [of c "take maxLineBytes l" ss] show ?thesis by (simp add: line_result_def)
  qed
qed (simp add: deliver_def)

text \<open>The \<^verbatim>\<open>rg\<close> process of a scan.\<close>

definition rg_run :: "scan_env \<Rightarrow> string \<Rightarrow> string list \<Rightarrow> ScanOptions \<Rightarrow> child" where
  "rg_run E path roots opts = rg E (buildRgArgs path excludeGlobs (filter (is_dir E) roots) opts)"


section \<open>The cache and edits of the patterns directory\<close>

lemma newest_le:
  "foldl (\<lambda>m (n, f). if pf_mtime f > m then pf_mtime f else m) a es \<le> b \<longleftrightarrow> a \<le> b \<and> (\<forall>(n, f)\<in>set es. pf_mtime f \<le> b)"
proof (induction es arbitrary: a)
  case (Cons e es)
  obtain n f where e: "e = (n, f)" by (cases e)
  show ?case
    using Cons.IH [of "if pf_mtime f > a then pf_mtime f else a"] by (simp add: e) linarith
qed simp

lemma max_mod_mono:
  assumes "set es \<subseteq> set es'"
  shows "max_mod es \<le> max_mod es'"
proof -
  have "zero_time_ns \<le> max_mod es' \<and> (\<forall>(n, f)\<in>set es'. pf_mtime f \<le> max_mod es')"
    unfolding max_mod_def using newest_le [of zero_time_ns es'] by blast
  with assms have "zero_time_ns \<le> max_mod es' \<and> (\<forall>(n, f)\<in>set es. pf_mtime f \<le> max_mod es')" by blast
  then show ?thesis unfolding max_mod_def [of es] newest_le .
qed

lemma ReadDir_mono: "set d' \<subseteq> set d \<Longrightarrow> set (ReadDir H d' dir) \<subseteq> set (ReadDir H d dir)"
  unfolding ReadDir_def List.map_filter_def set_sort set_map set_filter by (rule image_mono) blast

lemma cache_not_older:
  assumes "GetPatternCache H d pl cs = (Inr c, cs')"
  shows "max_mod (ReadDir H d (GetPatternsDir H)) \<le> BuiltFrom c \<and> cs' (normalizePlatform pl) = Some c"
proof (cases "\<exists>c0. cs (normalizePlatform pl) = Some c0 \<and> max_mod (ReadDir H d (GetPatternsDir H)) \<le> BuiltFrom c0")
  case True
  then show ?thesis using assms by (auto simp: GetPatternCache_def Let_def)
next
  case False
  then have "(case cs (normalizePlatform pl) of Some c \<Rightarrow>
      if max_mod (ReadDir H d (GetPatternsDir H)) \<le> BuiltFrom c then Some c else None | None \<Rightarrow> None) = None"
    by (auto split: option.split)
  then have "buildPatternCache H d (ReadDir H d (GetPatternsDir H)) (max_mod (ReadDir H d (GetPatternsDir H))) (normalizePlatform pl) = Inr c"
    "cs' = cs(normalizePlatform pl \<mapsto> c)"
    using assms by (auto simp: GetPatternCache_def Let_def split: sum.splits)
  then show ?thesis using built_parts(2) by fastforce
qed

lemma cache_served:
  assumes "cs (normalizePlatform pl) = Some c" "max_mod (ReadDir H d (GetPatternsDir H)) \<le> BuiltFrom c"
  shows "GetPatternCache H d pl cs = (Inr c, cs)"
  using assms by (simp add: GetPatternCache_def Let_def)

text \<open>
  A deleted pattern file keeps being scanned for: the cache is rebuilt only when some file is newer than it, and a deletion
  makes no file newer, so the next scan gets the same cache, with the patterns of the deleted file.
\<close>

theorem deleted_patterns_still_scan:
  assumes "GetPatternCache H d pl cs = (Inr c, cs')" "DeletePatternFile H f d = (Inr (), d')"
  shows "GetPatternCache H d' pl cs' = (Inr c, cs')"
proof -
  have "set d' \<subseteq> set d"
    using assms(2) by (auto simp: DeletePatternFile_def AList.delete_eq split: sum.splits option.splits if_splits)
  then have "set (ReadDir H d' (GetPatternsDir H)) \<subseteq> set (ReadDir H d (GetPatternsDir H))"
    by (rule ReadDir_mono)
  from max_mod_mono [OF this] cache_not_older [OF assms(1)] show ?thesis
    by (intro cache_served) auto
qed

lemma normalize_nil [simp]: "normalizePlatform [] = ''any''"
  by (simp add: normalizePlatform_def)

text \<open>
  Editing loses the platform of a file: once a pattern has been switched on through the API, it applies to every
  platform, whatever platform the file declared before, unless the file name itself names one.
\<close>

theorem edit_loses_scope:
  assumes "yaml_v2 H" "read_fault H = Map.empty" "isAbs (GetPatternsDir H)" "isAbs (cwd H)" "path_base f = f"
    "hasSuffix f ''.yaml''" "filePlatform f [] = ''any''"
    "fst (EnableDisablePattern H R f n True d p w) = Inr (Inr (), d', p')"
  shows "\<exists>q\<in>set (file_patterns H d' pl f). PI_Name q = n \<and> PI_Platform q = ''any''"
proof -
  obtain qs qs' where change: "change_first n (\<lambda>q. q\<lparr>P_Enabled := True\<rparr>) qs = Inr qs'" and sv: "saved H f qs' d d'"
    using edit_cases [OF assms(8) [unfolded EnableDisablePattern_def]] by blast
  obtain as x bs where qs': "qs' = as @ x\<lparr>P_Enabled := True\<rparr> # bs" and x: "P_Name x = n"
    by (rule change_firstE [OF change]) auto
  have root: "patterns_root H = GetPatternsDir H" using assms(3) by (simp add: patterns_root_def)
  obtain full t where full: "resolvePatternPath H f = Inr full" and t: "yaml_marshal H qs' = Inr t"
    and d': "map_of d' = (map_of d)(os_path H full \<mapsto> \<lparr>pf_mtime = write_time H, pf_data = t\<rparr>)"
    using sv by (auto simp: saved_def)
  have plain: "plain_elem f" "f \<noteq> ''..''" and "full = child (GetPatternsDir H) f"
    using resolve_iff [OF assms(4), of f full] full root assms(5) by (auto simp: yaml_name_def)
  then have "readPatternFile H d' (path_join [GetPatternsDir H, f]) = t"
    using assms(2) d' path_join_child(1) [OF assms(3) plain] by (simp add: readPatternFile_def ReadFile_def)
  then have "file_patterns H d' pl f = map (to_info H ''any'' []) (filter (\<lambda>q. y_enabled q \<noteq> Some False) (map scanned_pattern qs'))"
    using assms(6,7) yaml_v2.scan_marshal [OF assms(1) t] by (simp add: file_patterns_def patternApplies_def)
  moreover have "scanned_pattern (x\<lparr>P_Enabled := True\<rparr>) \<in> set (filter (\<lambda>q. y_enabled q \<noteq> Some False) (map scanned_pattern qs'))"
    by (simp add: qs' scanned_pattern_def)
  ultimately have "to_info H ''any'' [] (scanned_pattern (x\<lparr>P_Enabled := True\<rparr>)) \<in> set (file_patterns H d' pl f)"
    by simp
  then show ?thesis
    by (rule rev_bexI) (simp add: x to_info_def scanned_pattern_def)
qed

section \<open>Instances\<close>

text \<open>The cache built from the sample directory: one pattern, whose union has one group.\<close>

definition sample_info :: PatternInfo where
  "sample_info = \<lparr>PI_Name = ''a'', PI_Regex = ''AKIA'', PI_Confidence = ''high'', PI_Platform = ''any'', PI_MASVS = [],
     Compiled = Some (literal_re ''AKIA'')\<rparr>"

definition sample_cache :: PatternCache where
  "sample_cache = \<lparr>C_Patterns = [sample_info], Combined = Some (literal_re ''(AKIA)''), GroupToPattern = [-1, 0],
     PatternsTxt = ''AKIA'' @ [CHR 0x0A], BuiltFrom = 1\<rparr>"

lemma sample_dir: "GetPatternsDir json_host = ''/app/patterns''" "path_join [''/app/patterns'', ''keys.yaml''] = ''/app/patterns/keys.yaml''"
  by (simp_all add: GetPatternsDir_def json_host_def path_join_def path_clean_def clean_elems_def isAbs_def)

lemma sample_file_patterns: "filePlatform ''keys.yaml'' [] = ''any'' \<Longrightarrow> file_patterns json_host sample_disk pl ''keys.yaml'' = [sample_info]"
  using json_scan_patterns [of "[sample_pattern ''a'']"]
  by (simp add: file_patterns_def sample_dir readPatternFile_def ReadFile_def sample_path sample_disk_def hasSuffix_def patternApplies_def)
    (simp add: to_info_def scanned_pattern_def sample_pattern_def sample_info_def)

lemma sample_platform: "filePlatform ''keys.yaml'' [] = ''any''"
  by (simp add: filePlatform_def lower_char_def)

lemma sample_built: "buildPatternCache json_host sample_disk [(''keys.yaml'', f)] 1 pl = Inr sample_cache"
  by (simp add: buildPatternCache_def sample_file_patterns [OF sample_platform] BuildCombinedRegex_def)
    (simp add: sample_info_def sample_cache_def literal_re_def)

theorem attribution_witness: "owner sample_cache [0, 6, 0, 6] = 0"
proof -
  have "group_start [sample_info] 0 = 1" "block sample_info = 1"
    by (simp_all add: group_start_def block_def sample_info_def literal_re_def)
  then show ?thesis
    using attribution [OF sample_built, of "literal_re ''(AKIA)''" 0 "[0, 6, 0, 6]" 1]
    by (simp add: sample_cache_def)
qed

lemma sample_listing: "ReadDir json_host sample_disk ''/app/patterns'' = [(''keys.yaml'', \<lparr>pf_mtime = 1, pf_data = marshal (json_patterns [sample_pattern ''a''])\<rparr>)]"
  by (simp add: ReadDir_def sample_disk_def List.map_filter_def dir_entry_def os_path_def path_clean_def clean_elems_def isAbs_def)

lemma sample_get: "GetPatternCache json_host sample_disk ''ios'' Map.empty = (Inr sample_cache, [normalizePlatform ''ios'' \<mapsto> sample_cache])"
  by (simp add: GetPatternCache_def Let_def sample_dir sample_listing max_mod_def zero_time_ns_def sample_built)

theorem deleted_patterns_still_scan_witness:
  "DeletePatternFile json_host ''keys.yaml'' sample_disk = (Inr (), []) \<and>
   GetPatternCache json_host [] ''ios'' [normalizePlatform ''ios'' \<mapsto> sample_cache] = (Inr sample_cache, [normalizePlatform ''ios'' \<mapsto> sample_cache])"
proof -
  have "DeletePatternFile json_host ''keys.yaml'' sample_disk = (Inr (), [])"
    by (simp add: DeletePatternFile_def sample_resolve sample_path sample_disk_def)
  with deleted_patterns_still_scan [OF sample_get this] show ?thesis by simp
qed

definition sample_scan :: scan_env where
  "sample_scan = \<lparr>is_dir = (\<lambda>r. r = ''/src''), temp_file = Inr ''/tmp/p.txt'', temp_write_err = None, temp_close_err = None,
     rg = (\<lambda>args. \<lparr>pipe_err = None, start_err = None, readings = [(''f:7:(AKIA)'', False, None), ([], False, Some EOF)],
       stdout = [], stderr = [], wait_err = None, ctx_err = None\<rparr>)\<rparr>"


theorem edit_loses_scope_witness:
  "\<exists>d' p'. fst (EnableDisablePattern json_host (mem_redis [] []) ''keys.yaml'' ''a'' True sample_disk sample_pod empty_world) = Inr (Inr (), d', p')
     \<and> (\<exists>q\<in>set (file_patterns json_host d' ''android'' ''keys.yaml''). PI_Name q = ''a'' \<and> PI_Platform q = ''any'')"
proof -
  let ?e = "EnableDisablePattern json_host (mem_redis [] []) ''keys.yaml'' ''a'' True sample_disk sample_pod empty_world"
  have "\<exists>d' p'. fst ?e = Inr (Inr (), d', p')"
    by (simp add: EnableDisablePattern_def edit_file_def sample_resolve sample_load SavePatternsToFile_def op_bind_def op_try_def op_ret_def case_prod_beta)
      (simp add: sample_pattern_def op_bind_def op_try_def op_ret_def case_prod_beta)
  then obtain d' p' where e: "fst ?e = Inr (Inr (), d', p')" by blast
  have "path_base ''keys.yaml'' = ''keys.yaml''" by (simp add: path_base_def strip_slashes_def)
  with edit_loses_scope [OF json_yaml.yaml_v2_axioms _ _ _ _ _ sample_platform e, of "''android''"] e show ?thesis
    by (auto simp: sample_dir isAbs_def hasSuffix_def) (simp add: json_host_def isAbs_def)
qed

end
