(* ===== verification/Http.thy ===== *)
theory Http
  imports Json
begin

text \<open>
  What the handlers see of an HTTP request and of the context gin carries along the chain of handlers:
  the request line, headers, query and form values, and the values earlier handlers left under
  \<^verbatim>\<open>c.Set\<close>.  A middleware either hands the request on (\<^verbatim>\<open>c.Next\<close>) or answers it and stops the chain
  (\<^verbatim>\<open>c.JSON\<close> and \<^verbatim>\<open>c.Abort\<close>).
\<close>

datatype scopes_value =
    JSONStringArray "string list"
  | StringSlice "string list"
  | ScopeText string
  | OtherValue

record request =
  Method :: string
  FullPath :: string
  req_header :: "string \<Rightarrow> string"
  req_query :: "string \<rightharpoonup> string"
  ClientIP :: string
  ContentLength :: int

record ctx = request +
  api_key_id :: "nat option"
  api_key_name :: "string option"
  ctx_scopes :: "scopes_value option"
  rate_limit :: "int option"

definition Query :: "'a request_scheme \<Rightarrow> string \<Rightarrow> string" where
  "Query c k = (case req_query c k of None \<Rightarrow> [] | Some v \<Rightarrow> v)"

definition DefaultQuery :: "'a request_scheme \<Rightarrow> string \<Rightarrow> string \<Rightarrow> string" where
  "DefaultQuery c k d = (case req_query c k of None \<Rightarrow> d | Some v \<Rightarrow> v)"

datatype response = Response (status: nat) (body: json)

datatype verdict = Next ctx | Abort response

definition error_body :: "string \<Rightarrow> json" where
  "error_body msg = JObj [(''error'', JStr msg)]"

abbreviation StatusOK :: nat where "StatusOK \<equiv> 200"

abbreviation StatusCreated :: nat where "StatusCreated \<equiv> 201"

abbreviation StatusAccepted :: nat where "StatusAccepted \<equiv> 202"

abbreviation StatusBadRequest :: nat where "StatusBadRequest \<equiv> 400"

abbreviation StatusUnauthorized :: nat where "StatusUnauthorized \<equiv> 401"

abbreviation StatusForbidden :: nat where "StatusForbidden \<equiv> 403"

abbreviation StatusNotFound :: nat where "StatusNotFound \<equiv> 404"

abbreviation StatusRequestEntityTooLarge :: nat where "StatusRequestEntityTooLarge \<equiv> 413"

abbreviation StatusTooManyRequests :: nat where "StatusTooManyRequests \<equiv> 429"

abbreviation StatusInternalServerError :: nat where "StatusInternalServerError \<equiv> 500"

abbreviation StatusServiceUnavailable :: nat where "StatusServiceUnavailable \<equiv> 503"

end
