(* ===== verification/Auth.thy ===== *)
theory Auth
  imports Http Go_Crypto
begin

text \<open>
  API keys (models/APIKey.go) and the authentication middleware of auth/middleware.go: the validation of
  a key through a cache with a time to live, the buffered record of the last use, the routes that are
  always authenticated, and the scopes.  The table of keys is a database behind an ORM and enters as a
  parameter; \<open>clk n\<close> is the \<open>n\<close>-th reading of the clock a request makes.
\<close>

section \<open>Keys\<close>

record APIKey =
  Key_ID :: nat
  Key :: string
  Key_Name :: string
  Scopes :: "string list"
  RateLimit :: int
  ExpiresAt :: "int option"
  LastUsed :: "int option"
  IsActive :: bool

definition IsExpired :: "int \<Rightarrow> APIKey \<Rightarrow> bool" where
  "IsExpired now k = (case ExpiresAt k of None \<Rightarrow> False | Some t \<Rightarrow> t < now)"

definition IsValid :: "int \<Rightarrow> APIKey \<Rightarrow> bool" where
  "IsValid now k \<longleftrightarrow> IsActive k \<and> \<not> IsExpired now k"

definition hashAPIKey :: "string \<Rightarrow> string" where
  "hashAPIKey key = hex_encode (sha256 (to_bytes key))"

text \<open>
  \<open>rnd\<close> is what \<^verbatim>\<open>crypto/rand\<close> delivered, or nothing when it failed; then the bytes come from the clock,
  read once for each of them.
\<close>

definition generateRandomKey :: "bytes option \<Rightarrow> (nat \<Rightarrow> int) \<Rightarrow> string" where
  "generateRandomKey rnd nanos =
     (let b = (case rnd of Some r \<Rightarrow> r | None \<Rightarrow> map (\<lambda>i. word_of_int (nanos i mod 256)) [0..<32])
      in hex_encode (sha256 b))"

definition GenerateAPIKey :: "bytes option \<Rightarrow> (nat \<Rightarrow> int) \<Rightarrow> string \<times> string" where
  "GenerateAPIKey rnd nanos = (let plainKey = generateRandomKey rnd nanos in (plainKey, hashAPIKey plainKey))"

section \<open>The state of the middleware\<close>

record 'db key_table =
  First :: "'db \<Rightarrow> string \<Rightarrow> go_error + APIKey"
  UpdateLastUsed :: "nat \<Rightarrow> int \<Rightarrow> 'db \<Rightarrow> go_error option \<times> 'db"

record cachedAPIKey =
  cached_key :: APIKey
  expiresAt :: int

record keyUsage =
  lastSeen :: int
  use_count :: int

record 'db auth =
  gormDB :: "'db option"
  apiKeyCacheTTL :: int
  apiKeyCache :: "string \<rightharpoonup> cachedAPIKey"
  pendingUsage :: "nat \<rightharpoonup> keyUsage"
  flusherStarted :: bool
  usageFlushInterval :: int

definition defaultAPIKeyCacheTTL :: int where
  "defaultAPIKeyCacheTTL = 60 * 10 ^ 9"

definition defaultUsageFlushInterval :: int where
  "defaultUsageFlushInterval = 30 * 10 ^ 9"

definition auth_init :: "'db option \<Rightarrow> 'db auth" where
  "auth_init d =
     \<lparr>gormDB = d, apiKeyCacheTTL = defaultAPIKeyCacheTTL, apiKeyCache = Map.empty, pendingUsage = Map.empty,
      flusherStarted = False, usageFlushInterval = defaultUsageFlushInterval\<rparr>"

definition SetAPIKeyCacheTTL :: "int \<Rightarrow> 'db auth \<Rightarrow> 'db auth" where
  "SetAPIKeyCacheTTL ttl s = s\<lparr>apiKeyCacheTTL := ttl\<rparr>"

definition SetUsageFlushInterval :: "int \<Rightarrow> 'db auth \<Rightarrow> 'db auth" where
  "SetUsageFlushInterval d s = (if d > 0 then s\<lparr>usageFlushInterval := d\<rparr> else s)"

definition InvalidateAPIKeyCache :: "string \<Rightarrow> 'db auth \<Rightarrow> 'db auth" where
  "InvalidateAPIKeyCache apiKey s = s\<lparr>apiKeyCache := (apiKeyCache s)(hashAPIKey apiKey := None)\<rparr>"

section \<open>Validation\<close>

definition ErrRecordNotFound :: go_error where
  "ErrRecordNotFound = Sentinel ''record not found''"

definition ValidateAPIKey :: "'db key_table \<Rightarrow> string \<Rightarrow> 'db option \<Rightarrow> go_error + APIKey" where
  "ValidateAPIKey T apiKey db =
     (case db of None \<Rightarrow> Inl ErrRecordNotFound | Some d \<Rightarrow> First T d (hashAPIKey apiKey))"

text \<open>The two accesses of \<^verbatim>\<open>validateAPIKeyCached\<close> to the cache, before and after it asks the database.\<close>

definition cache_load :: "int \<Rightarrow> string \<Rightarrow> (string \<rightharpoonup> cachedAPIKey) \<Rightarrow> APIKey option \<times> (string \<rightharpoonup> cachedAPIKey)" where
  "cache_load now hashed c =
     (case c hashed of
        None \<Rightarrow> (None, c)
      | Some entry \<Rightarrow> if now < expiresAt entry then (Some (cached_key entry), c) else (None, c(hashed := None)))"

definition cache_store :: "int \<Rightarrow> int \<Rightarrow> string \<Rightarrow> APIKey \<Rightarrow> (string \<rightharpoonup> cachedAPIKey) \<Rightarrow> (string \<rightharpoonup> cachedAPIKey)" where
  "cache_store now ttl hashed key c = c(hashed \<mapsto> \<lparr>cached_key = key, expiresAt = now + ttl\<rparr>)"

definition validateAPIKeyCached ::
  "'db key_table \<Rightarrow> (nat \<Rightarrow> int) \<Rightarrow> string \<Rightarrow> 'db auth \<Rightarrow> (go_error + APIKey) \<times> 'db auth" where
  "validateAPIKeyCached T clk apiKey s =
     (let ttl = apiKeyCacheTTL s;
          hashed = hashAPIKey apiKey;
          (hit, c) = (if ttl > 0 then cache_load (clk 0) hashed (apiKeyCache s) else (None, apiKeyCache s));
          s1 = s\<lparr>apiKeyCache := c\<rparr>
      in case hit of
           Some key \<Rightarrow> (Inr key, s1)
         | None \<Rightarrow>
             (case ValidateAPIKey T apiKey (gormDB s1) of
                Inl e \<Rightarrow> (Inl e, s1)
              | Inr key \<Rightarrow>
                  (Inr key,
                   if ttl > 0 then s1\<lparr>apiKeyCache := cache_store (clk 1) ttl hashed key (apiKeyCache s1)\<rparr> else s1)))"

section \<open>Use of a key\<close>

definition StartAPIKeyUsageFlusher :: "'db auth \<Rightarrow> 'db auth" where
  "StartAPIKeyUsageFlusher s = s\<lparr>flusherStarted := True\<rparr>"

definition recordKeyUsage :: "int \<Rightarrow> nat \<Rightarrow> 'db auth \<Rightarrow> 'db auth" where
  "recordKeyUsage now keyID s =
     (let u = (case pendingUsage s keyID of None \<Rightarrow> \<lparr>lastSeen = 0, use_count = 0\<rparr> | Some u \<Rightarrow> u);
          u' = u\<lparr>lastSeen := now, use_count := use_count u + 1\<rparr>
      in StartAPIKeyUsageFlusher (s\<lparr>pendingUsage := (pendingUsage s)(keyID \<mapsto> u')\<rparr>))"

text \<open>
  The pending map is swapped out first, and then written key by key in the order \<open>ord\<close> in which the
  runtime walks through it; an update that fails is logged and dropped.
\<close>

fun flush_each :: "'db key_table \<Rightarrow> (nat \<rightharpoonup> keyUsage) \<Rightarrow> nat list \<Rightarrow> 'db \<Rightarrow> 'db" where
  "flush_each T batch [] d = d"
| "flush_each T batch (keyID # ks) d =
     flush_each T batch ks (case batch keyID of None \<Rightarrow> d | Some u \<Rightarrow> snd (UpdateLastUsed T keyID (lastSeen u) d))"

definition flushPendingUsage :: "'db key_table \<Rightarrow> nat list \<Rightarrow> 'db auth \<Rightarrow> 'db auth" where
  "flushPendingUsage T ord s =
     (if pendingUsage s = Map.empty then s
      else (let batch = pendingUsage s; s1 = s\<lparr>pendingUsage := Map.empty\<rparr> in
            case gormDB s1 of None \<Rightarrow> s1 | Some d \<Rightarrow> s1\<lparr>gormDB := Some (flush_each T batch ord d)\<rparr>))"

section \<open>The middleware\<close>

definition APIKeyAuth :: "'db key_table \<Rightarrow> (nat \<Rightarrow> int) \<Rightarrow> ctx \<Rightarrow> 'db auth \<Rightarrow> verdict \<times> 'db auth" where
  "APIKeyAuth T clk c s =
     (let h = req_header c ''X-API-Key'';
          apiKey = (if h = [] then Query c ''api_key'' else h)
      in if apiKey = []
         then (Abort (Response StatusUnauthorized
                 (error_body ''API key required. Provide X-API-Key header or api_key query parameter'')), s)
         else case validateAPIKeyCached T clk apiKey s of
             (Inl _, s1) \<Rightarrow> (Abort (Response StatusUnauthorized (error_body ''Invalid API key'')), s1)
           | (Inr key, s1) \<Rightarrow>
               if \<not> IsValid (clk 2) key
               then (Abort (Response StatusUnauthorized (error_body ''API key is inactive or expired'')), s1)
               else (Next (c\<lparr>api_key_id := Some (Key_ID key), api_key_name := Some (Key_Name key),
                             ctx_scopes := Some (JSONStringArray (Scopes key)), rate_limit := Some (RateLimit key)\<rparr>),
                     recordKeyUsage (clk 3) (Key_ID key) s1))"

definition isSensitiveAPIPath :: "ctx \<Rightarrow> bool" where
  "isSensitiveAPIPath c \<longleftrightarrow>
     FullPath c = ''/api/jira'' \<or> FullPath c = ''/api/slackscan'' \<or>
     hasPrefix (FullPath c) ''/api/patterns'' \<and> Method c \<noteq> ''GET''"

definition isProtectedDataPath :: "ctx \<Rightarrow> bool" where
  "isProtectedDataPath c \<longleftrightarrow>
     (let p = FullPath c in
      hasPrefix p ''/api/results'' \<or> hasPrefix p ''/api/secrets'' \<or> hasPrefix p ''/api/compare'')"

definition APIKeyAuthSelective ::
  "'db key_table \<Rightarrow> (nat \<Rightarrow> int) \<Rightarrow> bool \<Rightarrow> ctx \<Rightarrow> 'db auth \<Rightarrow> verdict \<times> 'db auth" where
  "APIKeyAuthSelective T clk enforceAll c s =
     (if enforceAll \<or> isSensitiveAPIPath c \<or> isProtectedDataPath c then APIKeyAuth T clk c s else (Next c, s))"

definition normalizeScopes :: "scopes_value \<Rightarrow> string list" where
  "normalizeScopes raw =
     (case raw of
        JSONStringArray v \<Rightarrow> v
      | StringSlice v \<Rightarrow> v
      | ScopeText v \<Rightarrow> if v = [] then [] else filter (\<lambda>p. p \<noteq> []) (map trimSpace (str_split v (CHR '','')))
      | OtherValue \<Rightarrow> [])"

definition RequireScope :: "string \<Rightarrow> ctx \<Rightarrow> verdict" where
  "RequireScope scope c =
     (if scope = [] then Next c
      else case ctx_scopes c of
        None \<Rightarrow> Abort (Response StatusUnauthorized (error_body ''API key required''))
      | Some raw \<Rightarrow>
          if list_ex (\<lambda>s. s = ''*'' \<or> s = scope) (normalizeScopes raw) then Next c
          else Abort (Response StatusForbidden (error_body (''API key missing required scope: '' @ scope))))"

definition RequireScopeForSensitive :: "string \<Rightarrow> ctx \<Rightarrow> verdict" where
  "RequireScopeForSensitive scope c = (if isSensitiveAPIPath c then RequireScope scope c else Next c)"

section \<open>Concurrent requests\<close>

text \<open>
  The requests that validate keys run concurrently, and the database changes under them.  A request
  either finds a fresh entry in the cache, or reads the database and later stores what it read; between
  the two other requests run, entries are evicted (by \<^verbatim>\<open>InvalidateAPIKeyCache\<close> or because they expired)
  and rows are updated.  \<open>P\<close> restricts the states the database passes through.  The trace records, for
  every validation that succeeded, when it did, the hash presented and the key it returned.
\<close>

record 'db gateway =
  at_time :: int
  gate :: "'db auth"
  in_flight :: "(string \<times> APIKey) list"

type_synonym validation = "int \<times> string \<times> APIKey"

inductive gateway_run ::
  "'db key_table \<Rightarrow> ('db \<Rightarrow> bool) \<Rightarrow> 'db gateway \<Rightarrow> validation list \<Rightarrow> 'db gateway \<Rightarrow> bool"
  for T P g where
  start: "gateway_run T P g [] g"
| tick: "gateway_run T P g tr g' \<Longrightarrow> at_time g' \<le> t \<Longrightarrow> gateway_run T P g tr (g'\<lparr>at_time := t\<rparr>)"
| change: "gateway_run T P g tr g' \<Longrightarrow> P d \<Longrightarrow> gateway_run T P g tr (g'\<lparr>gate := (gate g')\<lparr>gormDB := Some d\<rparr>\<rparr>)"
| evict: "gateway_run T P g tr g' \<Longrightarrow>
    gateway_run T P g tr (g'\<lparr>gate := (gate g')\<lparr>apiKeyCache := (apiKeyCache (gate g'))(h := None)\<rparr>\<rparr>)"
| hit: "gateway_run T P g tr g' \<Longrightarrow> 0 < apiKeyCacheTTL (gate g') \<Longrightarrow>
    cache_load (at_time g') h (apiKeyCache (gate g')) = (Some k, c) \<Longrightarrow>
    gateway_run T P g (tr @ [(at_time g', h, k)]) g'"
| read: "gateway_run T P g tr g' \<Longrightarrow> gormDB (gate g') = Some d \<Longrightarrow> First T d h = Inr k \<Longrightarrow>
    gateway_run T P g tr (g'\<lparr>in_flight := (h, k) # in_flight g'\<rparr>)"
| store: "gateway_run T P g tr g' \<Longrightarrow> in_flight g' = xs @ (h, k) # ys \<Longrightarrow> 0 < apiKeyCacheTTL (gate g') \<Longrightarrow>
    gateway_run T P g (tr @ [(at_time g', h, k)])
      (g'\<lparr>gate := (gate g')\<lparr>apiKeyCache := cache_store (at_time g') (apiKeyCacheTTL (gate g')) h k (apiKeyCache (gate g'))\<rparr>,
          in_flight := xs @ ys\<rparr>)"
| pass: "gateway_run T P g tr g' \<Longrightarrow> in_flight g' = xs @ (h, k) # ys \<Longrightarrow> apiKeyCacheTTL (gate g') \<le> 0 \<Longrightarrow>
    gateway_run T P g (tr @ [(at_time g', h, k)]) (g'\<lparr>in_flight := xs @ ys\<rparr>)"

text \<open>
  One request that is not interleaved with others is such a run: the steps cover what
  \<^const>\<open>validateAPIKeyCached\<close> does.
\<close>

lemma validate_hit:
  assumes "validateAPIKeyCached T clk apiKey s = (Inr k, s')" "0 < apiKeyCacheTTL s"
    "cache_load (clk 0) (hashAPIKey apiKey) (apiKeyCache s) = (Some k', c)"
  shows "k' = k \<and> s' = s \<and> c = apiKeyCache s"
  using assms by (auto simp: validateAPIKeyCached_def Let_def cache_load_def split: option.splits if_splits)

lemma validate_miss:
  assumes "validateAPIKeyCached T clk apiKey s = (Inr k, s')"
    "0 < apiKeyCacheTTL s \<Longrightarrow> cache_load (clk 0) (hashAPIKey apiKey) (apiKeyCache s) = (None, c)"
  obtains d where "gormDB s = Some d" "First T d (hashAPIKey apiKey) = Inr k"
    "s' = (if 0 < apiKeyCacheTTL s
           then s\<lparr>apiKeyCache := cache_store (clk 1) (apiKeyCacheTTL s) (hashAPIKey apiKey) k c\<rparr> else s)"
  using assms
  by (cases "0 < apiKeyCacheTTL s")
     (auto simp: validateAPIKeyCached_def Let_def ValidateAPIKey_def split: option.splits sum.splits)

lemma cache_store_load:
  assumes "cache_load now h c = (r, c')"
  shows "cache_store t ttl h k c' = cache_store t ttl h k c"
  using assms by (auto simp: cache_load_def cache_store_def split: option.splits if_splits)

lemma validate_is_run:
  assumes "validateAPIKeyCached T (\<lambda>_. t) apiKey s = (Inr k, s')"
  shows "gateway_run T P \<lparr>at_time = t, gate = s, in_flight = []\<rparr> [(t, hashAPIKey apiKey, k)]
           \<lparr>at_time = t, gate = s', in_flight = []\<rparr>"
proof -
  let ?h = "hashAPIKey apiKey"
  let ?g = "\<lparr>at_time = t, gate = s, in_flight = []\<rparr>"
  note start = gateway_run.start [of T P ?g]
  obtain hit c where load: "cache_load t ?h (apiKeyCache s) = (hit, c)" by fastforce
  show ?thesis
  proof (cases "0 < apiKeyCacheTTL s \<and> hit \<noteq> None")
    case True
    then obtain k' where k': "hit = Some k'" by auto
    with validate_hit [OF assms] load True have "k' = k" "s' = s" by auto
    with gateway_run.hit [OF start, of ?h k c] True load k' show ?thesis by simp
  next
    case False
    with load have "0 < apiKeyCacheTTL s \<Longrightarrow> cache_load t ?h (apiKeyCache s) = (None, c)" by simp
    from validate_miss [OF assms this] obtain d where d: "gormDB s = Some d" "First T d ?h = Inr k"
      and s': "s' = (if 0 < apiKeyCacheTTL s then s\<lparr>apiKeyCache := cache_store t (apiKeyCacheTTL s) ?h k c\<rparr> else s)"
      by blast
    have run: "gateway_run T P ?g [] \<lparr>at_time = t, gate = s, in_flight = [(?h, k)]\<rparr>"
      using gateway_run.read [OF start] d by simp
    show ?thesis
    proof (cases "0 < apiKeyCacheTTL s")
      case True
      with gateway_run.store [OF run, of "[]" ?h k "[]"] s' cache_store_load [OF load] show ?thesis by simp
    next
      case False
      with gateway_run.pass [OF run, of "[]" ?h k "[]"] s' show ?thesis by simp
    qed
  qed
qed

section \<open>Revocation\<close>

text \<open>A key is revoked in a state of the database that does not return an active row for its hash.\<close>

definition revoked :: "'db key_table \<Rightarrow> string \<Rightarrow> 'db \<Rightarrow> bool" where
  "revoked T h d \<longleftrightarrow> (\<forall>k. First T d h = Inr k \<longrightarrow> \<not> IsActive k)"

definition cache_ages :: "'db gateway \<Rightarrow> bool" where
  "cache_ages g \<longleftrightarrow> (\<forall>h e. apiKeyCache (gate g) h = Some e \<longrightarrow> expiresAt e \<le> at_time g + apiKeyCacheTTL (gate g))"

definition window :: "string \<Rightarrow> int \<Rightarrow> 'db gateway \<Rightarrow> bool" where
  "window h limit g \<longleftrightarrow>
     (\<forall>e. apiKeyCache (gate g) h = Some e \<longrightarrow> IsActive (cached_key e) \<longrightarrow> expiresAt e \<le> limit) \<and>
     (\<forall>k. (h, k) \<in> set (in_flight g) \<longrightarrow> \<not> IsActive k)"

lemma cache_ages_run:
  assumes "gateway_run T P g tr g'" "cache_ages g"
  shows "cache_ages g'"
  using assms(1)
proof induction
  case start
  show ?case by (fact assms(2))
next
  case (tick tr g' t)
  then show ?case by (fastforce simp: cache_ages_def)
qed (auto simp: cache_ages_def cache_store_def)

lemma window_run:
  assumes "gateway_run T (revoked T h) g tr g'" "window h limit g" "\<forall>d. gormDB (gate g) = Some d \<longrightarrow> revoked T h d"
  shows "window h limit g' \<and> (\<forall>d. gormDB (gate g') = Some d \<longrightarrow> revoked T h d) \<and>
         (\<forall>t k. (t, h, k) \<in> set tr \<longrightarrow> limit \<le> t \<longrightarrow> \<not> IsActive k)"
  using assms(1)
proof induction
  case start
  show ?case using assms(2, 3) by simp
next
  case (hit tr g' h' k c)
  then obtain e where "apiKeyCache (gate g') h' = Some e" "at_time g' < expiresAt e" "cached_key e = k"
    by (auto simp: cache_load_def split: option.splits if_splits)
  then have "h' = h \<Longrightarrow> limit \<le> at_time g' \<Longrightarrow> \<not> IsActive k" using hit.IH by (fastforce simp: window_def)
  with hit.IH show ?case by simp
next
  case (read tr g' d h' k)
  then show ?case by (auto simp: window_def revoked_def)
next
  case (store tr g' xs h' k ys)
  have "window h limit g'" using store.IH by blast
  moreover have "(h', k) \<in> set (in_flight g')" unfolding store.hyps(2) by simp
  moreover from calculation have "h' = h \<Longrightarrow> \<not> IsActive k" unfolding window_def by blast
  ultimately show ?case using store.IH store.hyps(2) by (auto simp: window_def cache_store_def)
next
  case (pass tr g' xs h' k ys)
  have "window h limit g'" using pass.IH by blast
  moreover have "(h', k) \<in> set (in_flight g')" unfolding pass.hyps(2) by simp
  moreover from calculation have "h' = h \<Longrightarrow> \<not> IsActive k" unfolding window_def by blast
  ultimately show ?case using pass.IH pass.hyps(2) by (auto simp: window_def)
qed (simp_all add: window_def)


definition list_table :: "APIKey list key_table" where
  "list_table =
     \<lparr>First = (\<lambda>d h. case find (\<lambda>r. Key r = h) d of None \<Rightarrow> Inl ErrRecordNotFound | Some r \<Rightarrow> Inr r),
      UpdateLastUsed = (\<lambda>i t d. (None, map (\<lambda>r. if Key_ID r = i then r\<lparr>LastUsed := Some t\<rparr> else r) d))\<rparr>"

definition sample_key :: APIKey where
  "sample_key = \<lparr>Key_ID = 7, Key = ''h'', Key_Name = ''ci'', Scopes = [''scan:write''], RateLimit = 100,
     ExpiresAt = None, LastUsed = None, IsActive = True\<rparr>"

definition revoked_key :: APIKey where
  "revoked_key = sample_key\<lparr>IsActive := False\<rparr>"

definition sample_gateway :: "APIKey list gateway" where
  "sample_gateway = \<lparr>at_time = 0, gate = auth_init (Some [sample_key]), in_flight = []\<rparr>"

text \<open>
  The condition on requests in flight is needed.  A request that read the row before the
  revocation stores it after the eviction that \<^verbatim>\<open>InvalidateAPIKeyCache\<close> performs, and the key is accepted from
  the cache for a whole time to live after it was revoked and evicted.
\<close>

theorem revocation_race:
  "\<exists>before g after g'.
     gateway_run list_table (\<lambda>_. True) sample_gateway before g \<and>
     gormDB (gate g) = Some [revoked_key] \<and> apiKeyCache (gate g) ''h'' = None \<and>
     gateway_run list_table (revoked list_table ''h'') g after g' \<and>
     (at_time g + apiKeyCacheTTL (gate g) + 10 ^ 9, ''h'', sample_key) \<in> set after"
proof -
  let ?s = "auth_init (Some [sample_key])" and ?r = "auth_init (Some [revoked_key])"
  let ?g = "\<lparr>at_time = 0, gate = ?r, in_flight = [(''h'', sample_key)]\<rparr>"
  have "gateway_run list_table (\<lambda>_. True) sample_gateway [] \<lparr>at_time = 0, gate = ?s, in_flight = [(''h'', sample_key)]\<rparr>"
    using gateway_run.read [OF gateway_run.start [of list_table "\<lambda>_. True" sample_gateway], of "[sample_key]" "''h''" sample_key]
    by (simp add: sample_gateway_def auth_init_def list_table_def sample_key_def)
  from gateway_run.change [OF this, of "[revoked_key]"]
  have 1: "gateway_run list_table (\<lambda>_. True) sample_gateway [] ?g" by (simp add: auth_init_def)
  let ?l = "20 * 10 ^ 9 :: int" and ?e = "61 * 10 ^ 9 :: int"
  let ?c = "?r\<lparr>apiKeyCache := [''h'' \<mapsto> \<lparr>cached_key = sample_key, expiresAt = ?l + defaultAPIKeyCacheTTL\<rparr>]\<rparr>"
  let ?P = "revoked list_table ''h''"
  have "gateway_run list_table ?P ?g [] \<lparr>at_time = ?l, gate = ?r, in_flight = [(''h'', sample_key)]\<rparr>"
    using gateway_run.tick [OF gateway_run.start [of list_table ?P ?g], of ?l] by simp
  from gateway_run.store [OF this, of "[]" "''h''" sample_key "[]"]
  have "gateway_run list_table ?P ?g [(?l, ''h'', sample_key)] \<lparr>at_time = ?l, gate = ?c, in_flight = []\<rparr>"
    by (simp add: auth_init_def cache_store_def defaultAPIKeyCacheTTL_def)
  from gateway_run.tick [OF this, of ?e]
  have "gateway_run list_table ?P ?g [(?l, ''h'', sample_key)] \<lparr>at_time = ?e, gate = ?c, in_flight = []\<rparr>" by simp
  from gateway_run.hit [OF this, of "''h''" sample_key "apiKeyCache ?c"]
  have "gateway_run list_table ?P ?g [(?l, ''h'', sample_key), (?e, ''h'', sample_key)] \<lparr>at_time = ?e, gate = ?c, in_flight = []\<rparr>"
    by (simp add: auth_init_def cache_load_def defaultAPIKeyCacheTTL_def)
  then show ?thesis using 1
    by (intro exI [of _ "[]"] exI [of _ ?g] exI [of _ "[(?l, ''h'', sample_key), (?e, ''h'', sample_key)]"]
          exI [of _ "\<lparr>at_time = ?e, gate = ?c, in_flight = []\<rparr>"] conjI)
       (simp_all add: auth_init_def defaultAPIKeyCacheTTL_def)
qed

text \<open>An expired key is refused at once, also when the cache still holds it.\<close>

lemma expired_refused:
  assumes "validateAPIKeyCached T clk apiKey s = (Inr k, s')" "ExpiresAt k = Some e" "e < clk 2"
    "req_header c ''X-API-Key'' = apiKey" "apiKey \<noteq> []"
  shows "fst (APIKeyAuth T clk c s) = Abort (Response StatusUnauthorized (error_body ''API key is inactive or expired''))"
  using assms by (simp add: APIKeyAuth_def IsValid_def IsExpired_def)

section \<open>The record of the last use\<close>

text \<open>
  What the code relies on of the table: an update that succeeds changes the one column of the rows with
  that id and nothing else.
\<close>

locale key_store =
  fixes T :: "'db key_table"
  assumes update_row:
    "UpdateLastUsed T i t d = (None, d') \<Longrightarrow>
     First T d' h = map_sum id (\<lambda>k. if Key_ID k = i then k\<lparr>LastUsed := Some t\<rparr> else k) (First T d h)"
begin

lemma flushed_row:
  assumes ok: "\<And>i t d. fst (UpdateLastUsed T i t d) = None" and row: "First T d h = Inr k"
  shows "First T (flush_each T batch ord d) h =
         Inr (if Key_ID k \<in> set ord
              then case batch (Key_ID k) of None \<Rightarrow> k | Some u \<Rightarrow> k\<lparr>LastUsed := Some (lastSeen u)\<rparr> else k)"
  using row
proof (induction ord arbitrary: d k)
  case Nil
  then show ?case by simp
next
  case (Cons i ord)
  show ?case
  proof (cases "batch i")
    case None
    then show ?thesis using Cons by auto
  next
    case (Some u)
    obtain d' where d': "UpdateLastUsed T i (lastSeen u) d = (None, d')"
      using ok [of i "lastSeen u" d] by (metis prod.collapse)
    have "First T d' h = Inr (if Key_ID k = i then k\<lparr>LastUsed := Some (lastSeen u)\<rparr> else k)"
      using update_row [OF d', of h] Cons.prems by simp
    from Cons.IH [OF this] show ?thesis using Some d' by (auto split: option.splits)
  qed
qed

end

interpretation table: key_store list_table
proof
  fix i t and h :: string and d d' :: "APIKey list"
  assume "UpdateLastUsed list_table i t d = (None, d')"
  then have d': "d' = map (\<lambda>r. if Key_ID r = i then r\<lparr>LastUsed := Some t\<rparr> else r) d" by (simp add: list_table_def)
  show "First list_table d' h =
    map_sum id (\<lambda>k. if Key_ID k = i then k\<lparr>LastUsed := Some t\<rparr> else k) (First list_table d h)"
    unfolding d' by (induction d) (auto simp: list_table_def split: if_splits)
qed

definition record_uses :: "(int \<times> nat) list \<Rightarrow> 'db auth \<Rightarrow> 'db auth" where
  "record_uses us s = foldl (\<lambda>s (t, i). recordKeyUsage t i s) s us"

definition last_use :: "(int \<times> nat) list \<Rightarrow> nat \<rightharpoonup> int" where
  "last_use us = foldl (\<lambda>m (t, i). m(i \<mapsto> t)) Map.empty us"

lemma record_step:
  "pendingUsage (recordKeyUsage t i s) j =
     (if j = i then Some \<lparr>lastSeen = t, use_count = (case pendingUsage s i of None \<Rightarrow> 1 | Some u \<Rightarrow> use_count u + 1)\<rparr>
      else pendingUsage s j)"
  "gormDB (recordKeyUsage t i s) = gormDB s"
  by (auto simp: recordKeyUsage_def StartAPIKeyUsageFlusher_def Let_def split: option.splits)

lemma recorded:
  assumes "pendingUsage s = Map.empty"
  shows "map_option lastSeen (pendingUsage (record_uses us s) i) = last_use us i \<and> gormDB (record_uses us s) = gormDB s"
  using assms
  by (induction us rule: rev_induct) (auto simp: record_uses_def last_use_def record_step)

text \<open>
  Whatever keys are used, how often and in which order, the next flush writes to the row of
  every used key the time of its last use, whatever the order of the flush, leaves the rows of the other
  keys as they are, and empties the buffer.
\<close>

theorem usage_flushed:
  assumes "key_store T" and ok: "\<And>i t d. fst (UpdateLastUsed T i t d) = None"
    and empty: "pendingUsage s = Map.empty" and d: "gormDB s = Some d"
    and ord: "set ord = dom (pendingUsage (record_uses us s))"
    and row: "First T d h = Inr k"
  shows "\<exists>d'. gormDB (flushPendingUsage T ord (record_uses us s)) = Some d' \<and>
           First T d' h = Inr (case last_use us (Key_ID k) of None \<Rightarrow> k | Some t \<Rightarrow> k\<lparr>LastUsed := Some t\<rparr>) \<and>
           pendingUsage (flushPendingUsage T ord (record_uses us s)) = Map.empty"
proof -
  note rec = recorded [OF empty, of us]
  let ?p = "pendingUsage (record_uses us s)"
  have "First T (flush_each T ?p ord d) h =
      Inr (case last_use us (Key_ID k) of None \<Rightarrow> k | Some t \<Rightarrow> k\<lparr>LastUsed := Some t\<rparr>)"
    using key_store.flushed_row [OF assms(1) ok row, of ?p ord] ord rec [of "Key_ID k"]
    by (cases "?p (Key_ID k)") (auto simp: domIff split: option.splits)
  moreover have "?p = Map.empty \<Longrightarrow> last_use us (Key_ID k) = None" using rec [of "Key_ID k"] by simp
  ultimately show ?thesis using row d rec by (auto simp: flushPendingUsage_def Let_def)
qed

text \<open>Two keys, used three times, on a table of lists.\<close>

theorem usage_flushed_witness:
  "\<exists>d'. gormDB (flushPendingUsage list_table [7] (record_uses [(3, 7), (5, 7)] (auth_init (Some [sample_key])))) = Some d' \<and>
     First list_table d' ''h'' = Inr (sample_key\<lparr>LastUsed := Some 5\<rparr>)"
  using usage_flushed [OF table.key_store_axioms, of "auth_init (Some [sample_key])" "[sample_key]" "[7]"
      "[(3, 7), (5, 7)]" "''h''" sample_key]
  by (fastforce simp: list_table_def auth_init_def sample_key_def last_use_def record_uses_def record_step domIff)


end
