(* ===== verification/Rate_Limit.thy ===== *)
theory Rate_Limit
  imports Complex_Main Http "HOL-Library.Word"
begin

unbundle bit_operations_syntax

text \<open>
  The two rate limiters: one bucket for each API key (\<^verbatim>\<open>RateLimiter\<close> and \<^verbatim>\<open>RateLimitMiddleware\<close> of
  auth/middleware.go) and one for each client address, in a map that is split into shards and cleaned of
  idle visitors (router/middleware.go).  The token bucket itself is the package golang.org/x/time/rate
  and enters as a parameter.
\<close>

section \<open>Token buckets\<close>

record 'l rate_lib =
  Every :: "int \<Rightarrow> real"
  NewLimiter :: "real \<Rightarrow> int \<Rightarrow> 'l"
  Allow :: "int \<Rightarrow> 'l \<Rightarrow> bool \<times> 'l"

fun allowed :: "'l rate_lib \<Rightarrow> 'l \<Rightarrow> int list \<Rightarrow> nat" where
  "allowed L l [] = 0"
| "allowed L l (t # ts) = (let (ok, l') = Allow L t l in (if ok then 1 else 0) + allowed L l' ts)"

text \<open>
  What the package documents: \<^verbatim>\<open>Every\<close> turns the interval between events into a rate per second, and a
  limiter is a bucket of \<open>b\<close> tokens, full at first and refilled at \<open>r\<close> tokens per second, so that it allows
  at most \<open>b\<close> events and another \<open>r\<close> for each second that passes.
\<close>

locale token_bucket =
  fixes L :: "'l rate_lib"
  assumes every: "0 < i \<Longrightarrow> Every L i = 10 ^ 9 / real_of_int i"
    and bucket: "sorted (t # ts) \<Longrightarrow> 0 \<le> r \<Longrightarrow> 0 \<le> b \<Longrightarrow>
      real (allowed L (NewLimiter L r b) (t # ts)) \<le> real_of_int b + r * real_of_int (last (t # ts) - t) / 10 ^ 9"

section \<open>A bucket for each key\<close>

definition hour :: int where
  "hour = 3600 * 10 ^ 9"

text \<open>
  \<^verbatim>\<open>GetLimiter\<close> looks the key up under the read lock and, when it is missing, looks again under the write
  lock, between which other requests may have added it: \<open>m1\<close> is the map the first look sees, \<open>m\<close> the map
  of the second.
\<close>

definition GetLimiter :: "'l rate_lib \<Rightarrow> nat \<Rightarrow> int \<Rightarrow> (nat \<rightharpoonup> 'l) \<Rightarrow> (nat \<rightharpoonup> 'l) \<Rightarrow> 'l \<times> (nat \<rightharpoonup> 'l)" where
  "GetLimiter L keyID requestsPerHour m1 m =
     (case m1 keyID of
        Some limiter \<Rightarrow> (limiter, m)
      | None \<Rightarrow>
          (let n = (if requestsPerHour \<le> 0 then 100 else requestsPerHour) in
           case m keyID of
             Some limiter \<Rightarrow> (limiter, m)
           | None \<Rightarrow> (let limiter = NewLimiter L (Every L (hour div n)) n in (limiter, m(keyID \<mapsto> limiter)))))"

definition too_many :: "int \<Rightarrow> string \<Rightarrow> verdict" where
  "too_many secs msg =
     Abort (Response StatusTooManyRequests (JObj [(''error'', JStr msg), (''retry_after'', JNum (show_int secs))]))"

definition RateLimitMiddleware :: "'l rate_lib \<Rightarrow> int \<Rightarrow> ctx \<Rightarrow> (nat \<rightharpoonup> 'l) \<Rightarrow> verdict \<times> (nat \<rightharpoonup> 'l)" where
  "RateLimitMiddleware L now c m =
     (case api_key_id c of
        None \<Rightarrow> (Next c, m)
      | Some keyID \<Rightarrow>
          (let n = (case rate_limit c of None \<Rightarrow> 100 | Some n \<Rightarrow> n);
               (limiter, m1) = GetLimiter L keyID n m m;
               (ok, limiter') = Allow L now limiter;
               m2 = m1(keyID \<mapsto> limiter')
           in if \<not> ok then (too_many 3600 ''Rate limit exceeded'', m2) else (Next c, m2)))"

section \<open>A bucket for each address\<close>

record 'l rateVisitor =
  limiter :: 'l
  seen_at :: int

record 'l RateLimiter =
  shards :: "nat \<Rightarrow> string \<rightharpoonup> 'l rateVisitor"
  rps :: real
  burst :: int
  idle :: int

definition rlShardCount :: nat where
  "rlShardCount = 32"

definition NewRateLimiter :: "real \<Rightarrow> int \<Rightarrow> int \<Rightarrow> 'l RateLimiter" where
  "NewRateLimiter envRPS envBurst envIdle =
     \<lparr>shards = \<lambda>_. Map.empty, rps = envRPS, burst = (if envBurst < 1 then 10 else envBurst),
      idle = (if envIdle \<le> 0 then 10 * 60 * 10 ^ 9 else envIdle)\<rparr>"

definition fnv_step :: "32 word \<Rightarrow> char \<Rightarrow> 32 word" where
  "fnv_step h ch = (h XOR of_nat (of_char ch)) * 16777619"

definition shardFor :: "string \<Rightarrow> nat" where
  "shardFor ip = unat (foldl fnv_step 2166136261 ip AND of_nat (rlShardCount - 1))"

definition rl_get :: "'l rate_lib \<Rightarrow> int \<Rightarrow> string \<Rightarrow> 'l RateLimiter \<Rightarrow> 'l \<times> 'l RateLimiter" where
  "rl_get L now ip rl =
     (let i = shardFor ip;
          s = shards rl i;
          v = (case s ip of None \<Rightarrow> \<lparr>limiter = NewLimiter L (rps rl) (burst rl), seen_at = 0\<rparr> | Some v \<Rightarrow> v);
          v' = v\<lparr>seen_at := now\<rparr>
      in (limiter v', rl\<lparr>shards := (shards rl)(i := s(ip \<mapsto> v'))\<rparr>))"

text \<open>One tick of the reaper, shard after shard.\<close>

definition sweep :: "int \<Rightarrow> (string \<rightharpoonup> 'l rateVisitor) \<Rightarrow> (string \<rightharpoonup> 'l rateVisitor)" where
  "sweep cutoff s = (\<lambda>ip. case s ip of Some v \<Rightarrow> if seen_at v < cutoff then None else Some v | None \<Rightarrow> None)"

definition rl_reaper_tick :: "int \<Rightarrow> 'l RateLimiter \<Rightarrow> 'l RateLimiter" where
  "rl_reaper_tick now rl =
     (let cutoff = now - idle rl in
      rl\<lparr>shards := foldl (\<lambda>ss i. ss(i := sweep cutoff (ss i))) (shards rl) [0..<rlShardCount]\<rparr>)"

text \<open>
  \<open>t1\<close> is the time \<^verbatim>\<open>get\<close> records, \<open>t2\<close> the time at which the limiter is asked; it is a pointer, so asking
  changes the entry of the map.
\<close>

definition put_limiter :: "string \<Rightarrow> 'l \<Rightarrow> 'l RateLimiter \<Rightarrow> 'l RateLimiter" where
  "put_limiter ip l rl =
     (let i = shardFor ip in
      rl\<lparr>shards := (shards rl)(i := (\<lambda>a. if a = ip then map_option (\<lambda>v. v\<lparr>limiter := l\<rparr>) (shards rl i a) else shards rl i a))\<rparr>)"

definition rl_Middleware :: "'l rate_lib \<Rightarrow> int \<Rightarrow> int \<Rightarrow> ctx \<Rightarrow> 'l RateLimiter \<Rightarrow> verdict \<times> 'l RateLimiter" where
  "rl_Middleware L t1 t2 c rl =
     (if rps rl \<le> 0 then (Next c, rl)
      else (let (l, rl1) = rl_get L t1 (ClientIP c) rl;
                (ok, l') = Allow L t2 l;
                rl2 = put_limiter (ClientIP c) l' rl1
            in if \<not> ok then (too_many 1 ''rate limit exceeded'', rl2) else (Next c, rl2)))"

section \<open>The sharded map is a map\<close>

text \<open>
  The specification is a single map from addresses to visitors.
\<close>

type_synonym 'l flat = "string \<rightharpoonup> 'l rateVisitor"

definition flatten :: "'l RateLimiter \<Rightarrow> 'l flat" where
  "flatten rl = (\<lambda>ip. shards rl (shardFor ip) ip)"

definition flat_admit :: "'l rate_lib \<Rightarrow> real \<Rightarrow> int \<Rightarrow> int \<Rightarrow> int \<Rightarrow> string \<Rightarrow> 'l flat \<Rightarrow> bool \<times> 'l flat" where
  "flat_admit L r b t1 t2 ip m =
     (let l = (case m ip of None \<Rightarrow> NewLimiter L r b | Some v \<Rightarrow> limiter v);
          (ok, l') = Allow L t2 l
      in (ok, m(ip \<mapsto> \<lparr>limiter = l', seen_at = t1\<rparr>)))"

lemma shardFor_bound: "shardFor ip < rlShardCount"
proof -
  have "foldl fnv_step 2166136261 ip AND 31 \<le> (31 :: 32 word)" by (rule word_and_le1)
  then show ?thesis by (simp add: shardFor_def rlShardCount_def word_le_nat_alt)
qed

lemma put_limiter_sel [simp]:
  "rps (put_limiter ip l rl) = rps rl" "burst (put_limiter ip l rl) = burst rl" "idle (put_limiter ip l rl) = idle rl"
  by (simp_all add: put_limiter_def Let_def)

lemma flatten_put:
  "flatten (put_limiter ip l (rl\<lparr>shards := (shards rl)(shardFor ip := (shards rl (shardFor ip))(ip \<mapsto> v))\<rparr>)) =
     (flatten rl)(ip \<mapsto> v\<lparr>limiter := l\<rparr>)"
  by (auto simp: flatten_def put_limiter_def Let_def fun_eq_iff)

lemma swept_shards:
  "foldl (\<lambda>ss i. ss(i := sweep c (ss i))) ss [0..<n] i = (if i < n then sweep c (ss i) else ss i)"
  by (induction n) auto

text \<open>
  C39.  The sharded limiter behaves as one map.  A request is let through exactly when the single
  map lets it through, the map after it is the single map's, and a tick of the reaper removes exactly the
  visitors that were idle, in all shards.
\<close>

theorem shards_refine:
  "flatten (NewRateLimiter r b i) = Map.empty \<and>
   flatten (rl_reaper_tick now rl) = sweep (now - idle rl) (flatten rl) \<and>
   (0 < rps rl \<longrightarrow>
     (case (rl_Middleware L t1 t2 c rl, flat_admit L (rps rl) (burst rl) t1 t2 (ClientIP c) (flatten rl)) of
        ((v, rl'), (ok, m)) \<Rightarrow>
          (v = Next c \<longleftrightarrow> ok) \<and> flatten rl' = m \<and> rps rl' = rps rl \<and> burst rl' = burst rl \<and> idle rl' = idle rl))"
proof (intro conjI impI)
  show "flatten (NewRateLimiter r b i) = Map.empty" by (simp add: flatten_def NewRateLimiter_def)
  show "flatten (rl_reaper_tick now rl) = sweep (now - idle rl) (flatten rl)"
    by (simp add: flatten_def rl_reaper_tick_def Let_def swept_shards shardFor_bound) (simp add: sweep_def)
  assume pos: "0 < rps rl"
  have at: "flatten rl (ClientIP c) = shards rl (shardFor (ClientIP c)) (ClientIP c)" by (simp add: flatten_def)
  show "case (rl_Middleware L t1 t2 c rl, flat_admit L (rps rl) (burst rl) t1 t2 (ClientIP c) (flatten rl)) of
        ((v, rl'), (ok, m)) \<Rightarrow>
          (v = Next c \<longleftrightarrow> ok) \<and> flatten rl' = m \<and> rps rl' = rps rl \<and> burst rl' = burst rl \<and> idle rl' = idle rl"
    using pos
    by (cases "shards rl (shardFor (ClientIP c)) (ClientIP c)")
       (auto simp: rl_Middleware_def rl_get_def flat_admit_def Let_def flatten_put too_many_def at split: prod.splits)
qed

section \<open>The quota of a key\<close>

text \<open>
  The requests that arrive at the middleware, with the times at which their limiters are asked; those of
  one key that are passed on.
\<close>

fun passed :: "'l rate_lib \<Rightarrow> nat \<Rightarrow> (int \<times> ctx) list \<Rightarrow> (nat \<rightharpoonup> 'l) \<Rightarrow> nat" where
  "passed L i [] m = 0"
| "passed L i ((t, c) # rs) m =
     (let (v, m') = RateLimitMiddleware L t c m
      in (if api_key_id c = Some i \<and> v = Next c then 1 else 0) + passed L i rs m')"

definition times_of :: "nat \<Rightarrow> (int \<times> ctx) list \<Rightarrow> int list" where
  "times_of i rs = map fst (filter (\<lambda>(t, c). api_key_id c = Some i) rs)"

definition key_limiter :: "'l rate_lib \<Rightarrow> int \<Rightarrow> nat \<Rightarrow> (nat \<rightharpoonup> 'l) \<Rightarrow> 'l" where
  "key_limiter L n i m = (case m i of None \<Rightarrow> NewLimiter L (Every L (hour div n)) n | Some l \<Rightarrow> l)"

lemma limit_step:
  assumes "api_key_id c = Some j"
  shows "fst (RateLimitMiddleware L t c m) = Next c \<longleftrightarrow>
      fst (Allow L t (fst (GetLimiter L j (case rate_limit c of None \<Rightarrow> 100 | Some n \<Rightarrow> n) m m)))"
    and "i \<noteq> j \<Longrightarrow> snd (RateLimitMiddleware L t c m) i = m i"
    and "snd (RateLimitMiddleware L t c m) j =
      Some (snd (Allow L t (fst (GetLimiter L j (case rate_limit c of None \<Rightarrow> 100 | Some n \<Rightarrow> n) m m))))"
  using assms
  by (auto simp: RateLimitMiddleware_def Let_def too_many_def GetLimiter_def split: prod.splits option.splits)

lemma limit_other: "api_key_id c \<noteq> Some i \<Longrightarrow> snd (RateLimitMiddleware L t c m) i = m i"
proof (cases "api_key_id c")
  case None
  then show ?thesis by (simp add: RateLimitMiddleware_def)
next
  case (Some j)
  moreover assume "api_key_id c \<noteq> Some i"
  ultimately show ?thesis using limit_step(2) [OF Some, of i] by simp
qed

lemma limiter_of_key: "0 < n \<Longrightarrow> fst (GetLimiter L i n m m) = key_limiter L n i m"
  by (auto simp: GetLimiter_def key_limiter_def Let_def split: option.splits)

lemma passed_alone:
  assumes "0 < n" "\<forall>(t, c)\<in>set rs. api_key_id c = Some i \<longrightarrow> rate_limit c = Some n"
  shows "passed L i rs m = allowed L (key_limiter L n i m) (times_of i rs)"
  using assms(2)
proof (induction rs arbitrary: m)
  case Nil
  then show ?case by (simp add: times_of_def)
next
  case (Cons r rs)
  obtain t c where r: "r = (t, c)" by fastforce
  let ?m = "snd (RateLimitMiddleware L t c m)"
  have IH: "passed L i rs ?m = allowed L (key_limiter L n i ?m) (times_of i rs)" using Cons by auto
  show ?case
  proof (cases "api_key_id c = Some i")
    case True
    note step = limit_step(1, 3) [OF True, of L t m]
    have "key_limiter L n i ?m = snd (Allow L t (key_limiter L n i m))"
      using step(2) Cons.prems True r assms(1) by (simp add: key_limiter_def [of L n i ?m] limiter_of_key)
    then show ?thesis using IH step(1) Cons.prems True r assms(1)
      by (simp add: times_of_def limiter_of_key split_beta)
  next
    case False
    then have "?m i = m i" by (rule limit_other)
    then show ?thesis using IH False r by (simp add: times_of_def key_limiter_def split_beta)
  qed
qed

text \<open>
  The requests of a key with a limit of \<open>n\<close> per hour that are passed on are at most \<open>n\<close>, and one
  more for each \<open>n\<close>-th part of an hour since its first request, whatever requests of other keys come in
  between.
\<close>

theorem hourly_quota:
  assumes "token_bucket L" and n: "0 < n" "n \<le> hour" and sorted: "sorted (map fst rs)"
    and limit: "\<forall>(t, c)\<in>set rs. api_key_id c = Some i \<longrightarrow> rate_limit c = Some n"
    and first: "times_of i rs = t0 # ts"
  shows "real (passed L i rs Map.empty) \<le> real_of_int n + real_of_int (last (t0 # ts) - t0) / real_of_int (hour div n)"
proof -
  have pos: "0 < hour div n" using n by (simp add: pos_imp_zdiv_pos_iff)
  have "sorted (t0 # ts)"
    unfolding first [symmetric] times_of_def using sorted by (simp add: sorted_filter)
  note bound = token_bucket.bucket [OF assms(1) this, of "Every L (hour div n)" n]
  have every: "Every L (hour div n) = 10 ^ 9 / real_of_int (hour div n)"
    by (rule token_bucket.every [OF assms(1) pos])
  have cancel: "Every L (hour div n) * x / 10 ^ 9 = x / real_of_int (hour div n)" for x
    unfolding every by simp
  have "passed L i rs Map.empty = allowed L (NewLimiter L (Every L (hour div n)) n) (t0 # ts)"
    using passed_alone [OF n(1) limit, of L Map.empty] first by (simp add: key_limiter_def)
  then show ?thesis using bound [unfolded cancel] pos n(1) by (simp only: every) simp
qed

section \<open>A concrete bucket\<close>

record tokens =
  tk_rate :: real
  tk_burst :: int
  tk_left :: real
  tk_last :: "int option"

definition refill :: "int \<Rightarrow> tokens \<Rightarrow> real" where
  "refill t l =
     (case tk_last l of
        None \<Rightarrow> tk_left l
      | Some u \<Rightarrow> min (real_of_int (tk_burst l)) (tk_left l + tk_rate l * real_of_int (t - u) / 10 ^ 9))"

definition bucket_lib :: "tokens rate_lib" where
  "bucket_lib =
     \<lparr>Every = \<lambda>i. 10 ^ 9 / real_of_int i,
      NewLimiter = \<lambda>r b. \<lparr>tk_rate = r, tk_burst = b, tk_left = real_of_int b, tk_last = None\<rparr>,
      Allow = \<lambda>t l. (let x = refill t l; ok = (1 \<le> x)
                    in (ok, l\<lparr>tk_left := (if ok then x - 1 else x), tk_last := Some t\<rparr>))\<rparr>"

lemma allowed_potential:
  assumes "sorted (u # ts)" "tk_last l = Some u" "0 \<le> tk_left l" "0 \<le> tk_rate l" "0 \<le> tk_burst l"
  shows "real (allowed bucket_lib l ts) \<le> tk_left l + tk_rate l * real_of_int (last (u # ts) - u) / 10 ^ 9"
  using assms
proof (induction ts arbitrary: l u)
  case Nil
  then show ?case by simp
next
  case (Cons t ts)
  let ?x = "refill t l"
  let ?l = "snd (Allow bucket_lib t l)"
  have x: "0 \<le> ?x" "?x \<le> tk_left l + tk_rate l * real_of_int (t - u) / 10 ^ 9"
    using Cons.prems by (auto simp: refill_def)
  have "real (allowed bucket_lib ?l ts) \<le> tk_left ?l + tk_rate ?l * real_of_int (last (t # ts) - t) / 10 ^ 9"
    using Cons.prems x by (intro Cons.IH) (auto simp: bucket_lib_def Let_def)
  then have "real (allowed bucket_lib l (t # ts)) \<le> ?x + tk_rate l * real_of_int (last (t # ts) - t) / 10 ^ 9"
    by (auto simp: bucket_lib_def Let_def split: if_splits)
  also have "\<dots> \<le> tk_left l + tk_rate l * real_of_int (t - u) / 10 ^ 9 + tk_rate l * real_of_int (last (t # ts) - t) / 10 ^ 9"
    using x(2) by simp
  also have "\<dots> = tk_left l + tk_rate l * real_of_int (last (u # t # ts) - u) / 10 ^ 9"
    by (simp add: algebra_simps diff_divide_distrib add_divide_distrib)
  finally show ?case .
qed

interpretation bk: token_bucket bucket_lib
proof
  fix i :: int assume "0 < i" show "Every bucket_lib i = 10 ^ 9 / real_of_int i" by (simp add: bucket_lib_def)
next
  fix t :: int and ts and r :: real and b :: int assume *: "sorted (t # ts)" "0 \<le> r" "0 \<le> b"
  let ?n = "NewLimiter bucket_lib r b" let ?l = "snd (Allow bucket_lib t ?n)"
  have "real (allowed bucket_lib ?l ts) \<le> tk_left ?l + tk_rate ?l * real_of_int (last (t # ts) - t) / 10 ^ 9"
    using * by (intro allowed_potential) (auto simp: bucket_lib_def Let_def refill_def)
  then show "real (allowed bucket_lib ?n (t # ts)) \<le> real_of_int b + r * real_of_int (last (t # ts) - t) / 10 ^ 9"
    by (auto simp: bucket_lib_def Let_def refill_def split: if_splits)
qed

definition sample_request :: "nat \<Rightarrow> int \<Rightarrow> ctx" where
  "sample_request i n =
     \<lparr>Method = ''GET'', FullPath = ''/api/secrets'', req_header = \<lambda>_. [], req_query = Map.empty, ClientIP = ''10.0.0.1'',
      ContentLength = 0, api_key_id = Some i, api_key_name = None, ctx_scopes = None, rate_limit = Some n\<rparr>"

text \<open>Three requests of a key that may make two in an hour, and one of another key, in the same minute.\<close>

theorem hourly_quota_witness:
  "real (passed bucket_lib 7
     [(0, sample_request 7 2), (1, sample_request 8 5), (2, sample_request 7 2), (60 * 10 ^ 9, sample_request 7 2)] Map.empty)
   \<le> 2 + 60 * 10 ^ 9 / (1800 * 10 ^ 9)"
  using hourly_quota [OF bk.token_bucket_axioms, of 2
      "[(0, sample_request 7 2), (1, sample_request 8 5), (2, sample_request 7 2), (60 * 10 ^ 9, sample_request 7 2)]"
      7 0 "[2, 60 * 10 ^ 9]"]
  by (simp add: sample_request_def times_of_def hour_def del: passed.simps)

definition sample_limiter :: "tokens RateLimiter" where
  "sample_limiter = NewRateLimiter 5 0 0"

theorem shards_refine_witness:
  "0 < rps sample_limiter \<and>
   fst (rl_Middleware bucket_lib 0 0 (sample_request 7 2) sample_limiter) = Next (sample_request 7 2)"
proof -
  have "0 < rps sample_limiter" by (simp add: sample_limiter_def NewRateLimiter_def)
  moreover have "fst (flat_admit bucket_lib (rps sample_limiter) (burst sample_limiter) 0 0
      (ClientIP (sample_request 7 2)) (flatten sample_limiter))"
    by (simp add: flat_admit_def sample_limiter_def NewRateLimiter_def flatten_def bucket_lib_def refill_def Let_def)
  ultimately show ?thesis
    using shards_refine [where r = 5 and b = 0 and i = 0 and now = 0 and rl = sample_limiter and L = bucket_lib and ?t1.0 = 0 and ?t2.0 = 0 and c = "sample_request 7 2"]
    by (auto simp: split_beta)
qed

end
