(* ===== verification/Net_Addr.thy ===== *)
theory Net_Addr
  imports Go_Crypto
begin

unbundle bit_operations_syntax

text \<open>
  IP addresses as package \<^verbatim>\<open>net\<close> has them (slices of 4 or 16 bytes), their classification, parsing, and
  the guard against internal addresses that webhook delivery (utils/webhook.go) and ingestion
  (ingest/https.go) share.
\<close>

section \<open>Addresses\<close>

type_synonym ip = bytes

definition v4InV6Prefix :: bytes where
  "v4InV6Prefix = replicate 10 0 @ [0xff, 0xff]"

definition To4 :: "ip \<Rightarrow> ip option" where
  "To4 a =
     (if length a = 4 then Some a
      else if length a = 16 \<and> take 12 a = v4InV6Prefix then Some (drop 12 a)
      else None)"

definition To16 :: "ip \<Rightarrow> ip option" where
  "To16 a = (if length a = 4 then Some (v4InV6Prefix @ a) else if length a = 16 then Some a else None)"

definition ip_Equal :: "ip \<Rightarrow> ip \<Rightarrow> bool" where
  "ip_Equal a b \<longleftrightarrow>
     (if length a = length b then a = b
      else if length a = 4 \<and> length b = 16 then take 12 b = v4InV6Prefix \<and> a = drop 12 b
      else if length a = 16 \<and> length b = 4 then take 12 a = v4InV6Prefix \<and> b = drop 12 a
      else False)"

definition IPv4zero :: ip where
  "IPv4zero = v4InV6Prefix @ [0, 0, 0, 0]"

definition IPv6unspecified :: ip where
  "IPv6unspecified = replicate 16 0"

definition IPv6loopback :: ip where
  "IPv6loopback = replicate 15 0 @ [1]"

definition IsUnspecified :: "ip \<Rightarrow> bool" where
  "IsUnspecified a \<longleftrightarrow> ip_Equal a IPv4zero \<or> ip_Equal a IPv6unspecified"

definition IsLoopback :: "ip \<Rightarrow> bool" where
  "IsLoopback a = (case To4 a of Some v \<Rightarrow> v ! 0 = 127 | None \<Rightarrow> ip_Equal a IPv6loopback)"

definition IsPrivate :: "ip \<Rightarrow> bool" where
  "IsPrivate a =
     (case To4 a of
        Some v \<Rightarrow> v ! 0 = 10 \<or> (v ! 0 = 172 \<and> v ! 1 AND 0xf0 = 16) \<or> (v ! 0 = 192 \<and> v ! 1 = 168)
      | None \<Rightarrow> length a = 16 \<and> a ! 0 AND 0xfe = 0xfc)"

definition IsMulticast :: "ip \<Rightarrow> bool" where
  "IsMulticast a = (case To4 a of Some v \<Rightarrow> v ! 0 AND 0xf0 = 0xe0 | None \<Rightarrow> length a = 16 \<and> a ! 0 = 0xff)"

definition IsLinkLocalMulticast :: "ip \<Rightarrow> bool" where
  "IsLinkLocalMulticast a =
     (case To4 a of
        Some v \<Rightarrow> v ! 0 = 224 \<and> v ! 1 = 0 \<and> v ! 2 = 0
      | None \<Rightarrow> length a = 16 \<and> a ! 0 = 0xff \<and> a ! 1 AND 0x0f = 0x02)"

definition IsLinkLocalUnicast :: "ip \<Rightarrow> bool" where
  "IsLinkLocalUnicast a =
     (case To4 a of
        Some v \<Rightarrow> v ! 0 = 169 \<and> v ! 1 = 254
      | None \<Rightarrow> length a = 16 \<and> a ! 0 = 0xfe \<and> a ! 1 AND 0xc0 = 0x80)"

text \<open>A nil address is the empty slice.\<close>

definition isDisallowedIP :: "ip \<Rightarrow> bool" where
  "isDisallowedIP a \<longleftrightarrow>
     (if a = [] then True
      else if IsLoopback a \<or> IsLinkLocalUnicast a \<or> IsLinkLocalMulticast a \<or> IsMulticast a \<or> IsUnspecified a \<or> IsPrivate a
      then True
      else (case To16 a of
              Some v6 \<Rightarrow> To4 a = None \<and> v6 ! 0 AND 0xfe = 0xfc
            | None \<Rightarrow> False))"

section \<open>Parsing\<close>

text \<open>\<^verbatim>\<open>net.ParseIP\<close>: dotted decimal without leading zeros, or the forms of RFC 4291; a zone is refused.\<close>

definition v4_octet :: "string \<Rightarrow> byte option" where
  "v4_octet s =
     (if s \<noteq> [] \<and> list_all is_digit s \<and> (length s = 1 \<or> hd s \<noteq> CHR ''0'') \<and> digits_val s < 256
      then Some (of_nat (digits_val s)) else None)"

definition parseIPv4 :: "string \<Rightarrow> bytes option" where
  "parseIPv4 s =
     (case map v4_octet (str_split s (CHR ''.'')) of
        [Some a, Some b, Some c, Some d] \<Rightarrow> Some [a, b, c, d]
      | _ \<Rightarrow> None)"

definition hex_value :: "char \<Rightarrow> nat option" where
  "hex_value c =
     (let n = (of_char c :: nat) in
      if 48 \<le> n \<and> n \<le> 57 then Some (n - 48)
      else if 97 \<le> n \<and> n \<le> 102 then Some (n - 87)
      else if 65 \<le> n \<and> n \<le> 70 then Some (n - 55)
      else None)"

definition is_hex :: "char \<Rightarrow> bool" where
  "is_hex c \<longleftrightarrow> hex_value c \<noteq> None"

definition hextet :: "string \<Rightarrow> bytes" where
  "hextet ds = (let v = foldl (\<lambda>v c. 16 * v + the (hex_value c)) 0 ds in [of_nat (v div 256), of_nat (v mod 256)])"

lemma v6_rest_shorter:
  assumes "takeWhile is_hex s \<noteq> []"
  shows "length (dropWhile is_hex s) - n < length s"
proof -
  have "length (takeWhile is_hex s) + length (dropWhile is_hex s) = length s"
    by (metis length_append takeWhile_dropWhile_id)
  with assms show ?thesis by (cases "takeWhile is_hex s") auto
qed

text \<open>
  The loop of \<^verbatim>\<open>parseIPv6\<close>: the bytes so far, the position of the ellipsis, and the rest of the text; the
  result is the bytes, the ellipsis and what is left unread.
\<close>

function v6_fields :: "bytes \<Rightarrow> nat option \<Rightarrow> string \<Rightarrow> (bytes \<times> nat option \<times> string) option" where
  "v6_fields acc ell s =
     (if length acc \<ge> 16 then Some (acc, ell, s)
      else
        (let ds = takeWhile is_hex s; r = dropWhile is_hex s in
         if ds = [] \<or> length ds > 4 then None
         else if hasPrefix r ''.'' then
           (if ell = None \<and> length acc \<noteq> 12 \<or> length acc + 4 > 16 then None
            else case parseIPv4 s of None \<Rightarrow> None | Some v \<Rightarrow> Some (acc @ v, ell, []))
         else
           (let acc' = acc @ hextet ds in
            if r = [] then Some (acc', ell, [])
            else if \<not> hasPrefix r '':'' \<or> length r = 1 then None
            else if hasPrefix r ''::'' then
              (if ell \<noteq> None then None
               else if drop 2 r = [] then Some (acc', Some (length acc'), [])
               else v6_fields acc' (Some (length acc')) (drop 2 r))
            else v6_fields acc' ell (drop 1 r))))"
  by pat_completeness auto

termination
  by (relation "measure (\<lambda>(acc, ell, s). length s)") (auto intro: v6_rest_shorter)

declare v6_fields.simps [simp del]

definition parseIPv6 :: "string \<Rightarrow> bytes option" where
  "parseIPv6 s =
     (let lead = hasPrefix s ''::''; t = (if lead then drop 2 s else s) in
      if lead \<and> t = [] then Some IPv6unspecified
      else case v6_fields [] (if lead then Some 0 else None) t of
        None \<Rightarrow> None
      | Some (acc, ell, rest) \<Rightarrow>
          if rest \<noteq> [] then None
          else if length acc < 16 then
            (case ell of
               None \<Rightarrow> None
             | Some e \<Rightarrow> Some (take e acc @ replicate (16 - length acc) 0 @ drop e acc))
          else if ell \<noteq> None then None
          else Some acc)"

definition ParseIP :: "string \<Rightarrow> ip option" where
  "ParseIP s =
     (if CHR ''%'' \<in> set s then None
      else case find (\<lambda>c. c = CHR ''.'' \<or> c = CHR '':'') s of
        None \<Rightarrow> None
      | Some c \<Rightarrow> if c = CHR ''.'' then map_option (\<lambda>v. v4InV6Prefix @ v) (parseIPv4 s) else parseIPv6 s)"

text \<open>\<^verbatim>\<open>net.SplitHostPort\<close>.\<close>

definition SplitHostPort :: "string \<Rightarrow> (string \<times> string) option" where
  "SplitHostPort hp =
     (case last_index_char hp (CHR '':'') of
        None \<Rightarrow> None
      | Some i \<Rightarrow>
          if hasPrefix hp ''['' then
            (case str_index hp '']'' of
               None \<Rightarrow> None
             | Some e \<Rightarrow>
                 if e + 1 \<noteq> i then None
                 else
                   (let host = take (e - 1) (drop 1 hp); port = drop (i + 1) hp in
                    if CHR ''['' \<in> set (drop 1 hp) \<or> CHR '']'' \<in> set (drop (e + 1) hp) then None
                    else Some (host, port)))
          else
            (let host = take i hp; port = drop (i + 1) hp in
             if CHR '':'' \<in> set host then None
             else if CHR ''['' \<in> set hp \<or> CHR '']'' \<in> set hp then None
             else Some (host, port)))"

section \<open>The blocks of addresses that are refused\<close>

text \<open>
  The specification is a list of address blocks in the notation of CIDR: an address belongs to a block
  when it agrees with its base in the leading bits.
\<close>

definition byte_bits :: "byte \<Rightarrow> bool list" where
  "byte_bits b = map (bit b) [7, 6, 5, 4, 3, 2, 1, 0]"

definition ip_bits :: "bytes \<Rightarrow> bool list" where
  "ip_bits a = concat (map byte_bits a)"

definition in_block :: "bytes \<Rightarrow> bytes \<times> nat \<Rightarrow> bool" where
  "in_block a blk = (take (snd blk) (ip_bits a) = take (snd blk) (ip_bits (fst blk)))"

definition v4_blocks :: "(bytes \<times> nat) list" where
  "v4_blocks =
     [([127, 0, 0, 0], 8), ([10, 0, 0, 0], 8), ([172, 16, 0, 0], 12), ([192, 168, 0, 0], 16),
      ([169, 254, 0, 0], 16), ([224, 0, 0, 0], 4), ([0, 0, 0, 0], 32)]"

definition v6_blocks :: "(bytes \<times> nat) list" where
  "v6_blocks =
     [(IPv6loopback, 128), (IPv6unspecified, 128), ([0xfc, 0] @ replicate 14 0, 7),
      ([0xfe, 0x80] @ replicate 14 0, 10), ([0xff, 0] @ replicate 14 0, 8)]"

definition internal :: "ip \<Rightarrow> bool" where
  "internal a =
     (case To4 a of
        Some v \<Rightarrow> list_ex (in_block v) v4_blocks
      | None \<Rightarrow> list_ex (in_block a) v6_blocks)"

lemma length_byte_bits [simp]: "length (byte_bits b) = 8"
  by (simp add: byte_bits_def)

lemma ip_bits_Cons [simp]: "ip_bits (b # a) = byte_bits b @ ip_bits a" "ip_bits [] = []"
  by (simp_all add: ip_bits_def)

lemma byte_eq_bits: "(a :: byte) = b \<longleftrightarrow> byte_bits a = byte_bits b"
proof
  assume "byte_bits a = byte_bits b"
  then have "bit a n = bit b n" if "n < 8" for n
    using that by (auto simp: byte_bits_def less_Suc_eq numeral_eq_Suc)
  then show "a = b" by (intro bit_word_eqI) simp
qed simp

lemma byte_masks:
  "(b :: byte) AND 0xf0 = 16 \<longleftrightarrow> take 4 (byte_bits b) = take 4 (byte_bits 16)"
  "b AND 0xf0 = 0xe0 \<longleftrightarrow> take 4 (byte_bits b) = take 4 (byte_bits 224)"
  "b AND 0xfe = 0xfc \<longleftrightarrow> take 7 (byte_bits b) = take 7 (byte_bits 0xfc)"
  "b AND 0xc0 = 0x80 \<longleftrightarrow> take 2 (byte_bits b) = take 2 (byte_bits 0x80)"
  unfolding byte_eq_bits by (simp_all add: byte_bits_def bit_and_iff)

lemma byte_bits_append [simp]: "byte_bits a @ xs = byte_bits b @ ys \<longleftrightarrow> a = b \<and> xs = ys"
  by (simp add: byte_eq_bits)

lemma byte_bits_eq [simp]: "byte_bits a = byte_bits b \<longleftrightarrow> a = b"
  by (simp add: byte_eq_bits)

lemma v4_internal:
  "list_ex (in_block [p, q, r, t]) v4_blocks \<longleftrightarrow>
     p = 127 \<or> p = 10 \<or> (p = 172 \<and> q AND 0xf0 = 16) \<or> (p = 192 \<and> q = 168) \<or> (p = 169 \<and> q = 254) \<or>
     p AND 0xf0 = 0xe0 \<or> [p, q, r, t] = [0, 0, 0, 0]"
  by (simp add: v4_blocks_def in_block_def byte_masks)

lemma take_ip_bits: "take (8 * n) (ip_bits a) = ip_bits (take n a)"
proof (induction n arbitrary: a)
  case (Suc n)
  then show ?case by (cases a) simp_all
qed simp

lemma ip_bits_inj: "length a = length b \<Longrightarrow> ip_bits a = ip_bits b \<longleftrightarrow> a = b"
  by (induction a b rule: list_induct2) simp_all

lemma whole_block:
  assumes "length a = 16" "length b = 16"
  shows "in_block a (b, 128) \<longleftrightarrow> a = b"
  using take_ip_bits [of 16 a] take_ip_bits [of 16 b] assms ip_bits_inj [of a b] by (simp add: in_block_def)

lemma v6_internal:
  assumes "length a = 16"
  shows "list_ex (in_block a) v6_blocks \<longleftrightarrow>
     a = IPv6loopback \<or> a = IPv6unspecified \<or> a ! 0 AND 0xfe = 0xfc \<or> (a ! 0 = 0xfe \<and> a ! 1 AND 0xc0 = 0x80) \<or> a ! 0 = 0xff"
proof -
  obtain p q r where a: "a = p # q # r" using assms by (cases a; cases "tl a") auto
  have "length IPv6loopback = 16" "length IPv6unspecified = 16" by (simp_all add: IPv6loopback_def IPv6unspecified_def)
  then show ?thesis using whole_block [OF assms]
    by (simp add: v6_blocks_def) (simp add: in_block_def a byte_masks)
qed

lemma To4_cases: "To4 a = Some v \<Longrightarrow> a = v \<or> a = v4InV6Prefix @ v"
  by (auto simp: To4_def split: if_splits) (metis append_take_drop_id)

lemma disallowed_internal:
  assumes "length a \<in> {0, 4, 16}"
  shows "isDisallowedIP a \<longleftrightarrow> a = [] \<or> internal a"
proof -
  have v4: "isDisallowedIP a \<longleftrightarrow> list_ex (in_block v) v4_blocks" if "To4 a = Some v" "a \<noteq> []" for v
  proof -
    have "length v = 4" using that(1) by (auto simp: To4_def split: if_splits)
    then obtain p q r t where v: "v = [p, q, r, t]" by (auto simp: length_Suc_conv numeral_eq_Suc)
    have "IsUnspecified a \<longleftrightarrow> v = [0, 0, 0, 0]"
      using To4_cases [OF that(1)]
      by (auto simp: v IsUnspecified_def ip_Equal_def IPv4zero_def IPv6unspecified_def v4InV6Prefix_def numeral_eq_Suc)
    then show ?thesis
      using that by (auto simp: v v4_internal isDisallowedIP_def IsLoopback_def IsPrivate_def IsMulticast_def
          IsLinkLocalMulticast_def IsLinkLocalUnicast_def split: option.splits)
  qed
  have v6: "isDisallowedIP a \<longleftrightarrow> list_ex (in_block a) v6_blocks" if "To4 a = None" "length a = 16"
  proof -
    have "IsUnspecified a \<longleftrightarrow> a = IPv6unspecified" "IsLoopback a \<longleftrightarrow> a = IPv6loopback"
      using that by (auto simp: IsUnspecified_def IsLoopback_def ip_Equal_def IPv4zero_def IPv6unspecified_def IPv6loopback_def
          To4_def v4InV6Prefix_def split: if_splits)
    then show ?thesis
      using that v6_internal [OF that(2)] by (auto simp: isDisallowedIP_def IsPrivate_def IsMulticast_def
          IsLinkLocalMulticast_def IsLinkLocalUnicast_def To16_def)
  qed
  show ?thesis
  proof (cases "a = []")
    case False
    then show ?thesis using v4 v6 assms by (cases "To4 a") (auto simp: internal_def To4_def split: if_splits)
  qed (simp add: isDisallowedIP_def)
qed

text \<open>
  The guard refuses exactly the addresses of the listed blocks (and nil), in both forms an IPv4 address can
  take: loopback, the private ranges of RFC 1918 and RFC 4193, link-local addresses, the metadata address
  169.254.169.254 among them, multicast, and the unspecified addresses.
\<close>

theorem disallowed_blocks:
  assumes "length a \<in> {0, 4, 16}"
  shows "isDisallowedIP a \<longleftrightarrow> a = [] \<or> internal a"
  using assms by (rule disallowed_internal)

theorem disallowed_blocks_witness:
  "isDisallowedIP [169, 254, 169, 254] \<and> isDisallowedIP (v4InV6Prefix @ [10, 1, 2, 3]) \<and> \<not> isDisallowedIP [93, 184, 216, 34]"
proof -
  have "internal [169, 254, 169, 254]" "internal (v4InV6Prefix @ [10, 1, 2, 3])" "\<not> internal [93, 184, 216, 34]"
    by (simp_all add: internal_def To4_def v4InV6Prefix_def v4_internal)
  then show ?thesis
    using disallowed_blocks [of "[169, 254, 169, 254]"] disallowed_blocks [of "v4InV6Prefix @ [10, 1, 2, 3]"]
      disallowed_blocks [of "[93, 184, 216, 34]"]
    by (simp add: v4InV6Prefix_def)
qed

section \<open>Parsed addresses have sixteen bytes\<close>

lemma length_hextet [simp]: "length (hextet ds) = 2"
  by (simp add: hextet_def Let_def)

lemma length_parseIPv4: "parseIPv4 s = Some v \<Longrightarrow> length v = 4"
  by (auto simp: parseIPv4_def split: list.splits option.splits)

lemma v6_fields_length:
  assumes "v6_fields acc ell s = Some (acc', ell', r)" "even (length acc)" "length acc \<le> 16"
  shows "length acc' \<le> 16"
  using assms
proof (induction "length s" arbitrary: acc ell s rule: less_induct)
  case less
  let ?ds = "takeWhile is_hex s" and ?r = "dropWhile is_hex s"
  show ?case
  proof (cases "length acc \<ge> 16 \<or> ?ds = [] \<or> length ?ds > 4")
    case True
    then show ?thesis using less.prems by (subst (asm) v6_fields.simps) (auto simp: Let_def split: if_splits)
  next
    case False
    then have even: "even (length (acc @ hextet ?ds))" and le: "length (acc @ hextet ?ds) \<le> 16"
      using less.prems(2) by (auto elim!: evenE)
    have IH: "length acc' \<le> 16" if "v6_fields (acc @ hextet ?ds) e (drop n ?r) = Some (acc', ell', r)" for e n
      using less.hyps [OF _ that even le] v6_rest_shorter [of s n] False by simp
    show ?thesis
    proof (cases "hasPrefix ?r ''.''")
      case True
      then show ?thesis using less.prems(1) False
        by (subst (asm) v6_fields.simps) (auto simp: Let_def length_parseIPv4 split: if_splits option.splits)
    next
      case dot: False
      note run = less.prems(1) [unfolded v6_fields.simps [of acc ell s]]
      show ?thesis
      proof (cases "?r = [] \<or> hasPrefix ?r ''::'' \<and> drop 2 ?r = []")
        case True
        then show ?thesis using run False dot le by (auto simp: Let_def split: if_splits)
      next
        case rec: False
        then have "v6_fields (acc @ hextet ?ds) (Some (length (acc @ hextet ?ds))) (drop 2 ?r) = Some (acc', ell', r) \<or>
            v6_fields (acc @ hextet ?ds) ell (drop 1 ?r) = Some (acc', ell', r)"
          using run False dot by (simp add: Let_def split: if_splits)
        then show ?thesis using IH by blast
      qed
    qed
  qed
qed

lemma length_ParseIP: "ParseIP s = Some a \<Longrightarrow> length a = 16"
proof -
  have v6: "length a = 16" if "parseIPv6 s = Some a"
  proof -
    have "length acc \<le> 16" if "v6_fields [] ell t = Some (acc, ell', r)" for acc ell ell' t r
      using v6_fields_length [OF that] by simp
    then show ?thesis using that
      by (fastforce simp: parseIPv6_def IPv6unspecified_def Let_def split: if_splits option.splits prod.splits)
  qed
  assume "ParseIP s = Some a"
  then show ?thesis using v6
    by (auto simp: ParseIP_def v4InV6Prefix_def length_parseIPv4 split: if_splits option.splits)
qed

end
