(* ===== verification/Webhook.thy ===== *)
theory Webhook
  imports Net_Addr Retry Worker
begin

text \<open>
  Webhook delivery (utils/webhook.go, models/Webhook.go): the check of the target, the dialer that checks
  the address again when it connects, the signature, and the retries.  What the outside world answers in
  one attempt is a record: the parsed URL, the two resolutions of the host name (at the check and at the
  connection, which need not agree), connecting, and the response.  The results hold for every such
  record, so nothing is assumed of the URL parser, the resolver, the network or the receiver.
\<close>

section \<open>The outside world of one attempt\<close>

text \<open>
  A parsed URL, with the user name and password if it has them, and a response with its
  declared length (\<open>-1\<close> when unknown), the bytes of its body and the error reading it ends with, if any.
\<close>

record url =
  Scheme :: string
  User :: "(string \<times> string) option"
  Hostname :: string
  Port :: string
  Path :: string
  RawQuery :: string
  Fragment :: string

record http_response =
  StatusCode :: int
  Location :: string
  ContentLength :: int
  body_data :: string
  body_err :: "go_error option"

text \<open>
  The addresses the dialer has for the host come in two lists, those of the preferred family and the rest;
  \<open>fallback_early\<close> tells whether the second list is started before the first one has ended, and
  \<open>fallback_first\<close> which of two connections wins then.  \<open>alive\<close> are the kept connections still open.
\<close>

record attempt_env =
  url_Parse :: "string \<Rightarrow> go_error + url"
  url_String :: "url \<Rightarrow> string"
  url_Query :: "url \<Rightarrow> (string \<times> string list) list"
  values_Encode :: "(string \<times> string list) list \<Rightarrow> string"
  shown_url :: "string \<Rightarrow> string"
  LookupIPAddr :: "string \<Rightarrow> go_error + ip list"
  ip_String :: "ip \<Rightarrow> string"
  split_err :: "string \<Rightarrow> string"
  newRequest_err :: "go_error option"
  unix_now :: int
  alive :: "string \<Rightarrow> bool"
  primaries :: "string list"
  fallbacks :: "string list"
  fallback_early :: bool
  fallback_first :: bool
  connect_err :: "string \<Rightarrow> go_error option"
  exchange :: "string \<Rightarrow> go_error + http_response"
  kept_open :: bool
  location_err :: "string \<Rightarrow> go_error option"

definition MaskURLForLogging :: "attempt_env \<Rightarrow> string \<Rightarrow> string" where
  "MaskURLForLogging E urlStr =
     (case url_Parse E urlStr of
        Inl _ \<Rightarrow> ''***''
      | Inr parsed \<Rightarrow> url_String E (if User parsed \<noteq> None then parsed\<lparr>User := Some (''***'', ''***'')\<rparr> else parsed))"

section \<open>The check of the target\<close>

definition ValidateWebhookURL :: "attempt_env \<Rightarrow> string \<Rightarrow> go_error option" where
  "ValidateWebhookURL E webhookURL =
     (case url_Parse E webhookURL of
        Inl err \<Rightarrow> Some (Errorf (''invalid webhook URL: '' @ err_msg err) [])
      | Inr u \<Rightarrow>
          if Scheme u \<noteq> ''http'' \<and> Scheme u \<noteq> ''https'' then Some (Errorf ''webhook URL must use http or https scheme'' [])
          else if Hostname u = [] then Some (Errorf ''webhook URL has no host'' [])
          else (case ParseIP (Hostname u) of
            Some ip \<Rightarrow>
              if isDisallowedIP ip then Some (Errorf ''webhook URL resolves to a disallowed IP (SSRF protection)'' []) else None
          | None \<Rightarrow>
              (case LookupIPAddr E (Hostname u) of
                 Inl err \<Rightarrow> Some (Errorf (''failed to resolve webhook host: '' @ err_msg err) [])
               | Inr ips \<Rightarrow>
                   if ips = [] then Some (Errorf ''webhook host did not resolve to any address'' [])
                   else (case find isDisallowedIP ips of
                     Some a \<Rightarrow> Some (Errorf (''webhook host resolves to a disallowed IP '' @ ip_String E a @ '' (SSRF protection)'') [])
                   | None \<Rightarrow> None))))"

text \<open>The \<^verbatim>\<open>Control\<close> hook of \<^verbatim>\<open>webhookDialer\<close>, called with every address before a connection to it is made.\<close>

definition dial_Control :: "attempt_env \<Rightarrow> string \<Rightarrow> go_error option" where
  "dial_Control E address =
     (case SplitHostPort address of
        None \<Rightarrow> Some (Errorf (''webhook dial: invalid address '' @ quoted address @ '': '' @ split_err E address) [])
      | Some (host, port) \<Rightarrow>
          (case ParseIP host of
             None \<Rightarrow> Some (Errorf (''webhook dial: unresolvable address '' @ quoted host) [])
           | Some ip \<Rightarrow>
               if isDisallowedIP ip
               then Some (Errorf (''webhook dial: connection to disallowed IP '' @ ip_String E ip @ '' blocked (SSRF protection)'') [])
               else None))"

text \<open>
  A dialer with such a hook tries its addresses in order until one connects, and reports the first error
  when none does.  The second component lists the addresses to which a connection was begun.
\<close>

fun dialSerial ::
  "(string \<Rightarrow> go_error option) \<Rightarrow> (string \<Rightarrow> go_error option) \<Rightarrow> string list \<Rightarrow> go_error option \<Rightarrow> (go_error + string) \<times> string list" where
  "dialSerial control connect [] firstErr =
     (Inl (case firstErr of None \<Rightarrow> Errorf ''missing address'' [] | Some e \<Rightarrow> e), [])"
| "dialSerial control connect (a # as) firstErr =
     (case control a of
        Some e \<Rightarrow> dialSerial control connect as (if firstErr = None then Some e else firstErr)
      | None \<Rightarrow>
          (case connect a of
             None \<Rightarrow> (Inr a, [a])
           | Some e \<Rightarrow>
               (case dialSerial control connect as (if firstErr = None then Some e else firstErr) of (r, cs) \<Rightarrow> (r, a # cs))))"

text \<open>The two lists are tried one after the other, or in a race that the first connection wins.\<close>

definition dialParallel :: "attempt_env \<Rightarrow> (string \<Rightarrow> go_error option) \<Rightarrow> (go_error + string) \<times> string list" where
  "dialParallel E control =
     (case (dialSerial control (connect_err E) (primaries E) None, dialSerial control (connect_err E) (fallbacks E) None) of
        ((rp, cp), (rf, cf)) \<Rightarrow>
          if fallbacks E = [] then (rp, cp)
          else (case (rp, rf) of
            (Inr a, Inr b) \<Rightarrow>
              if fallback_early E then (Inr (if fallback_first E then b else a), cp @ cf) else (Inr a, cp)
          | (Inr a, Inl _) \<Rightarrow> (Inr a, if fallback_early E then cp @ cf else cp)
          | (Inl _, Inr b) \<Rightarrow> (Inr b, cp @ cf)
          | (Inl e, Inl _) \<Rightarrow> (Inl e, cp @ cf)))"

section \<open>The client\<close>

record delivery =
  d_headers :: "(string \<times> string) list"
  d_body :: string

text \<open>
  The client keeps open connections for later requests.  The two lists after them are a history: the
  addresses to which a connection was begun, and the requests that were written, with the address they
  went to.
\<close>

record client =
  idle :: "string list"
  begun :: "string list"
  sent :: "(string \<times> delivery) list"

definition is_redirect :: "http_response \<Rightarrow> bool" where
  "is_redirect r \<longleftrightarrow> StatusCode r \<in> {301, 302, 303, 307, 308} \<and> Location r \<noteq> []"

definition get_conn :: "attempt_env \<Rightarrow> (string \<Rightarrow> go_error option) \<Rightarrow> client \<Rightarrow> (go_error + string) \<times> client" where
  "get_conn E control cl =
     (case filter (alive E) (idle cl) of
        a # as \<Rightarrow> (Inr a, cl\<lparr>idle := as\<rparr>)
      | [] \<Rightarrow> (case dialParallel E control of (r, cs) \<Rightarrow> (r, cl\<lparr>idle := [], begun := begun cl @ cs\<rparr>)))"

text \<open>
  \<^verbatim>\<open>Client.Do\<close>.  Its errors are \<^verbatim>\<open>*url.Error\<close>s, which implement \<^verbatim>\<open>net.Error\<close>.  \<open>check\<close> is the client's
  \<^verbatim>\<open>CheckRedirect\<close>, asked when a response redirects; here it always refuses.
\<close>

definition client_Do ::
  "attempt_env \<Rightarrow> (string \<Rightarrow> go_error option) \<Rightarrow> go_error \<Rightarrow> string \<Rightarrow> string \<Rightarrow> delivery \<Rightarrow> client \<Rightarrow>
     (go_error + http_response) \<times> client" where
  "client_Do E control refusal meth url req cl =
     (let fail = (\<lambda>e. Inl (NetError (meth @ '' '' @ quoted (shown_url E url) @ '': '' @ err_msg e))) in
      case get_conn E control cl of
        (Inl e, cl') \<Rightarrow> (fail e, cl')
      | (Inr a, cl') \<Rightarrow>
          (let cl1 = cl'\<lparr>sent := sent cl' @ [(a, req)]\<rparr> in
           case exchange E a of
             Inl e \<Rightarrow> (fail e, cl1)
           | Inr resp \<Rightarrow>
               (let cl2 = (if kept_open E then cl1\<lparr>idle := a # idle cl1\<rparr> else cl1) in
                if is_redirect resp
                then (case location_err E (Location resp) of
                        Some e \<Rightarrow> (fail (Errorf (''failed to parse Location header '' @ quoted (Location resp) @ '': '' @ err_msg e) []), cl2)
                      | None \<Rightarrow> (fail refusal, cl2))
                else (Inr resp, cl2))))"

definition CheckRedirect :: go_error where
  "CheckRedirect = Errorf ''webhook: redirects are not allowed (SSRF protection)'' []"

section \<open>Signatures\<close>

definition SignatureHeader :: string where
  "SignatureHeader = ''X-MORF-Signature''"

definition SignatureTimestampHeader :: string where
  "SignatureTimestampHeader = ''X-MORF-Signature-Timestamp''"

definition signaturePrefix :: string where
  "signaturePrefix = ''sha256=''"

definition resolveWebhookSecret :: "(string \<Rightarrow> string) \<Rightarrow> string \<Rightarrow> string" where
  "resolveWebhookSecret getenv perJobSecret =
     (if perJobSecret \<noteq> [] then perJobSecret else getenv ''MORF_WEBHOOK_SECRET'')"

definition canonicalSigningString :: "string \<Rightarrow> string \<Rightarrow> string" where
  "canonicalSigningString timestamp body = timestamp @ ''.'' @ body"

definition generateWebhookSignature :: "string \<Rightarrow> string \<Rightarrow> string \<Rightarrow> string" where
  "generateWebhookSignature secret timestamp body =
     signaturePrefix @ hex_encode (hmac_sha256 (to_bytes secret) (to_bytes (canonicalSigningString timestamp body)))"

definition VerifyWebhookSignature :: "string \<Rightarrow> string \<Rightarrow> string \<Rightarrow> string \<Rightarrow> bool" where
  "VerifyWebhookSignature body sigHeader timestamp secret \<longleftrightarrow>
     (if secret = [] \<or> sigHeader = [] then False else generateWebhookSignature secret timestamp body = sigHeader)"

section \<open>The payload\<close>

record WebhookPayload =
  wp_JobID :: string
  wp_Status :: string
  wp_Result :: "gin_H option"
  wp_Error :: string
  wp_Timestamp :: go_time
  wp_SchemaVersion :: string

text \<open>\<^verbatim>\<open>json.Marshal\<close> of a time: RFC 3339 with as many digits of the fraction as are needed.\<close>

definition pad9 :: "nat \<Rightarrow> string" where
  "pad9 n = replicate (9 - length (show_nat n)) (CHR ''0'') @ show_nat n"

definition json_time :: "go_time \<Rightarrow> string" where
  "json_time t =
     (let s = format_rfc3339 t; z = format_zone (zone t);
          frac = rev (dropWhile (\<lambda>c. c = CHR ''0'') (rev (pad9 (nano t))))
      in take (length s - length z) s @ (if nano t = 0 then [] else ''.'' @ frac) @ z)"

definition marshal_payload :: "WebhookPayload \<Rightarrow> go_error + string" where
  "marshal_payload p =
     (if year (wp_Timestamp p) > 9999
      then Inl (Errorf ''json: error calling MarshalJSON for type time.Time: Time.MarshalJSON: year outside of range [0,9999]'' [])
      else
        (let fields = (\<lambda>res. marshal (JObj (
               [(''job_id'', JStr (wp_JobID p)), (''status'', JStr (wp_Status p))] @ res @
               (if wp_Error p = [] then [] else [(''error'', JStr (wp_Error p))]) @
               [(''timestamp'', JStr (json_time (wp_Timestamp p))), (''schema_version'', JStr (wp_SchemaVersion p))])))
         in case wp_Result p of
              None \<Rightarrow> Inr (fields [])
            | Some (Unencodable e) \<Rightarrow> Inl e
            | Some (Gin ms) \<Rightarrow> Inr (fields (if ms = [] then [] else [(''result'', JObj (sort_key fst ms))]))))"

section \<open>Delivery\<close>

definition signed_request :: "(string \<Rightarrow> string) \<Rightarrow> int \<Rightarrow> string \<Rightarrow> string \<Rightarrow> delivery" where
  "signed_request getenv unix secret payloadJSON =
     (let signingSecret = resolveWebhookSecret getenv secret;
          timestamp = show_int unix;
          plain = [(''Content-Type'', ''application/json''), (''User-Agent'', ''MORF-Webhook/1.0'')]
      in \<lparr>d_headers =
            (if signingSecret \<noteq> []
             then plain @ [(SignatureTimestampHeader, timestamp),
                           (SignatureHeader, generateWebhookSignature signingSecret timestamp payloadJSON)]
             else plain),
          d_body = payloadJSON\<rparr>)"

text \<open>The checks before the request repeat \<^const>\<open>ValidateWebhookURL\<close> word for word.\<close>

definition deliverWebhookWithContext ::
  "(string \<Rightarrow> string) \<Rightarrow> attempt_env \<Rightarrow> string \<Rightarrow> string \<Rightarrow> WebhookPayload \<Rightarrow> client \<Rightarrow> go_error option \<times> client" where
  "deliverWebhookWithContext getenv E webhookURL secret payload cl =
     (case ValidateWebhookURL E webhookURL of
        Some e \<Rightarrow> (Some e, cl)
      | None \<Rightarrow>
          (case marshal_payload payload of
             Inl e \<Rightarrow> (Some (Errorf (''failed to marshal payload: '' @ err_msg e) []), cl)
           | Inr payloadJSON \<Rightarrow>
               (case newRequest_err E of
                  Some e \<Rightarrow> (Some (Errorf (''failed to create request: '' @ err_msg e) []), cl)
                | None \<Rightarrow>
                    (case client_Do E (dial_Control E) CheckRedirect ''Post'' webhookURL
                            (signed_request getenv (unix_now E) secret payloadJSON) cl of
                       (Inl e, cl') \<Rightarrow> (Some (Errorf (''webhook delivery failed: '' @ err_msg e) []), cl')
                     | (Inr resp, cl') \<Rightarrow>
                         if StatusCode resp < 200 \<or> StatusCode resp \<ge> 300
                         then (Some (Errorf (''webhook returned non-success status: '' @ show_int (StatusCode resp)) []), cl')
                         else (None, cl')))))"

text \<open>Attempt number \<open>k\<close> meets the world \<open>Es k\<close>; the state of the retried function is the number of the next attempt and the client.\<close>

definition delivery_attempt ::
  "(string \<Rightarrow> string) \<Rightarrow> (nat \<Rightarrow> attempt_env) \<Rightarrow> string \<Rightarrow> string \<Rightarrow> WebhookPayload \<Rightarrow> nat \<times> client \<Rightarrow> go_error option \<times> nat \<times> client" where
  "delivery_attempt getenv Es webhookURL secret payload kc =
     (case kc of (k, cl) \<Rightarrow>
        (case deliverWebhookWithContext getenv (Es k) webhookURL secret payload cl of (err, cl') \<Rightarrow> (err, Suc k, cl')))"

definition webhook_retry_config :: "RetryConfig \<Rightarrow> RetryConfig" where
  "webhook_retry_config defaults = defaults\<lparr>MaxRetries := 3, InitialDelay := 2 * second_ns, MaxDelay := 30 * second_ns\<rparr>"

definition DeliverWebhookWithRetryCtx ::
  "retry_env \<Rightarrow> RetryConfig \<Rightarrow> (string \<Rightarrow> string) \<Rightarrow> (nat \<Rightarrow> attempt_env) \<Rightarrow> string \<Rightarrow> string \<Rightarrow> WebhookPayload \<Rightarrow> client \<Rightarrow>
     retry_result \<times> nat \<times> client" where
  "DeliverWebhookWithRetryCtx R defaults getenv Es webhookURL secret payload cl =
     (case RetryWithContext R (delivery_attempt getenv Es webhookURL secret payload) (webhook_retry_config defaults) (0, cl) of
        (r, n, _, _, cl') \<Rightarrow> (r, n, cl'))"

section \<open>No connection to an internal address\<close>

text \<open>An address of the network outside the internal blocks, in the form the dialer passes to its hook.\<close>

definition outside :: "string \<Rightarrow> bool" where
  "outside address \<longleftrightarrow>
     (\<exists>host port a. SplitHostPort address = Some (host, port) \<and> ParseIP host = Some a \<and> \<not> internal a)"

lemma dial_Control_outside: "dial_Control E address = None \<Longrightarrow> outside address"
  using disallowed_internal length_ParseIP
  by (fastforce simp: dial_Control_def outside_def split: option.splits prod.splits if_splits)

lemma dialSerial_control:
  assumes "dialSerial control connect as e = (r, cs)"
  shows "list_all (\<lambda>a. control a = None) cs \<and> (\<forall>a. r = Inr a \<longrightarrow> control a = None)"
  using assms
proof (induction as arbitrary: e r cs)
  case (Cons a as)
  show ?case
  proof (cases "control a")
    case None
    show ?thesis
    proof (cases "connect a")
      case (Some x)
      obtain r' cs' where rest: "dialSerial control connect as (if e = None then Some x else e) = (r', cs')"
        by (metis surj_pair)
      show ?thesis using Cons.prems None Cons.IH [OF rest] by (auto simp: Some rest)
    qed (use Cons.prems None in auto)
  next
    case (Some x)
    with Cons.prems have "dialSerial control connect as (if e = None then Some x else e) = (r, cs)" by simp
    then show ?thesis by (rule Cons.IH)
  qed
qed simp

lemma dialParallel_control:
  assumes "dialParallel E control = (r, cs)"
  shows "list_all (\<lambda>a. control a = None) cs \<and> (\<forall>a. r = Inr a \<longrightarrow> control a = None)"
proof -
  obtain rp cp rf cf where p: "dialSerial control (connect_err E) (primaries E) None = (rp, cp)"
    and f: "dialSerial control (connect_err E) (fallbacks E) None = (rf, cf)"
    by (metis surj_pair)
  show ?thesis
    using assms dialSerial_control [OF p] dialSerial_control [OF f]
    by (auto simp: dialParallel_def p f split: sum.splits if_splits)
qed

text \<open>Every connection the client holds, has begun or has used leads outside.\<close>

definition client_ok :: "client \<Rightarrow> bool" where
  "client_ok cl \<longleftrightarrow>
     list_all outside (idle cl) \<and> list_all outside (begun cl) \<and> list_all (\<lambda>(a, _). outside a) (sent cl)"

lemma get_conn_ok:
  assumes control: "\<And>a. control a = None \<Longrightarrow> outside a" and run: "get_conn E control cl = (r, cl')" and ok: "client_ok cl"
  shows "client_ok cl' \<and> (\<forall>a. r = Inr a \<longrightarrow> outside a)"
proof (cases "filter (alive E) (idle cl)")
  case Nil
  obtain r0 cs where d: "dialParallel E control = (r0, cs)" by (metis surj_pair)
  show ?thesis
    using run ok dialParallel_control [OF d]
    by (auto simp: get_conn_def Nil d client_ok_def list_all_iff dest: control)
next
  case (Cons a as)
  then have "set (a # as) \<subseteq> set (idle cl)" by (metis filter_is_subset)
  then show ?thesis using run ok by (auto simp: get_conn_def Cons client_ok_def list_all_iff)
qed

lemma client_Do_ok:
  assumes control: "\<And>a. control a = None \<Longrightarrow> outside a"
    and run: "client_Do E control refusal meth url req cl = (r, cl')" and ok: "client_ok cl"
  shows "client_ok cl'"
proof -
  obtain c cl0 where g: "get_conn E control cl = (c, cl0)" by (metis surj_pair)
  show ?thesis
    using run get_conn_ok [OF control g ok]
    by (auto simp: client_Do_def g Let_def client_ok_def split: sum.splits option.splits if_splits)
qed

lemma webhook_client_ok:
  assumes "client_Do E (dial_Control E) refusal meth url req cl = (r, cl')" "client_ok cl"
  shows "client_ok cl'"
  by (rule client_Do_ok [OF _ assms]) (rule dial_Control_outside)

lemma deliver_ok:
  assumes "client_ok cl"
  shows "client_ok (snd (deliverWebhookWithContext getenv E url secret payload cl))"
  using assms
  by (auto simp: deliverWebhookWithContext_def split: option.splits sum.splits prod.splits dest: webhook_client_ok)

lemma delivery_attempt_ok:
  assumes "client_ok (snd kc)"
  shows "client_ok (snd (snd (delivery_attempt getenv Es url secret payload kc)))"
  using deliver_ok [OF assms, of getenv "Es (fst kc)" url secret payload]
  by (cases kc) (auto simp: delivery_attempt_def split: prod.splits)

lemma attempts_ok:
  assumes "client_ok cl"
  shows "client_ok (snd (state_after (delivery_attempt getenv Es url secret payload) k (m, cl)))"
  by (induction k) (simp_all add: assms delivery_attempt_ok)

lemma webhook_run:
  assumes "DeliverWebhookWithRetryCtx R defaults getenv Es url secret payload cl = (r, n, cl')"
  shows "\<exists>k. retry_spec R (delivery_attempt getenv Es url secret payload) (webhook_retry_config defaults) (0, cl) r n (k, cl') \<and> n \<le> 4"
proof -
  let ?fn = "delivery_attempt getenv Es url secret payload" and ?cfg = "webhook_retry_config defaults"
  obtain ds k where run: "retry_loop R ?fn ?cfg 0 None [] (0, cl) = (r, n, ds, k, cl')"
    using assms by (auto simp: DeliverWebhookWithRetryCtx_def RetryWithContext_def split: prod.splits)
  have "retry_spec R ?fn ?cfg (0, cl) r n (k, cl') \<and> int n \<le> max 0 (MaxRetries ?cfg + 1)"
    by (rule retry_loop_spec [where k = 0 and l = None and ds = "[]" and ds' = ds])
      (simp add: run, simp_all add: retried_def last_ok_def webhook_retry_config_def)
  then show ?thesis by (auto simp: webhook_retry_config_def)
qed

text \<open>
  C26.  Delivering a webhook never begins a connection to an internal address and never sends it a request,
  whatever the URL is parsed to, whatever the name resolves to at the check and at the connection (DNS
  rebinding), whichever connections race or are reused, and whatever the receiver answers, redirects
  included, over all of its at most four attempts.
\<close>

theorem webhook_ssrf:
  assumes "client_ok cl" "DeliverWebhookWithRetryCtx R defaults getenv Es url secret payload cl = (r, n, cl')"
  shows "list_all outside (begun cl') \<and> list_all (\<lambda>(a, _). outside a) (sent cl') \<and> client_ok cl' \<and> n \<le> 4"
proof -
  obtain k where s: "retry_spec R (delivery_attempt getenv Es url secret payload) (webhook_retry_config defaults) (0, cl) r n (k, cl')"
    and n: "n \<le> 4"
    using webhook_run [OF assms(2)] by auto
  then have "(k, cl') = state_after (delivery_attempt getenv Es url secret payload) n (0, cl)" by (simp add: retry_spec_def)
  then have "client_ok cl'" using attempts_ok [OF assms(1)] by (metis snd_conv)
  then show ?thesis using n by (simp add: client_ok_def)
qed

section \<open>Signatures\<close>

lemma to_bytes_eq [simp]: "to_bytes a = to_bytes b \<longleftrightarrow> a = b"
  by (metis of_bytes_to_bytes)

lemma canonical_inj:
  assumes "CHR ''.'' \<notin> set t" "CHR ''.'' \<notin> set t'" "canonicalSigningString t b = canonicalSigningString t' b'"
  shows "t = t' \<and> b = b'"
proof -
  have "takeWhile (\<lambda>c. c \<noteq> CHR ''.'') (canonicalSigningString u d) = u" if "CHR ''.'' \<notin> set u" for u d
    using that by (induction u) (auto simp: canonicalSigningString_def)
  then have "t = t'" using assms by metis
  then show ?thesis using assms(3) by (simp add: canonicalSigningString_def)
qed

lemma show_int_no_dot: "CHR ''.'' \<notin> set (show_int i)"
proof -
  have "CHR ''.'' \<notin> set (show_nat n)" for n
    using show_nat_digits [of n] by (auto simp: list_all_iff is_digit_def)
  then show ?thesis by (simp add: show_int_def)
qed



section \<open>What is retried\<close>

text \<open>
  An attempt that fails to connect or to exchange is reported as text: the retry loop no longer sees a
  \<^verbatim>\<open>net.Error\<close>, which it would retry, and gives up after one attempt unless the text happens to contain
  one of its markers.
\<close>

definition retry_marker :: "string \<Rightarrow> bool" where
  "retry_marker s \<longleftrightarrow>
     str_contains s ''timeout'' \<or> str_contains s ''deadline exceeded'' \<or>
     contains_any (toLower s) [''500'', ''502'', ''503'', ''504'']"

lemma delivery_text_retryable:
  "IsRetryable (Some (Errorf s [])) \<longleftrightarrow> retry_marker s"
  by (simp add: IsRetryable_def ErrNonRetryable_def ErrRetryable_def is_net_error_def retry_marker_def)

theorem net_error_not_retried:
  assumes "ctx_check R 0 = None" "ValidateWebhookURL (Es 0) url = None" "marshal_payload payload = Inr body"
    and "newRequest_err (Es 0) = None"
    and "client_Do (Es 0) (dial_Control (Es 0)) CheckRedirect ''Post'' url (signed_request getenv (unix_now (Es 0)) secret body) cl = (Inl e, cl')"
    and "\<not> retry_marker (''webhook delivery failed: '' @ err_msg e)"
  shows "IsRetryable (Some e) \<and>
    DeliverWebhookWithRetryCtx R defaults getenv Es url secret payload cl =
      (Failed (Errorf (''webhook delivery failed: '' @ err_msg e) []), 1, cl')"
proof -
  have "\<exists>s. e = NetError s"
    using assms(5) by (auto simp: client_Do_def Let_def split: prod.splits sum.splits option.splits if_splits)
  then have "IsRetryable (Some e)"
    by (auto simp: IsRetryable_def ErrNonRetryable_def ErrRetryable_def is_net_error_def)
  moreover have "delivery_attempt getenv Es url secret payload (0, cl) =
      (Some (Errorf (''webhook delivery failed: '' @ err_msg e) []), 1, cl')"
    using assms(2-5) by (simp add: delivery_attempt_def deliverWebhookWithContext_def)
  ultimately show ?thesis
    using assms(1,6)
    by (simp add: DeliverWebhookWithRetryCtx_def RetryWithContext_def retry_loop.simps webhook_retry_config_def
        delivery_text_retryable)
qed

section \<open>An example\<close>

text \<open>A host name whose second resolution answers with the metadata address.\<close>

definition rebinding :: attempt_env where
  "rebinding =
     \<lparr>url_Parse = (\<lambda>_. Inr \<lparr>Scheme = ''http'', User = None, Hostname = ''h.test'', Port = [], Path = ''/x'', RawQuery = [], Fragment = []\<rparr>), url_String = Path, url_Query = (\<lambda>_. []), values_Encode = (\<lambda>_. []), shown_url = (\<lambda>u. u),
      LookupIPAddr = (\<lambda>_. Inr [[93, 184, 216, 34]]), ip_String = (\<lambda>_. ''169.254.169.254''), split_err = (\<lambda>_. ''bad''),
      newRequest_err = None, unix_now = 1700000000, alive = (\<lambda>_. True), primaries = [''169.254.169.254:80''],
      fallbacks = [''93.184.216.34:80''], fallback_early = True, fallback_first = False,
      connect_err = (\<lambda>_. Some (Errorf ''connection refused'' [])), exchange = (\<lambda>_. Inl (Errorf ''EOF'' [])),
      kept_open = False, location_err = (\<lambda>_. None)\<rparr>"

definition some_payload :: WebhookPayload where
  "some_payload =
     \<lparr>wp_JobID = ''j'', wp_Status = ''failed'', wp_Result = None, wp_Error = ''x'',
      wp_Timestamp = \<lparr>year = 2026, month = 1, day = 2, hour = 3, minute = 4, second = 5, nano = 0, zone = 0\<rparr>,
      wp_SchemaVersion = ''2''\<rparr>"

definition fresh_client :: client where
  "fresh_client = \<lparr>idle = [], begun = [], sent = []\<rparr>"

definition no_waits :: retry_env where
  "no_waits = \<lparr>ctx_check = (\<lambda>_. None), ctx_wait = (\<lambda>_. None), jitter_rnd = (\<lambda>_. 0), to_duration = (\<lambda>_. 0)\<rparr>"

definition plain_defaults :: RetryConfig where
  "plain_defaults = \<lparr>MaxRetries = 3, InitialDelay = second_ns, MaxDelay = 30 * second_ns, Multiplier = 2, Jitter = True\<rparr>"

lemma rebinding_validated: "ValidateWebhookURL rebinding ''http://h.test/x'' = None"
  by code_simp

lemma rebinding_dial:
  "client_Do rebinding (dial_Control rebinding) CheckRedirect ''Post'' ''http://h.test/x'' req fresh_client =
     (Inl (NetError (''Post '' @ quoted ''http://h.test/x'' @
        '': webhook dial: connection to disallowed IP 169.254.169.254 blocked (SSRF protection)'')),
      fresh_client\<lparr>begun := [''93.184.216.34:80'']\<rparr>)"
proof -
  have "dialParallel rebinding (dial_Control rebinding) =
      (Inl (Errorf ''webhook dial: connection to disallowed IP 169.254.169.254 blocked (SSRF protection)'' []), [''93.184.216.34:80''])"
    by code_simp
  then show ?thesis by (simp add: client_Do_def get_conn_def fresh_client_def rebinding_def Let_def)
qed

lemma some_payload_marshal: "\<exists>body. marshal_payload some_payload = Inr body"
  by (simp add: marshal_payload_def some_payload_def Let_def)

definition blocked_text :: string where
  "blocked_text = ''Post '' @ quoted ''http://h.test/x'' @
     '': webhook dial: connection to disallowed IP 169.254.169.254 blocked (SSRF protection)''"

lemma blocked_text_unmarked: "\<not> retry_marker (''webhook delivery failed: '' @ blocked_text)"
  by code_simp

theorem net_error_not_retried_witness:
  "IsRetryable (Some (NetError blocked_text)) \<and>
   DeliverWebhookWithRetryCtx no_waits plain_defaults (\<lambda>_. []) (\<lambda>_. rebinding) ''http://h.test/x'' [] some_payload fresh_client =
     (Failed (Errorf (''webhook delivery failed: '' @ blocked_text) []), 1, fresh_client\<lparr>begun := [''93.184.216.34:80'']\<rparr>)"
proof -
  obtain body where body: "marshal_payload some_payload = Inr body" using some_payload_marshal by blast
  have "ctx_check no_waits 0 = None" "newRequest_err rebinding = None" by (simp_all add: no_waits_def rebinding_def)
  then show ?thesis
    using net_error_not_retried [of no_waits "\<lambda>_. rebinding" "''http://h.test/x''" some_payload body "\<lambda>_. []" "[]" fresh_client
        "NetError blocked_text" "fresh_client\<lparr>begun := [''93.184.216.34:80'']\<rparr>" plain_defaults]
      rebinding_validated rebinding_dial [folded blocked_text_def] body blocked_text_unmarked
    by simp
qed

theorem webhook_ssrf_witness:
  "\<exists>r n cl'. DeliverWebhookWithRetryCtx no_waits plain_defaults (\<lambda>_. []) (\<lambda>_. rebinding) ''http://h.test/x'' [] some_payload fresh_client
      = (r, n, cl') \<and> list_all outside (begun cl') \<and> n \<le> 4"
proof -
  obtain r n cl' where run: "DeliverWebhookWithRetryCtx no_waits plain_defaults (\<lambda>_. []) (\<lambda>_. rebinding) ''http://h.test/x'' []
      some_payload fresh_client = (r, n, cl')" by (metis surj_pair)
  have "client_ok fresh_client" by (simp add: client_ok_def fresh_client_def)
  from webhook_ssrf [OF this run] show ?thesis using run by blast
qed

end
