(* ===== verification/Local_Storage.thy ===== *)
theory Local_Storage
  imports Scan_Stage
begin

text \<open>
  The artifact store on the local file system (storage/local.go) and the choice of the backend
  (storage/storage.go).  A file system maps absolute paths to nodes; the errors the operating system can
  raise at each call, and the suffix it picks for a temporary file, are parameters of an operation.
\<close>

section \<open>The file system\<close>

type_synonym fs = "string \<rightharpoonup> fnode"

record os_faults =
  getwd :: "go_error + string"
  mkdir_fault :: "(go_error \<times> nat) option"
  create_fault :: "go_error option"
  tmp_suffix :: string
  write_fault :: "(go_error \<times> nat) option"
  sync_fault :: "go_error option"
  tmp_close_fault :: "go_error option"
  rename_fault :: "go_error option"
  remove_fault :: "go_error option"
  open_fault :: "go_error option"
  stat_fault :: "go_error option"

text \<open>A reader: the bytes it delivers and the error after them, if it does not end with \<^verbatim>\<open>io.EOF\<close>.\<close>

record reader =
  rd_data :: string
  rd_err :: "go_error option"

definition io_EOF :: go_error where
  "io_EOF = Sentinel ''EOF''"

definition os_ErrNotExist :: go_error where
  "os_ErrNotExist = Sentinel ''file does not exist''"

text \<open>The path itself and the directories above it, outermost first.\<close>

definition ancestors :: "string \<Rightarrow> string list" where
  "ancestors p = map (\<lambda>n. below ''/'' (take n (clean_elems p))) [0..<Suc (length (clean_elems p))]"

definition mkdirs :: "string list \<Rightarrow> fs \<Rightarrow> fs" where
  "mkdirs ds f = (\<lambda>p. if p \<in> set ds \<and> f p = None then Some Dir else f p)"

text \<open>
  \<^verbatim>\<open>os.MkdirAll\<close>: a file in the way is an error; a fault may strike after some directories were made.
\<close>

definition os_MkdirAll :: "os_faults \<Rightarrow> string \<Rightarrow> fs \<Rightarrow> go_error option \<times> fs" where
  "os_MkdirAll F dir f =
     (case find (\<lambda>p. f p \<noteq> None \<and> f p \<noteq> Some Dir) (ancestors dir) of
        Some p \<Rightarrow> (Some (Errorf (''mkdir '' @ p @ '': not a directory'') []), f)
      | None \<Rightarrow>
          (case mkdir_fault F of
             Some (e, n) \<Rightarrow> (Some e, mkdirs (take n (ancestors dir)) f)
           | None \<Rightarrow> (None, mkdirs (ancestors dir) f)))"

definition os_Rename :: "os_faults \<Rightarrow> string \<Rightarrow> string \<Rightarrow> fs \<Rightarrow> go_error option \<times> fs" where
  "os_Rename F old new f =
     (case rename_fault F of
        Some e \<Rightarrow> (Some e, f)
      | None \<Rightarrow>
          (if f new = Some Dir then (Some (Errorf (''rename '' @ old @ '' '' @ new @ '': file exists'') []), f)
           else (None, (f(old := None))(new := f old))))"

text \<open>\<^verbatim>\<open>os.Remove\<close>: \<open>occupied d\<close> tells whether the directory \<open>d\<close> has entries.\<close>

definition os_Remove :: "os_faults \<Rightarrow> (string \<Rightarrow> bool) \<Rightarrow> string \<Rightarrow> fs \<Rightarrow> go_error option \<times> fs" where
  "os_Remove F occupied p f =
     (case remove_fault F of
        Some e \<Rightarrow> (Some e, f)
      | None \<Rightarrow>
          (case f p of
             None \<Rightarrow> (Some (Errorf (''remove '' @ p @ '': no such file or directory'') [os_ErrNotExist]), f)
           | Some Dir \<Rightarrow>
               if occupied p then (Some (Errorf (''remove '' @ p @ '': directory not empty'') []), f)
               else (None, f(p := None))
           | Some (File _) \<Rightarrow> (None, f(p := None))))"

text \<open>
  \<^verbatim>\<open>io.CopyN\<close> (a sz is given) and \<^verbatim>\<open>io.Copy\<close>: what was written, and the error; a failing write stops the
  copy after some bytes.
\<close>

definition io_copy :: "os_faults \<Rightarrow> reader \<Rightarrow> int \<Rightarrow> string \<times> go_error option" where
  "io_copy F r sz =
     (let want = (if sz \<ge> 0 then take (nat sz) (rd_data r) else rd_data r);
          err = (if sz \<ge> 0 \<and> length want = nat sz then None
                 else case rd_err r of Some e \<Rightarrow> Some e | None \<Rightarrow> if sz \<ge> 0 then Some io_EOF else None)
      in case write_fault F of
           Some (e, n) \<Rightarrow> if n < length want then (take n want, Some e) else (want, err)
         | None \<Rightarrow> (want, err))"

section \<open>The local backend\<close>

record LocalStorage =
  ls_base :: string

definition DefaultUploadDir :: string where
  "DefaultUploadDir = ''/tmp/morf/uploads''"

definition storage_errf :: "string \<Rightarrow> string \<Rightarrow> go_error \<Rightarrow> go_error" where
  "storage_errf what name e = Errorf (''storage: '' @ what @ quoted name @ '': '' @ err_msg e) [e]"

definition NewLocalStorage :: "os_faults \<Rightarrow> string \<Rightarrow> fs \<Rightarrow> (go_error + LocalStorage) \<times> fs" where
  "NewLocalStorage F dir f =
     (let base = (if trimSpace dir = [] then DefaultUploadDir else trimSpace dir) in
      case abs_path (getwd F) base of
        Inl e \<Rightarrow> (Inl (storage_errf ''resolving upload dir '' base e), f)
      | Inr absDir \<Rightarrow>
          (case os_MkdirAll F absDir f of
             (Some e, f1) \<Rightarrow> (Inl (storage_errf ''creating upload dir '' absDir e), f1)
           | (None, f1) \<Rightarrow> (Inr \<lparr>ls_base = absDir\<rparr>, f1)))"

definition sanitizeKey :: "string \<Rightarrow> go_error + string" where
  "sanitizeKey key =
     (if trimSpace key = [] then Inl (Sentinel ''storage: empty key'')
      else if isAbs key \<or> hasPrefix key ''/'' then Inl (Errorf (''storage: absolute key not allowed: '' @ quoted key) [])
      else (let cleaned = path_clean key in
        if ''..'' \<in> set (str_split cleaned (CHR ''/''))
        then Inl (Errorf (''storage: key '' @ quoted key @ '' must not contain a '' @ quoted ''..'' @ '' path segment'') [])
        else Inr cleaned))"

definition ls_resolve :: "LocalStorage \<Rightarrow> string \<Rightarrow> go_error + string" where
  "ls_resolve l key = (case sanitizeKey key of Inl e \<Rightarrow> Inl e | Inr rel \<Rightarrow> Inr (path_join [ls_base l, rel]))"

definition tmp_of :: "os_faults \<Rightarrow> string \<Rightarrow> string" where
  "tmp_of F dir = path_join [dir, ''.morf-tmp-'' @ tmp_suffix F]"

text \<open>
  \<^verbatim>\<open>Put\<close> after its directory is made: the bytes go to a temporary file, which is renamed into place; on
  every failure in between, the deferred function removes it.
\<close>

definition put_file ::
  "os_faults \<Rightarrow> string \<Rightarrow> string \<Rightarrow> string \<Rightarrow> reader \<Rightarrow> int \<Rightarrow> fs \<Rightarrow> go_error option \<times> fs" where
  "put_file F key dir full r sz f =
     (case create_fault F of
        Some e \<Rightarrow> (Some (Errorf (''storage: creating temp file: '' @ err_msg e) [e]), f)
      | None \<Rightarrow>
          (let tmpName = tmp_of F dir;
               (data, copyErr) = io_copy F r sz;
               f1 = f(tmpName \<mapsto> File data);
               undone = snd (os_Remove F (\<lambda>_. False) tmpName f1)
           in case copyErr of
                Some e \<Rightarrow> (Some (storage_errf ''writing '' key e), undone)
              | None \<Rightarrow>
                  (case sync_fault F of
                     Some e \<Rightarrow> (Some (storage_errf ''syncing '' key e), undone)
                   | None \<Rightarrow>
                       (case tmp_close_fault F of
                          Some e \<Rightarrow> (Some (storage_errf ''closing temp for '' key e), undone)
                        | None \<Rightarrow>
                            (case os_Rename F tmpName full f1 of
                               (Some e, _) \<Rightarrow> (Some (storage_errf ''committing '' key e), undone)
                             | (None, f2) \<Rightarrow> (None, f2))))))"

definition ls_Put ::
  "os_faults \<Rightarrow> LocalStorage \<Rightarrow> go_error option \<Rightarrow> string \<Rightarrow> reader \<Rightarrow> int \<Rightarrow> fs \<Rightarrow> go_error option \<times> fs" where
  "ls_Put F l ctxErr key r sz f =
     (case ctxErr of
        Some e \<Rightarrow> (Some e, f)
      | None \<Rightarrow>
          (case ls_resolve l key of
             Inl e \<Rightarrow> (Some e, f)
           | Inr full \<Rightarrow>
               (let dir = path_dir full in
                case os_MkdirAll F dir f of
                  (Some e, f1) \<Rightarrow> (Some (storage_errf ''creating dir '' dir e), f1)
                | (None, f1) \<Rightarrow> put_file F key dir full r sz f1)))"

definition ErrNotExist :: go_error where
  "ErrNotExist = Sentinel ''storage: object does not exist''"

definition missing :: "string \<Rightarrow> go_error" where
  "missing key = Errorf (err_msg ErrNotExist @ '': '' @ quoted key) [ErrNotExist]"

text \<open>The reader \<^verbatim>\<open>Open\<close> returns, by its bytes; reading from a directory fails.\<close>

definition ls_Open :: "os_faults \<Rightarrow> LocalStorage \<Rightarrow> go_error option \<Rightarrow> string \<Rightarrow> fs \<Rightarrow> go_error + reader" where
  "ls_Open F l ctxErr key f =
     (case ctxErr of
        Some e \<Rightarrow> Inl e
      | None \<Rightarrow>
          (case ls_resolve l key of
             Inl e \<Rightarrow> Inl e
           | Inr full \<Rightarrow>
               (case open_fault F of
                  Some e \<Rightarrow> Inl e
                | None \<Rightarrow>
                    (case f full of
                       None \<Rightarrow> Inl (missing key)
                     | Some (File d) \<Rightarrow> Inr \<lparr>rd_data = d, rd_err = None\<rparr>
                     | Some Dir \<Rightarrow> Inr \<lparr>rd_data = [], rd_err = Some (Errorf (''read '' @ full @ '': is a directory'') [])\<rparr>))))"

definition ls_Delete ::
  "os_faults \<Rightarrow> (string \<Rightarrow> bool) \<Rightarrow> LocalStorage \<Rightarrow> go_error option \<Rightarrow> string \<Rightarrow> fs \<Rightarrow> go_error option \<times> fs" where
  "ls_Delete F occupied l ctxErr key f =
     (case ctxErr of
        Some e \<Rightarrow> (Some e, f)
      | None \<Rightarrow>
          (case ls_resolve l key of
             Inl e \<Rightarrow> (Some e, f)
           | Inr full \<Rightarrow>
               (case os_Remove F occupied full f of
                  (Some e, f1) \<Rightarrow> if errors_is e os_ErrNotExist then (None, f1) else (Some (storage_errf ''deleting '' key e), f1)
                | (None, f1) \<Rightarrow> (None, f1))))"

definition ls_Stat :: "os_faults \<Rightarrow> (string \<Rightarrow> int) \<Rightarrow> LocalStorage \<Rightarrow> go_error option \<Rightarrow> string \<Rightarrow> fs \<Rightarrow> go_error + int" where
  "ls_Stat F dirSize l ctxErr key f =
     (case ctxErr of
        Some e \<Rightarrow> Inl e
      | None \<Rightarrow>
          (case ls_resolve l key of
             Inl e \<Rightarrow> Inl e
           | Inr full \<Rightarrow>
               (case stat_fault F of
                  Some e \<Rightarrow> Inl e
                | None \<Rightarrow>
                    (case f full of
                       None \<Rightarrow> Inl (missing key)
                     | Some (File d) \<Rightarrow> Inr (int (length d))
                     | Some Dir \<Rightarrow> Inr (dirSize full)))))"

definition ls_LocalPath :: "LocalStorage \<Rightarrow> string \<Rightarrow> string option" where
  "ls_LocalPath l key =
     (case sanitizeKey key of Inl _ \<Rightarrow> None | Inr rel \<Rightarrow> Some (path_join [ls_base l, rel]))"

section \<open>Choosing the backend\<close>

datatype ('l, 'r) backend = LocalBackend 'l | S3Backend 'r

definition backend_name :: "(string \<Rightarrow> string) \<Rightarrow> string" where
  "backend_name E = toLower (trimSpace (E ''MORF_STORAGE_BACKEND''))"

definition NewFromEnv ::
  "os_faults \<Rightarrow> (string \<Rightarrow> string) \<Rightarrow> (go_error + 'r) \<Rightarrow> fs \<Rightarrow> (go_error + (LocalStorage, 'r) backend) \<times> fs" where
  "NewFromEnv F E newS3 f =
     (let b = backend_name E in
      if b = [] \<or> b = ''local'' then
        (case NewLocalStorage F (E ''MORF_UPLOAD_DIR'') f of (r, f1) \<Rightarrow> (map_sum id LocalBackend r, f1))
      else if b = ''s3'' then (map_sum id S3Backend newS3, f)
      else (Inl (Errorf (''storage: unknown MORF_STORAGE_BACKEND '' @ quoted b @ '' (want '' @ quoted ''local''
                  @ '' or '' @ quoted ''s3'' @ '')'') []), f))"

definition ValidateConfiguredBackend ::
  "os_faults \<Rightarrow> (string \<Rightarrow> string) \<Rightarrow> (go_error + 'r) \<Rightarrow> fs \<Rightarrow> go_error option \<times> fs" where
  "ValidateConfiguredBackend F E newS3 f =
     (let b = backend_name E in
      if b = [] \<or> b = ''local'' then (None, f)
      else case NewFromEnv F E newS3 f of
        (Inl e, f1) \<Rightarrow> (Some (Errorf (''MORF_STORAGE_BACKEND='' @ quoted b @ '' is misconfigured: '' @ err_msg e) [e]), f1)
      | (Inr _, f1) \<Rightarrow> (None, f1))"

section \<open>Keys stay in the store\<close>

text \<open>
  The elements of the cleaned key.  A key is accepted exactly when it is not blank, not absolute and has
  no parent element left after cleaning; it then names a place at or below the base directory.
\<close>

lemma split_clean:
  assumes "\<not> isAbs p"
  shows "str_split (path_clean p) (CHR ''/'') = (if clean_elems p = [] then [''.''] else clean_elems p)"
proof (cases "clean_elems p = []")
  case True
  then have "path_clean p = ''.''" using assms by (simp add: path_clean_def)
  then show ?thesis using True by simp
next
  case False
  obtain n xs where s: "clean_elems p = replicate n ''..'' @ xs" "plain_elems xs" using clean_elems_shape by blast
  have "CHR ''/'' \<notin> set e" if "e \<in> set (clean_elems p)" for e
  proof -
    from that have "e = ''..'' \<or> e \<in> set xs" unfolding s(1) by (simp add: set_replicate_conv_if split: if_splits)
    then show ?thesis using s(2) plain_elem_def by fastforce
  qed
  then have "str_split (str_join ''/'' (clean_elems p)) (CHR ''/'') = clean_elems p" using False by (intro str_split_join) auto
  with False assms show ?thesis by (simp add: path_clean_def)
qed

lemma sanitize_iff:
  "sanitizeKey key = Inr rel \<longleftrightarrow>
     trimSpace key \<noteq> [] \<and> \<not> isAbs key \<and> plain_elems (clean_elems key) \<and> rel = path_clean key"
proof -
  have "plain_elems (clean_elems key) \<longleftrightarrow> ''..'' \<notin> set (clean_elems key)" if "\<not> isAbs key"
  proof -
    obtain n xs where s: "clean_elems key = replicate n ''..'' @ xs" "plain_elems xs" using clean_elems_shape by blast
    then show ?thesis by (cases n) auto
  qed
  then show ?thesis
    using split_clean [of key] by (auto simp: sanitizeKey_def isAbs_def Let_def)
qed

lemma resolve_below:
  assumes "isAbs (ls_base l)" "sanitizeKey key = Inr rel"
  shows "ls_resolve l key = Inr (if clean_elems key = [] then path_clean (ls_base l) else below (ls_base l) (clean_elems key))"
proof -
  have key: "\<not> isAbs key" "plain_elems (clean_elems key)" "rel = path_clean key" using assms(2) by (simp_all add: sanitize_iff)
  show ?thesis
  proof (cases "clean_elems key = []")
    case True
    have "path_join [ls_base l, ''.''] = path_clean (ls_base l)"
    proof -
      have ne: "ls_base l \<noteq> []" using assms(1) by (rule isAbs_nonempty)
      have abs: "isAbs (ls_base l @ ''/.'')" using ne assms(1) by (cases "ls_base l") (simp_all add: isAbs_def)
      have "clean_elems (ls_base l @ ''/.'') = clean_elems (ls_base l)"
        using str_split_append [of "ls_base l" "CHR ''/''" "''.''"] abs assms(1) by (simp add: clean_elems_def)
      with ne abs assms(1) show ?thesis by (simp add: path_join_pair path_clean_def)
    qed
    with True key assms(2) show ?thesis by (simp add: ls_resolve_def path_clean_def)
  next
    case False
    then show ?thesis using key assms path_join_below [OF assms(1) False key(2)]
      by (simp add: ls_resolve_def path_clean_def)
  qed
qed

text \<open>
  C38.  Whatever key is presented, the backend works on a path whose elements are those of the base
  directory followed by plain elements, none of them a parent element; two accepted keys name the same
  path exactly when they have the same elements after cleaning.
\<close>

theorem keys_contained:
  assumes "isAbs (ls_base l)" "ls_resolve l key = Inr full"
  shows "\<exists>es. clean_elems full = clean_elems (ls_base l) @ es \<and> isAbs full \<and> plain_elems es \<and>
           ls_LocalPath l key = Some full \<and>
           (\<forall>key' full'. ls_resolve l key' = Inr full' \<longrightarrow> (full' = full \<longleftrightarrow> clean_elems key' = clean_elems key))"
proof -
  have acc: "\<exists>rel. sanitizeKey k = Inr rel" if "ls_resolve l k = Inr p" for k p
    using that by (auto simp: ls_resolve_def split: sum.splits)
  have el: "clean_elems p = clean_elems (ls_base l) @ clean_elems k \<and> isAbs p \<and> plain_elems (clean_elems k) \<and>
      p = below (ls_base l) (clean_elems k)" if res: "ls_resolve l k = Inr p" for k p
  proof -
    obtain rel where rel: "sanitizeKey k = Inr rel" using acc [OF res] by blast
    then have pl: "plain_elems (clean_elems k)" by (simp add: sanitize_iff)
    have "path_clean (ls_base l) = below (ls_base l) []" using assms(1) by (simp add: path_clean_def below_def)
    with resolve_below [OF assms(1) rel] res have "p = below (ls_base l) (clean_elems k)" by (auto split: if_splits)
    then show ?thesis using below_elems [OF assms(1) pl] pl by simp
  qed
  obtain rel where rel: "sanitizeKey key = Inr rel" using acc [OF assms(2)] by blast
  have "ls_LocalPath l key = Some full" using assms(2) rel by (simp add: ls_LocalPath_def ls_resolve_def)
  moreover have "full' = full \<longleftrightarrow> clean_elems key' = clean_elems key" if "ls_resolve l key' = Inr full'" for key' full'
    using el [OF that] el [OF assms(2)] below_inj [OF assms(1)] by metis
  ultimately show ?thesis using el [OF assms(2)] by (intro exI [of _ "clean_elems key"]) blast
qed

section \<open>Writing is atomic\<close>

definition wanted :: "reader \<Rightarrow> int \<Rightarrow> string" where
  "wanted r sz = (if sz \<ge> 0 then take (nat sz) (rd_data r) else rd_data r)"

definition whole :: "reader \<Rightarrow> int \<Rightarrow> bool" where
  "whole r sz \<longleftrightarrow> (if sz \<ge> 0 then nat sz \<le> length (rd_data r) else rd_err r = None)"

lemma io_copy_done: "io_copy F r sz = (d, None) \<Longrightarrow> d = wanted r sz \<and> whole r sz"
  by (auto simp: io_copy_def wanted_def whole_def Let_def split: option.splits if_splits prod.splits)

lemma put_file_effect:
  assumes "put_file F key dir full r sz f = (err, f')" "f (tmp_of F dir) = None" "remove_fault F = None"
  shows "case err of
           None \<Rightarrow> f' = f(full \<mapsto> File (wanted r sz)) \<and> whole r sz
         | Some e \<Rightarrow> f' = f"
proof -
  let ?t = "tmp_of F dir"
  have restore: "f(?t := None) = f" using assms(2) by (rule fun_upd_idem)
  have undo: "snd (os_Remove F (\<lambda>_. False) ?t (f(?t \<mapsto> File d))) = f" for d
    using restore assms(3) by (simp add: os_Remove_def)
  have ren: "f2 = f(full \<mapsto> File d)" if "os_Rename F ?t full (f(?t \<mapsto> File d)) = (None, f2)" for d f2
    using that restore by (simp add: os_Rename_def split: option.splits if_splits)
  obtain d ce where c: "io_copy F r sz = (d, ce)" by fastforce
  obtain re f2 where mv: "os_Rename F ?t full (f(?t \<mapsto> File d)) = (re, f2)" by fastforce
  show ?thesis
  proof (cases "create_fault F = None \<and> ce = None \<and> sync_fault F = None \<and> tmp_close_fault F = None \<and> re = None")
    case True
    then have "err = None \<and> f' = f2"
      using assms(1) c mv by (simp add: put_file_def Let_def)
    with True ren [of d f2] mv io_copy_done [of F r sz d] c show ?thesis by simp
  next
    case False
    then have "err \<noteq> None \<and> f' = f"
      using assms(1) c mv undo [of d]
      by (cases "create_fault F"; cases ce; cases "sync_fault F"; cases "tmp_close_fault F"; cases re)
         (auto simp: put_file_def Let_def)
    then show ?thesis by auto
  qed
qed

lemma ancestors_elems:
  assumes "isAbs p" "q \<in> set (ancestors p)"
  shows "\<exists>n\<le>length (clean_elems p). clean_elems q = take n (clean_elems p)"
proof -
  obtain n where n: "n \<le> length (clean_elems p)" "q = below ''/'' (take n (clean_elems p))"
    using assms(2) by (auto simp: ancestors_def less_Suc_eq_le simp del: upt_Suc)
  have "plain_elems (take n (clean_elems p))"
  proof
    fix e assume "e \<in> set (take n (clean_elems p))"
    then have "e \<in> set (clean_elems p)" by (rule in_set_takeD)
    with rooted_elems [OF assms(1)] show "plain_elem e \<and> e \<noteq> ''..''" by (rule bspec)
  qed
  then have "clean_elems q = clean_elems ''/'' @ take n (clean_elems p)"
    unfolding n(2) by (intro below_elems(1)) (simp add: isAbs_def)
  moreover have "clean_elems ''/'' = []" by (simp add: clean_elems_def)
  ultimately show ?thesis using n(1) by auto
qed

lemma mkdir_effect:
  assumes "os_MkdirAll F dir f = (err, f')"
  shows "f' p = f p \<or> f p = None \<and> f' p = Some Dir \<and> p \<in> set (ancestors dir)"
  using assms by (auto simp: os_MkdirAll_def mkdirs_def split: option.splits prod.splits if_splits dest: in_set_takeD)

lemma deeper_not_ancestor:
  assumes "isAbs dir" "plain_elems es" "es \<noteq> []"
  shows "below dir es \<notin> set (ancestors dir)"
proof
  assume "below dir es \<in> set (ancestors dir)"
  from ancestors_elems [OF assms(1) this] obtain n where "clean_elems dir @ es = take n (clean_elems dir)"
    by (auto simp: below_elems(1) [OF assms(1,2)])
  then have "length (clean_elems dir @ es) \<le> length (clean_elems dir)" by (metis length_take min.cobounded1)
  with assms(3) show False by simp
qed

text \<open>
  Where \<^verbatim>\<open>Put\<close> works: the directory of the file and the temporary file in it.
\<close>

lemma put_places:
  assumes base: "isAbs (ls_base l)" and res: "ls_resolve l key = Inr full" and ne: "clean_elems key \<noteq> []"
  obtains dir e where "isAbs dir" "path_dir full = dir" "plain_elem e" "e \<noteq> ''..''" "full = below dir [e]" "full \<notin> set (ancestors dir)"
proof -
  obtain rel where "sanitizeKey key = Inr rel" using res by (auto simp: ls_resolve_def split: sum.splits)
  from resolve_below [OF base this] res ne have full: "full = below (ls_base l) (clean_elems key)" by simp
  have pl: "plain_elems (clean_elems key)" using \<open>sanitizeKey key = Inr rel\<close> by (simp add: sanitize_iff)
  let ?es = "butlast (clean_elems key)" and ?e = "last (clean_elems key)"
  let ?dir = "below (ls_base l) ?es"
  have split: "clean_elems key = ?es @ [?e]" using ne by simp
  have pe: "plain_elem ?e" "?e \<noteq> ''..''" using pl ne by simp_all
  have pes: "plain_elems ?es"
  proof
    fix e assume "e \<in> set ?es"
    then have "e \<in> set (clean_elems key)" by (rule in_set_butlastD)
    with pl show "plain_elem e \<and> e \<noteq> ''..''" by (rule bspec)
  qed
  note dir = below_elems [OF base pes]
  have d: "path_dir full = ?dir" using path_dir_below [OF base pes pe] full split by simp
  have f: "full = below ?dir [?e]" unfolding full by (simp add: below_def [of ?dir] dir(1) ne below_def [of "ls_base l" "clean_elems key"])
  have "full \<notin> set (ancestors ?dir)" unfolding f using pe by (intro deeper_not_ancestor dir(2)) simp_all
  with that dir(2) d pe f show thesis by blast
qed

lemma ls_put_effect:
  assumes base: "isAbs (ls_base l)" and res: "ls_resolve l key = Inr full" and ne: "clean_elems key \<noteq> []"
    and fresh: "f (tmp_of F (path_dir full)) = None" "tmp_of F (path_dir full) \<notin> set (ancestors (path_dir full))"
    and rm: "remove_fault F = None"
    and run: "ls_Put F l None key r sz f = (err, f')"
  shows "(case err of
            None \<Rightarrow> f' full = Some (File (wanted r sz)) \<and> whole r sz
          | Some e \<Rightarrow> f' full = f full) \<and>
         (\<forall>p. p \<noteq> full \<longrightarrow> f' p = f p \<or> f p = None \<and> f' p = Some Dir \<and> p \<in> set (ancestors (path_dir full)))"
proof -
  let ?d = "path_dir full"
  obtain me f1 where mk: "os_MkdirAll F ?d f = (me, f1)" by fastforce
  have f1: "f1 p = f p \<or> f p = None \<and> f1 p = Some Dir \<and> p \<in> set (ancestors ?d)" for p
    by (rule mkdir_effect [OF mk])
  from put_places [OF base res ne] have "full \<notin> set (ancestors ?d)" by metis
  with f1 [of full] have full: "f1 full = f full" by blast
  have tmp: "f1 (tmp_of F ?d) = None" using f1 [of "tmp_of F ?d"] fresh by auto
  show ?thesis
  proof (cases me)
    case (Some e)
    then have "err \<noteq> None" "f' = f1" using run res mk by (auto simp: ls_Put_def)
    with full f1 show ?thesis by (cases err) simp_all
  next
    case None
    then have "put_file F key ?d full r sz f1 = (err, f')" using run res mk by (simp add: ls_Put_def)
    from put_file_effect [OF this tmp rm] full f1 show ?thesis by (cases err) simp_all
  qed
qed

text \<open>
  C37.  Whatever faults strike, a \<^verbatim>\<open>Put\<close> that succeeds makes the object the bytes that were to be
  stored, all of them, and a \<^verbatim>\<open>Put\<close> that fails leaves every file as it was; at most directories above the
  object are new.  The exception is a fault of removing the temporary file, which is excluded.
\<close>

theorem put_atomic:
  assumes base: "isAbs (ls_base l)" and res: "ls_resolve l key = Inr full" and ne: "clean_elems key \<noteq> []"
    and fresh: "f (tmp_of F (path_dir full)) = None" "tmp_of F (path_dir full) \<notin> set (ancestors (path_dir full))"
    and rm: "remove_fault F = None"
    and run: "ls_Put F l None key r sz f = (err, f')"
  shows "(case err of
            None \<Rightarrow> f' full = Some (File (wanted r sz)) \<and> whole r sz
          | Some e \<Rightarrow> f' full = f full) \<and>
         (\<forall>p. p \<noteq> full \<longrightarrow> f' p = f p \<or> f p = None \<and> f' p = Some Dir \<and> p \<in> set (ancestors (path_dir full)))"
  using assms by (rule ls_put_effect)

definition no_faults :: "string \<Rightarrow> os_faults" where
  "no_faults x =
     \<lparr>getwd = Inr ''/'', mkdir_fault = None, create_fault = None, tmp_suffix = x, write_fault = None, sync_fault = None,
      tmp_close_fault = None, rename_fault = None, remove_fault = None, open_fault = None, stat_fault = None\<rparr>"

lemma no_faults_sel [simp]:
  "remove_fault (no_faults x) = None" "open_fault (no_faults x) = None" "stat_fault (no_faults x) = None" "tmp_suffix (no_faults x) = x"
  by (simp_all add: no_faults_def)

text \<open>
  An object that was stored is read back byte for byte with its size, also under every
  other spelling of its key, and after it was deleted it is reported as missing, by the error the callers
  test for.  Deleting it again is no error.
\<close>

theorem object_round_trip:
  assumes base: "isAbs (ls_base l)" and res: "ls_resolve l key = Inr full" and ne: "clean_elems key \<noteq> []"
    and fresh: "f (tmp_of F (path_dir full)) = None" "tmp_of F (path_dir full) \<notin> set (ancestors (path_dir full))"
    and rm: "remove_fault F = None"
    and run: "ls_Put F l None key r sz f = (None, f1)"
    and same: "ls_resolve l key' = Inr full"
  shows "ls_Open (no_faults x) l None key' f1 = Inr \<lparr>rd_data = wanted r sz, rd_err = None\<rparr> \<and>
         ls_Stat (no_faults x) ds l None key' f1 = Inr (int (length (wanted r sz))) \<and>
         (\<exists>f2. ls_Delete (no_faults x) occ l None key' f1 = (None, f2) \<and> f2 = f1(full := None) \<and>
               (\<exists>e. ls_Open (no_faults x) l None key f2 = Inl e \<and> errors_is e ErrNotExist) \<and>
               ls_Delete (no_faults x) occ l None key f2 = (None, f2))"
proof -
  have "f1 full = Some (File (wanted r sz))" using ls_put_effect [OF base res ne fresh rm run] by simp
  then show ?thesis using res same
    by (simp add: ls_Open_def ls_Stat_def ls_Delete_def os_Remove_def missing_def ErrNotExist_def os_ErrNotExist_def)
qed

section \<open>A sample store\<close>

definition sample_store :: LocalStorage where
  "sample_store = \<lparr>ls_base = ''/srv/up''\<rparr>"

definition sample_fs :: fs where
  "sample_fs = [''/srv/up/old.apk'' \<mapsto> File ''old'']"

lemma store_resolve:
  "ls_resolve sample_store ''a/b.apk'' = Inr ''/srv/up/a/b.apk''" "ls_resolve sample_store ''a/./c/../b.apk'' = Inr ''/srv/up/a/b.apk''"
  by code_simp+

lemma store_places:
  "path_dir ''/srv/up/a/b.apk'' = ''/srv/up/a''" "tmp_of (no_faults ''1'') ''/srv/up/a'' = ''/srv/up/a/.morf-tmp-1''"
  "ancestors ''/srv/up/a'' = [''/'', ''/srv'', ''/srv/up'', ''/srv/up/a'']"
  by code_simp+

theorem keys_contained_witness:
  "ls_resolve sample_store ''a/b.apk'' = Inr ''/srv/up/a/b.apk'' \<and>
   (\<exists>es. clean_elems ''/srv/up/a/b.apk'' = clean_elems (ls_base sample_store) @ es)"
  using keys_contained [of sample_store "''a/b.apk''" "''/srv/up/a/b.apk''"] store_resolve
  by (auto simp: sample_store_def isAbs_def)

definition torn :: reader where
  "torn = \<lparr>rd_data = ''by'', rd_err = None\<rparr>"

text \<open>A body shorter than announced: the call fails and the object that was there stays.\<close>

lemma store_torn:
  "\<exists>e f'. ls_Put (no_faults ''1'') sample_store None ''a/b.apk'' torn 5 sample_fs = (Some e, f')"
  by (simp add: ls_Put_def store_resolve store_places os_MkdirAll_def sample_fs_def put_file_def io_copy_def torn_def
      no_faults_def Let_def)

theorem put_atomic_witness:
  "\<exists>e f'. ls_Put (no_faults ''1'') sample_store None ''a/b.apk'' torn 5 sample_fs = (Some e, f') \<and>
     f' ''/srv/up/a/b.apk'' = None \<and> f' ''/srv/up/old.apk'' = Some (File ''old'')"
proof -
  obtain e f' where run: "ls_Put (no_faults ''1'') sample_store None ''a/b.apk'' torn 5 sample_fs = (Some e, f')"
    using store_torn by blast
  have "clean_elems ''a/b.apk'' \<noteq> []" by code_simp
  note * = put_atomic [OF _ store_resolve(1) this _ _ _ run]
  have fresh: "sample_fs ''/srv/up/a/.morf-tmp-1'' = None" by (simp add: sample_fs_def)
  have eff: "f' ''/srv/up/a/b.apk'' = sample_fs ''/srv/up/a/b.apk'' \<and>
      (\<forall>p. p \<noteq> ''/srv/up/a/b.apk'' \<longrightarrow>
         f' p = sample_fs p \<or> sample_fs p = None \<and> f' p = Some Dir \<and> p \<in> set (ancestors ''/srv/up/a''))"
    using * fresh unfolding store_places by (simp add: sample_store_def isAbs_def)
  have old: "sample_fs ''/srv/up/old.apk'' = Some (File ''old'')" "sample_fs ''/srv/up/a/b.apk'' = None"
    by (simp_all add: sample_fs_def)
  have "f' ''/srv/up/old.apk'' = Some (File ''old'')"
    using eff [THEN conjunct2, rule_format, of "''/srv/up/old.apk''"] old by simp
  then show ?thesis using run eff old by simp
qed

theorem object_round_trip_witness:
  "\<exists>f1. ls_Put (no_faults ''1'') sample_store None ''a/b.apk'' \<lparr>rd_data = ''bytes'', rd_err = None\<rparr> 5 sample_fs = (None, f1) \<and>
     ls_Open (no_faults []) sample_store None ''a/./c/../b.apk'' f1 = Inr \<lparr>rd_data = ''bytes'', rd_err = None\<rparr>"
proof -
  let ?r = "\<lparr>rd_data = ''bytes'', rd_err = None\<rparr>"
  have "fst (ls_Put (no_faults ''1'') sample_store None ''a/b.apk'' ?r 5 sample_fs) = None" by code_simp
  then obtain f1 where run: "ls_Put (no_faults ''1'') sample_store None ''a/b.apk'' ?r 5 sample_fs = (None, f1)"
    by (metis prod.collapse)
  have "clean_elems ''a/b.apk'' \<noteq> []" by code_simp
  from object_round_trip [OF _ store_resolve(1) this _ _ _ run store_resolve(2)] run show ?thesis
    by (auto simp: store_places sample_store_def isAbs_def sample_fs_def wanted_def)
qed

end
