(* ===== verification/Ingest.thy ===== *)
theory Ingest
  imports Webhook Local_Storage Config "HOL-Library.List_Lexorder" "HOL-Library.Char_ord"
begin

text \<open>
  Fetching an artifact by reference (package \<^verbatim>\<open>ingest\<close>): the scheme of a reference, the registry of
  adapters, the capped download, and the adapters for local files, HTTPS URLs, S3 objects and the stores
  that are only announced.  The file system is that of \<open>Local_Storage\<close>, with its faults; the outside world
  of a download is that of \<open>Webhook\<close>.
\<close>

section \<open>Schemes\<close>

definition fileScheme :: string where
  "fileScheme = ''file''"

definition normalizeScheme :: "string \<Rightarrow> string" where
  "normalizeScheme scheme = toLower (trimSpace scheme)"

definition is_letter :: "char \<Rightarrow> bool" where
  "is_letter c \<longleftrightarrow> (let n = (of_char c :: nat) in 97 \<le> n \<and> n \<le> 122 \<or> 65 \<le> n \<and> n \<le> 90)"

definition isSchemeToken :: "string \<Rightarrow> bool" where
  "isSchemeToken s \<longleftrightarrow>
     (case s of
        [] \<Rightarrow> False
      | c # cs \<Rightarrow> is_letter c \<and> list_all (\<lambda>d. is_letter d \<or> is_digit d \<or> d \<in> {CHR ''+'', CHR ''-'', CHR ''.''}) cs)"

definition SchemeOf :: "string \<Rightarrow> string" where
  "SchemeOf ref =
     (let r = trimSpace ref in
      case str_index r ''://'' of
        Some i \<Rightarrow> if i > 0 \<and> isSchemeToken (take i r) then normalizeScheme (take i r) else fileScheme
      | None \<Rightarrow> fileScheme)"

section \<open>Options and limits\<close>

record Options =
  DestDir :: string
  MaxBytes :: int

definition MaxAPKDownloadSize :: int where
  "MaxAPKDownloadSize = 500 * 2 ^ 20"

definition DefaultMaxBytes :: "env \<Rightarrow> int" where
  "DefaultMaxBytes V = Int64Positive V ''MORF_INGEST_MAX_BYTES'' MaxAPKDownloadSize"

definition resolveMaxBytes :: "env \<Rightarrow> Options \<Rightarrow> int" where
  "resolveMaxBytes V opts = (if MaxBytes opts > 0 then MaxBytes opts else DefaultMaxBytes V)"

definition ErrAdapterNotConfigured :: go_error where
  "ErrAdapterNotConfigured = Sentinel ''ingest: adapter not configured''"

text \<open>
  The process: its environment variables, its working directory, what \<^verbatim>\<open>os.MkdirTemp\<close> answers, and the
  faults of the file system.  A relative path is looked up below the working directory.
\<close>

record process =
  vars :: env
  cwd :: string
  mkdtemp :: "go_error + string"
  faults :: os_faults

definition at_path :: "process \<Rightarrow> string \<Rightarrow> string" where
  "at_path P p = (if isAbs p then path_clean p else path_join [cwd P, p])"

definition os_Stat :: "process \<Rightarrow> string \<Rightarrow> fs \<Rightarrow> go_error + fnode" where
  "os_Stat P p f =
     (case stat_fault (faults P) of
        Some e \<Rightarrow> Inl e
      | None \<Rightarrow>
          (case f (at_path P p) of
             None \<Rightarrow> Inl (Errorf (''stat '' @ p @ '': no such file or directory'') [os_ErrNotExist])
           | Some n \<Rightarrow> Inr n))"

definition ingest_errf :: "string \<Rightarrow> go_error \<Rightarrow> go_error" where
  "ingest_errf what e = Errorf (''ingest: '' @ what @ '': '' @ err_msg e) [e]"

definition resolveDestDir :: "process \<Rightarrow> string \<Rightarrow> fs \<Rightarrow> (go_error + string) \<times> fs" where
  "resolveDestDir P destDir f =
     (let dir = trimSpace destDir in
      if dir = [] then
        (case mkdtemp P of
           Inl e \<Rightarrow> (Inl (ingest_errf ''creating scratch dir'' e), f)
         | Inr created \<Rightarrow> (Inr created, f(at_path P created \<mapsto> Dir)))
      else (case os_Stat P dir f of
        Inl e \<Rightarrow> (Inl (ingest_errf (''destination dir '' @ quoted dir) e), f)
      | Inr Dir \<Rightarrow> (Inr dir, f)
      | Inr (File _) \<Rightarrow> (Inl (Errorf (''ingest: destination '' @ quoted dir @ '' is not a directory'') []), f)))"

definition artifactExt :: "string \<Rightarrow> string" where
  "artifactExt name =
     (let base = toLower (path_base name) in
      if hasSuffix base ''.apk'' then ''.apk'' else if hasSuffix base ''.ipa'' then ''.ipa'' else ''.bin'')"

section \<open>The capped download\<close>

text \<open>Addition of two 64-bit integers.\<close>

definition add64 :: "int \<Rightarrow> int \<Rightarrow> int" where
  "add64 a b = (a + b + 2 ^ 63) mod 2 ^ 64 - 2 ^ 63"

definition io_LimitReader :: "reader \<Rightarrow> int \<Rightarrow> reader" where
  "io_LimitReader r n =
     (if n \<le> 0 then \<lparr>rd_data = [], rd_err = None\<rparr>
      else if n \<le> int (length (rd_data r)) then \<lparr>rd_data = take (nat n) (rd_data r), rd_err = None\<rparr>
      else r)"

definition temp_name :: "process \<Rightarrow> string \<Rightarrow> string \<Rightarrow> string" where
  "temp_name P destDir ext =
     destDir @ (if hasSuffix destDir ''/'' then [] else ''/'') @ ''artifact-'' @ tmp_suffix (faults P) @ ext"

text \<open>The second component is what was read from the source, which a \<^verbatim>\<open>TeeReader\<close> also hands to a hash.\<close>

definition copyCapped :: "process \<Rightarrow> string \<Rightarrow> string \<Rightarrow> reader \<Rightarrow> int \<Rightarrow> fs \<Rightarrow> (go_error + string) \<times> string \<times> fs" where
  "copyCapped P destDir ext src maxBytes0 f =
     (let F = faults P; maxBytes = (if maxBytes0 \<le> 0 then DefaultMaxBytes (vars P) else maxBytes0) in
      case create_fault F of
        Some e \<Rightarrow> (Inl (ingest_errf ''creating temp file'' e), [], f)
      | None \<Rightarrow>
          (let tmpPath = temp_name P destDir ext;
               limited = io_LimitReader src (add64 maxBytes 1);
               (data, copyErr) = io_copy F limited (-1);
               f1 = f(at_path P tmpPath \<mapsto> File data);
               removed = snd (os_Remove F (\<lambda>_. False) (at_path P tmpPath) f1)
           in case copyErr of
                Some e \<Rightarrow> (Inl (ingest_errf ''downloading artifact'' e), rd_data limited, removed)
              | None \<Rightarrow>
                  (case tmp_close_fault F of
                     Some e \<Rightarrow> (Inl (ingest_errf ''finalizing temp file'' e), rd_data limited, removed)
                   | None \<Rightarrow>
                       if int (length data) > maxBytes
                       then (Inl (Errorf (''ingest: artifact exceeds maximum allowed size of '' @ show_int maxBytes @ '' bytes'') []),
                             rd_data limited, removed)
                       else (Inr tmpPath, rd_data limited, f1))))"

section \<open>Local files\<close>

definition file_Fetch :: "process \<Rightarrow> string \<Rightarrow> fs \<Rightarrow> go_error + string" where
  "file_Fetch P ref f =
     (let p0 = trimSpace ref;
          p = (case str_index p0 ''://'' of
                 Some i \<Rightarrow> if i > 0 \<and> isSchemeToken (take i p0) then trimPrefix p0 ''file://'' else p0
               | None \<Rightarrow> p0)
      in if p = [] then Inl (Errorf ''ingest: empty local path'' [])
         else case os_Stat P p f of
           Inl e \<Rightarrow> Inl (ingest_errf (''local artifact '' @ quoted p) e)
         | Inr Dir \<Rightarrow> Inl (Errorf (''ingest: local artifact '' @ quoted p @ '' is a directory, not a file'') [])
         | Inr (File _) \<Rightarrow>
             if \<not> hasSuffix (toLower p) ''.apk'' \<and> \<not> hasSuffix (toLower p) ''.ipa''
             then Inl (Errorf (''ingest: local artifact '' @ quoted p @ '' must be an .apk or .ipa file'') [])
             else Inr p)"

section \<open>HTTPS\<close>

definition httpsScheme :: string where
  "httpsScheme = ''https''"

definition httpScheme :: string where
  "httpScheme = ''http''"

record httpsAdapter =
  ha_scheme :: string
  ha_destDir :: string
  ha_maxBytes :: int
  ha_allowHTTP :: bool

definition newHTTPSAdapter :: "env \<Rightarrow> string \<Rightarrow> Options \<Rightarrow> httpsAdapter" where
  "newHTTPSAdapter V scheme opts =
     \<lparr>ha_scheme = scheme, ha_destDir = DestDir opts, ha_maxBytes = resolveMaxBytes V opts,
      ha_allowHTTP = Bool V ''MORF_INGEST_ALLOW_HTTP'' False\<rparr>"

definition values_Get :: "(string \<times> string list) list \<Rightarrow> string \<Rightarrow> string" where
  "values_Get q k = (case map_of q k of Some (v # _) \<Rightarrow> v | _ \<Rightarrow> [])"

definition values_Del :: "(string \<times> string list) list \<Rightarrow> string \<Rightarrow> (string \<times> string list) list" where
  "values_Del q k = filter (\<lambda>(k', _). k' \<noteq> k) q"

definition extractSHA256 :: "attempt_env \<Rightarrow> url \<Rightarrow> string \<times> string" where
  "extractSHA256 E u =
     (let frag = trimSpace (Fragment u);
          digest1 = (if frag \<noteq> [] \<and> hasPrefix (toLower frag) ''sha256='' then toLower (drop 7 frag) else []);
          cp = u\<lparr>Fragment := []\<rparr>;
          q = url_Query E cp;
          v = trimSpace (values_Get q ''sha256'')
      in if v \<noteq> [] then (toLower v, url_String E (cp\<lparr>RawQuery := values_Encode E (values_Del q ''sha256'')\<rparr>))
         else (digest1, url_String E cp))"

text \<open>The hook of \<^verbatim>\<open>ssrfDialer\<close> and the gate before it; both are switched off by a variable that only tests set.\<close>

definition ssrf_Control :: "attempt_env \<Rightarrow> bool \<Rightarrow> string \<Rightarrow> go_error option" where
  "ssrf_Control E allowInternalHosts address =
     (if allowInternalHosts then None
      else case SplitHostPort address of
        None \<Rightarrow> Some (Errorf (''ingest dial: invalid address '' @ quoted address @ '': '' @ split_err E address) [])
      | Some (host, port) \<Rightarrow>
          (case ParseIP host of
             None \<Rightarrow> Some (Errorf (''ingest dial: unresolvable address '' @ quoted host) [])
           | Some a \<Rightarrow>
               if isDisallowedIP a
               then Some (Errorf (''ingest dial: connection to disallowed IP '' @ ip_String E a @ '' blocked (SSRF protection)'') [])
               else None))"

definition validateURL :: "attempt_env \<Rightarrow> bool \<Rightarrow> string \<Rightarrow> go_error option" where
  "validateURL E allowInternalHosts u = (if allowInternalHosts then None else ValidateWebhookURL E u)"

definition ssrf_CheckRedirect :: go_error where
  "ssrf_CheckRedirect = Errorf ''ingest: redirects are not allowed (SSRF protection)'' []"

definition equalFold_hex :: "string \<Rightarrow> string \<Rightarrow> bool" where
  "equalFold_hex hex s \<longleftrightarrow> toLower hex = toLower s"

text \<open>What \<^verbatim>\<open>Fetch\<close> of the HTTPS adapter does with a response: the file it is saved in, and the file system.\<close>

definition https_save :: "process \<Rightarrow> httpsAdapter \<Rightarrow> string \<Rightarrow> string \<Rightarrow> http_response \<Rightarrow> fs \<Rightarrow> (go_error + string) \<times> fs" where
  "https_save P a path wantSHA resp f =
     (case resolveDestDir P (ha_destDir a) f of
        (Inl e, f1) \<Rightarrow> (Inl e, f1)
      | (Inr destDir, f1) \<Rightarrow>
          (case copyCapped P destDir (artifactExt path) \<lparr>rd_data = body_data resp, rd_err = body_err resp\<rparr> (ha_maxBytes a) f1 of
             (Inl e, _, f2) \<Rightarrow> (Inl e, f2)
           | (Inr localPath, seen, f2) \<Rightarrow>
               (let got = hex_encode (sha256 (to_bytes seen)) in
                if wantSHA \<noteq> [] \<and> \<not> equalFold_hex got wantSHA
                then (Inl (Errorf (''ingest: sha256 mismatch: want '' @ wantSHA @ '', got '' @ got) []),
                      snd (os_Remove (faults P) (\<lambda>_. False) (at_path P localPath) f2))
                else (Inr localPath, f2))))"

text \<open>The result of \<^verbatim>\<open>Fetch\<close>, the client and the file system afterwards.\<close>

definition https_Fetch ::
  "process \<Rightarrow> attempt_env \<Rightarrow> bool \<Rightarrow> httpsAdapter \<Rightarrow> string \<Rightarrow> client \<Rightarrow> fs \<Rightarrow> (go_error + string) \<times> client \<times> fs" where
  "https_Fetch P E allowInternalHosts a ref cl f =
     (case url_Parse E (trimSpace ref) of
        Inl e \<Rightarrow> (Inl (ingest_errf (''invalid URL '' @ quoted ref) e), cl, f)
      | Inr parsed \<Rightarrow>
          if toLower (Scheme parsed) = httpScheme \<and> \<not> ha_allowHTTP a
          then (Inl (Errorf ''ingest: http:// URLs are refused; set MORF_INGEST_ALLOW_HTTP=true to allow plaintext downloads'' []), cl, f)
          else if toLower (Scheme parsed) \<noteq> httpsScheme \<and> toLower (Scheme parsed) \<noteq> httpScheme
          then (Inl (Errorf (''ingest: URL scheme '' @ quoted (Scheme parsed) @ '' is not http(s)'') []), cl, f)
          else (case validateURL E allowInternalHosts (url_String E parsed) of
            Some e \<Rightarrow> (Inl (ingest_errf ''URL failed SSRF validation'' e), cl, f)
          | None \<Rightarrow>
              (case extractSHA256 E parsed of (wantSHA, reqURL) \<Rightarrow>
                (case newRequest_err E of
                   Some e \<Rightarrow> (Inl (ingest_errf ''building request'' e), cl, f)
                 | None \<Rightarrow>
                     (case client_Do E (ssrf_Control E allowInternalHosts) ssrf_CheckRedirect ''Get'' reqURL
                             \<lparr>d_headers = [(''User-Agent'', ''MORF-Ingest/1.0'')], d_body = []\<rparr> cl of
                        (Inl e, cl') \<Rightarrow> (Inl (ingest_errf (''fetching '' @ MaskURLForLogging E reqURL) e), cl', f)
                      | (Inr resp, cl') \<Rightarrow>
                          if StatusCode resp < 200 \<or> StatusCode resp \<ge> 300
                          then (Inl (Errorf (''ingest: fetching '' @ MaskURLForLogging E reqURL @ '': unexpected status ''
                                       @ show_int (StatusCode resp)) []), cl', f)
                          else if ContentLength resp > 0 \<and> ContentLength resp > ha_maxBytes a
                          then (Inl (Errorf (''ingest: artifact is '' @ show_int (ContentLength resp) @ '' bytes, exceeds the ''
                                       @ show_int (ha_maxBytes a) @ ''-byte limit'') []), cl', f)
                          else (case https_save P a (Path parsed) wantSHA resp f of (r, f') \<Rightarrow> (r, cl', f')))))))"

section \<open>S3 objects\<close>

definition schemeS3 :: string where
  "schemeS3 = ''s3''"

definition validateObjectKey :: "string \<Rightarrow> go_error option" where
  "validateObjectKey key =
     (if hasPrefix key ''/'' then Some (Errorf (''ingest: s3 object key '' @ quoted key @ '' must not be absolute'') [])
      else if ''..'' \<in> set (str_split key (CHR ''/''))
      then Some (Errorf (''ingest: s3 object key '' @ quoted key @ '' must not contain a '' @ quoted ''..'' @ '' path segment'') [])
      else None)"

text \<open>The key and the bucket of a reference, in this order.\<close>

definition parseS3Ref :: "string \<Rightarrow> go_error + string \<times> string" where
  "parseS3Ref ref =
     (let r = trimSpace ref;
          rest0 = trimPrefix r ''s3://'';
          rest1 = (if rest0 = r then trimPrefix r ''S3://'' else rest0);
          emptyAuthority = hasPrefix rest1 ''/'';
          rest = trimPrefix rest1 ''/'';
          nokey = Errorf (''ingest: s3 reference '' @ quoted ref @ '' has no object key'') []
      in if rest = [] then Inl nokey
         else (let (key, bucket) =
                 (if emptyAuthority then (rest, [])
                  else case str_index rest ''/'' of
                    Some i \<Rightarrow> if i > 0 then (trimPrefix (drop (i + 1) rest) ''/'', take i rest) else (rest, [])
                  | None \<Rightarrow> (rest, []))
               in if key = [] then Inl nokey
                  else case validateObjectKey key of Some e \<Rightarrow> Inl e | None \<Rightarrow> Inr (key, bucket)))"

text \<open>The object store of an adapter, by the answers of \<^verbatim>\<open>Stat\<close> and \<^verbatim>\<open>Open\<close>.\<close>

record s3StorageOpener =
  so_Stat :: "string \<Rightarrow> go_error + int"
  so_Open :: "string \<Rightarrow> go_error + reader"

record s3Adapter =
  sa_destDir :: string
  sa_maxBytes :: int
  sa_store :: "s3StorageOpener option"
  sa_bucket :: string

definition newEnvS3Store :: "env \<Rightarrow> (go_error + s3StorageOpener) \<Rightarrow> go_error + s3StorageOpener \<times> string" where
  "newEnvS3Store V newS3 =
     (case newS3 of
        Inl e \<Rightarrow> Inl (Errorf (err_msg ErrAdapterNotConfigured @ '': S3 ingestion requires MORF_S3_BUCKET, AWS_ACCESS_KEY_ID and ''
                   @ ''AWS_SECRET_ACCESS_KEY (see docs/INGESTION.md): '' @ err_msg e) [ErrAdapterNotConfigured])
      | Inr st \<Rightarrow> Inr (st, Getenv V ''MORF_S3_BUCKET''))"

text \<open>\<^verbatim>\<open>strings.EqualFold\<close> on bucket names, whose characters are ASCII.\<close>

definition equalFold :: "string \<Rightarrow> string \<Rightarrow> bool" where
  "equalFold s t \<longleftrightarrow> map lower_char s = map lower_char t"

text \<open>The size of an object that is known to be over the limit.\<close>

definition over_cap :: "go_error + int \<Rightarrow> int \<Rightarrow> int option" where
  "over_cap st maxBytes = (case st of Inl _ \<Rightarrow> None | Inr n \<Rightarrow> if n > maxBytes then Some n else None)"

definition s3_Fetch ::
  "process \<Rightarrow> (go_error + s3StorageOpener) \<Rightarrow> s3Adapter \<Rightarrow> string \<Rightarrow> fs \<Rightarrow> (go_error + string) \<times> s3Adapter \<times> fs" where
  "s3_Fetch P newS3 a ref f =
     (case parseS3Ref ref of
        Inl e \<Rightarrow> (Inl e, a, f)
      | Inr (key, bucket) \<Rightarrow>
          (case (case sa_store a of
                   Some st \<Rightarrow> Inr (st, sa_bucket a)
                 | None \<Rightarrow> newEnvS3Store (vars P) newS3) of
             Inl e \<Rightarrow> (Inl e, a, f)
           | Inr (st, cfgBucket) \<Rightarrow>
               (let a' = a\<lparr>sa_store := Some st, sa_bucket := cfgBucket\<rparr> in
                if bucket \<noteq> [] \<and> cfgBucket \<noteq> [] \<and> \<not> equalFold bucket cfgBucket
                then (Inl (Errorf (''ingest: s3 reference bucket '' @ quoted bucket @ '' does not match configured bucket '' @ quoted cfgBucket) []), a', f)
                else (case over_cap (so_Stat st key) (sa_maxBytes a) of
                  Some n \<Rightarrow>
                    (Inl (Errorf (''ingest: s3 object '' @ quoted key @ '' is '' @ show_int n @ '' bytes, exceeds the ''
                       @ show_int (sa_maxBytes a) @ ''-byte limit'') []), a', f)
                | None \<Rightarrow>
                    (case so_Open st key of
                       Inl e \<Rightarrow> (Inl (ingest_errf (''opening s3 object '' @ quoted key) e), a', f)
                     | Inr rc \<Rightarrow>
                         (case resolveDestDir P (sa_destDir a) f of
                            (Inl e, f1) \<Rightarrow> (Inl e, a', f1)
                          | (Inr destDir, f1) \<Rightarrow>
                              (case copyCapped P destDir (artifactExt key) rc (sa_maxBytes a) f1 of
                                 (res, _, f2) \<Rightarrow> (res, a', f2))))))))"

section \<open>Announced stores\<close>

record stubAdapter =
  stub_scheme :: string
  stub_envVars :: string
  stub_auth :: string

definition stub_Fetch :: "stubAdapter \<Rightarrow> go_error" where
  "stub_Fetch a = Errorf (err_msg ErrAdapterNotConfigured @ '': '' @ stub_scheme a @ '' ingestion is not implemented '' @ [CHR 0xE2, CHR 0x80, CHR 0x94] @ '' it requires ''
     @ stub_envVars a @ '' ('' @ stub_auth a @ ''); see docs/INGESTION.md'') [ErrAdapterNotConfigured]"

section \<open>The registry\<close>

datatype adapter = FileAdapter | HttpsAdapter httpsAdapter | S3Adapter s3Adapter | StubAdapter stubAdapter

definition adapter_Scheme :: "adapter \<Rightarrow> string" where
  "adapter_Scheme a =
     (case a of FileAdapter \<Rightarrow> fileScheme | HttpsAdapter h \<Rightarrow> ha_scheme h | S3Adapter _ \<Rightarrow> schemeS3 | StubAdapter s \<Rightarrow> stub_scheme s)"

type_synonym factory = "env \<Rightarrow> Options \<Rightarrow> adapter"

type_synonym registry = "(string \<times> factory) list"

text \<open>Registration panics on an empty or a taken scheme, which is \<open>Inl\<close> here; a factory is never nil.\<close>

definition Register :: "string \<Rightarrow> factory \<Rightarrow> registry \<Rightarrow> string + registry" where
  "Register scheme fac reg =
     (let s = normalizeScheme scheme in
      if s = [] then Inl ''ingest: Register called with empty scheme''
      else if map_of reg s \<noteq> None then Inl (''ingest: duplicate adapter registration for scheme '' @ s)
      else Inr ((s, fac) # reg))"

definition Schemes :: "registry \<Rightarrow> string list" where
  "Schemes reg = sort (map fst reg)"

definition stubFactory :: "string \<Rightarrow> string \<Rightarrow> string \<Rightarrow> factory" where
  "stubFactory scheme envVars auth = (\<lambda>_ _. StubAdapter \<lparr>stub_scheme = scheme, stub_envVars = envVars, stub_auth = auth\<rparr>)"

definition s3_factory :: factory where
  "s3_factory = (\<lambda>V opts. S3Adapter \<lparr>sa_destDir = DestDir opts, sa_maxBytes = resolveMaxBytes V opts, sa_store = None, sa_bucket = []\<rparr>)"

definition asc_vars :: string where
  "asc_vars = ''MORF_ASC_ISSUER_ID, MORF_ASC_KEY_ID, MORF_ASC_PRIVATE_KEY''"

text \<open>The \<^verbatim>\<open>init\<close> functions of the package, in the order of their files.\<close>

definition registrations :: "(string \<times> factory) list" where
  "registrations =
     [(fileScheme, \<lambda>_ _. FileAdapter),
      (httpsScheme, \<lambda>V opts. HttpsAdapter (newHTTPSAdapter V httpsScheme opts)),
      (httpScheme, \<lambda>V opts. HttpsAdapter (newHTTPSAdapter V httpScheme opts)),
      (schemeS3, s3_factory),
      (''appstoreconnect'', stubFactory ''appstoreconnect'' asc_vars
         ''App Store Connect API ES256 JWT signed with a .p8 private key''),
      (''testflight'', stubFactory ''testflight'' asc_vars
         ''App Store Connect API JWT (shared with App Store Connect); resolves a TestFlight build''),
      (''xcodecloud'', stubFactory ''xcodecloud'' (asc_vars @ '', MORF_XCODE_CLOUD_PRODUCT_ID'')
         ''App Store Connect API JWT plus an Xcode Cloud CI product/build id''),
      (''googleplay'', stubFactory ''googleplay'' ''MORF_GOOGLE_PLAY_SA_JSON''
         ''Google Play Developer API OAuth2 with a service-account JSON key'')]"

fun register_all :: "(string \<times> factory) list \<Rightarrow> registry \<Rightarrow> string + registry" where
  "register_all [] reg = Inr reg"
| "register_all ((s, fac) # rest) reg = (case Register s fac reg of Inl e \<Rightarrow> Inl e | Inr reg' \<Rightarrow> register_all rest reg')"

definition Get :: "env \<Rightarrow> registry \<Rightarrow> string \<Rightarrow> Options \<Rightarrow> go_error + adapter" where
  "Get V reg ref opts =
     (case map_of reg (SchemeOf ref) of
        None \<Rightarrow> Inl (Errorf (''ingest: no adapter registered for scheme '' @ quoted (SchemeOf ref) @ '' (known: ''
                   @ str_join '', '' (Schemes reg) @ '')'') [])
      | Some fac \<Rightarrow> Inr (fac V opts))"

definition Fetch ::
  "process \<Rightarrow> attempt_env \<Rightarrow> (go_error + s3StorageOpener) \<Rightarrow> registry \<Rightarrow> string \<Rightarrow> Options \<Rightarrow> client \<Rightarrow> fs \<Rightarrow>
     (go_error + string) \<times> client \<times> fs" where
  "Fetch P E newS3 reg ref opts cl f =
     (case Get (vars P) reg ref opts of
        Inl e \<Rightarrow> (Inl e, cl, f)
      | Inr FileAdapter \<Rightarrow> (file_Fetch P ref f, cl, f)
      | Inr (HttpsAdapter a) \<Rightarrow> https_Fetch P E False a ref cl f
      | Inr (S3Adapter a) \<Rightarrow> (case s3_Fetch P newS3 a ref f of (r, _, f') \<Rightarrow> (r, cl, f'))
      | Inr (StubAdapter a) \<Rightarrow> (Inl (stub_Fetch a), cl, f))"

section \<open>A download is complete, within the limit, or absent\<close>

lemma add64_Suc: "\<lbrakk>0 \<le> n; n < 2 ^ 63 - 1\<rbrakk> \<Longrightarrow> add64 n 1 = n + 1"
  by (simp add: add64_def)

lemma os_Remove_undo:
  assumes "remove_fault F = None" "f p = None"
  shows "snd (os_Remove F occ p (f(p \<mapsto> File d))) = f"
  using assms by (auto simp: os_Remove_def fun_upd_idem)

lemma copyCapped_spec:
  assumes run: "copyCapped P dir ext src m f = (r, seen, f')"
    and m: "0 < m" "m < 2 ^ 63 - 1"
    and os: "remove_fault (faults P) = None" "f (at_path P (temp_name P dir ext)) = None"
  shows "case r of
     Inl e \<Rightarrow> f' = f
   | Inr p \<Rightarrow> p = temp_name P dir ext \<and> f' = f(at_path P p \<mapsto> File (rd_data src)) \<and> seen = rd_data src \<and>
       rd_err src = None \<and> int (length (rd_data src)) \<le> m"
proof (cases "create_fault (faults P)")
  case (Some e)
  then show ?thesis using run m by (auto simp: copyCapped_def Let_def)
next
  case None
  let ?tmp = "temp_name P dir ext" and ?lim = "io_LimitReader src (m + 1)"
  obtain data err where copy: "io_copy (faults P) ?lim (-1) = (data, err)" by (metis surj_pair)
  have undo: "snd (os_Remove (faults P) (\<lambda>_. False) (at_path P ?tmp) (f(at_path P ?tmp \<mapsto> File d))) = f" for d
    using os by (rule os_Remove_undo)
  have whole: "data = rd_data ?lim \<and> rd_err ?lim = None" if "err = None"
    using copy that by (auto simp: io_copy_def Let_def split: option.splits if_splits)
  have short: "?lim = src" if "int (length (rd_data ?lim)) \<le> m"
    using that m by (auto simp: io_LimitReader_def split: if_splits)
  show ?thesis
    using run m None copy whole short
    by (auto simp: copyCapped_def Let_def add64_Suc undo split: option.splits if_splits)
qed

text \<open>
  \<^verbatim>\<open>os.CreateTemp\<close> and \<^verbatim>\<open>os.MkdirTemp\<close> only ever pick a name that did not exist.
\<close>

definition tmp_fresh :: "process \<Rightarrow> string \<Rightarrow> fs \<Rightarrow> bool" where
  "tmp_fresh P destDir f \<longleftrightarrow>
     (case mkdtemp P of Inr dir \<Rightarrow> f (at_path P dir) = None | Inl _ \<Rightarrow> True) \<and>
     (case resolveDestDir P destDir f of
        (Inr dir, f1) \<Rightarrow> list_all (\<lambda>ext. f1 (at_path P (temp_name P dir ext)) = None) [''.apk'', ''.ipa'', ''.bin'']
      | (Inl _, _) \<Rightarrow> True)"

lemma ssrf_Control_outside: "ssrf_Control E False address = None \<Longrightarrow> outside address"
  using disallowed_internal length_ParseIP
  by (fastforce simp: ssrf_Control_def outside_def split: option.splits prod.splits if_splits)

lemma client_Do_sent:
  assumes control: "\<And>a. control a = None \<Longrightarrow> outside a"
    and run: "client_Do E control refusal meth url req cl = (Inr resp, cl')" and ok: "client_ok cl"
  shows "\<exists>a. sent cl' = sent cl @ [(a, req)] \<and> exchange E a = Inr resp \<and> outside a"
proof -
  obtain c cl0 where g: "get_conn E control cl = (c, cl0)" by (metis surj_pair)
  have "sent cl0 = sent cl"
    using g by (auto simp: get_conn_def split: list.splits prod.splits)
  then show ?thesis
    using run get_conn_ok [OF control g ok]
    by (auto simp: client_Do_def g Let_def split: sum.splits option.splits if_splits)
qed

lemma artifactExt_cases: "artifactExt name \<in> {''.apk'', ''.ipa'', ''.bin''}"
  by (simp add: artifactExt_def Let_def)

definition files_kept :: "fs \<Rightarrow> fs \<Rightarrow> bool" where
  "files_kept f f' \<longleftrightarrow> (\<forall>q d. f' q = Some (File d) \<longleftrightarrow> f q = Some (File d))"

text \<open>What a fetch leaves behind: nothing new when it fails, one file of at most \<open>m\<close> bytes when it succeeds.\<close>

definition fetched :: "process \<Rightarrow> int \<Rightarrow> fs \<Rightarrow> go_error + string \<Rightarrow> fs \<Rightarrow> bool" where
  "fetched P m f r f' \<longleftrightarrow>
     (case r of
        Inl _ \<Rightarrow> files_kept f f'
      | Inr p \<Rightarrow> \<exists>d. files_kept (f(at_path P p \<mapsto> File d)) f' \<and> int (length d) \<le> m)"

lemma files_kept_refl [simp]: "files_kept f f"
  by (simp add: files_kept_def)

lemma resolveDestDir_fresh:
  assumes "resolveDestDir P destDir f = (r, f1)" "tmp_fresh P destDir f"
  shows "files_kept f f1 \<and> (\<forall>dir. r = Inr dir \<longrightarrow> f1 (at_path P (temp_name P dir (artifactExt name))) = None)"
proof -
  have "files_kept f f1"
    using assms by (auto simp: resolveDestDir_def Let_def tmp_fresh_def files_kept_def split: sum.splits if_splits fnode.splits)
  moreover have "f1 (at_path P (temp_name P dir (artifactExt name))) = None" if "r = Inr dir" for dir
    using assms that artifactExt_cases [of name] by (auto simp: tmp_fresh_def)
  ultimately show ?thesis by blast
qed

text \<open>The shared tail of the two downloads: choose the directory, then copy.\<close>

lemma download_fetched:
  assumes dir: "resolveDestDir P destDir f = (Inr dir, f1)" and fresh: "tmp_fresh P destDir f"
    and copy: "copyCapped P dir (artifactExt name) src m f1 = (r, seen, f2)"
    and m: "0 < m" "m < 2 ^ 63 - 1" and os: "remove_fault (faults P) = None"
  shows "fetched P m f r f2"
    and "r = Inr p \<Longrightarrow> seen = rd_data src \<and> rd_err src = None \<and> f2 (at_path P p) = Some (File (rd_data src)) \<and>
      int (length (rd_data src)) \<le> m \<and> files_kept f (snd (os_Remove (faults P) (\<lambda>_. False) (at_path P p) f2))"
proof -
  have kept: "files_kept f f1" and free: "f1 (at_path P (temp_name P dir (artifactExt name))) = None"
    using resolveDestDir_fresh [OF dir fresh] by auto
  note spec = copyCapped_spec [OF copy m os free]
  show "fetched P m f r f2"
    using spec kept by (auto simp: fetched_def files_kept_def split: sum.splits)
  show "seen = rd_data src \<and> rd_err src = None \<and> f2 (at_path P p) = Some (File (rd_data src)) \<and>
      int (length (rd_data src)) \<le> m \<and> files_kept f (snd (os_Remove (faults P) (\<lambda>_. False) (at_path P p) f2))"
    if "r = Inr p"
    using spec that kept os_Remove_undo [of "faults P" f1 "at_path P p" "\<lambda>_. False" "rd_data src"] os free by auto
qed

text \<open>A limit that lets one more byte be counted.\<close>

definition cap_ok :: "int \<Rightarrow> bool" where
  "cap_ok m \<longleftrightarrow> 0 < m \<and> m < 2 ^ 63 - 1"

lemma https_save_fetched:
  assumes run: "https_save P a path want resp f = (r, f')" and m: "cap_ok (ha_maxBytes a)"
    and os: "remove_fault (faults P) = None" and fresh: "tmp_fresh P (ha_destDir a) f"
  shows "fetched P (ha_maxBytes a) f r f'"
    and "r = Inr p \<Longrightarrow> f' (at_path P p) = Some (File (body_data resp)) \<and> body_err resp = None \<and>
      (want \<noteq> [] \<longrightarrow> equalFold_hex (hex_encode (sha256 (to_bytes (body_data resp)))) want)"
proof -
  obtain r1 f1 where dir: "resolveDestDir P (ha_destDir a) f = (r1, f1)" by (metis surj_pair)
  have "fetched P (ha_maxBytes a) f r f' \<and> (r = Inr p \<longrightarrow> f' (at_path P p) = Some (File (body_data resp)) \<and> body_err resp = None \<and>
      (want \<noteq> [] \<longrightarrow> equalFold_hex (hex_encode (sha256 (to_bytes (body_data resp)))) want))" for p
  proof (cases r1)
    case (Inl e)
    then show ?thesis using run dir resolveDestDir_fresh [OF dir fresh] by (auto simp: https_save_def fetched_def)
  next
    case (Inr d)
    let ?src = "\<lparr>rd_data = body_data resp, rd_err = body_err resp\<rparr>"
    obtain r2 seen f2 where copy: "copyCapped P d (artifactExt path) ?src (ha_maxBytes a) f1 = (r2, seen, f2)" by (metis surj_pair)
    note tail = download_fetched [OF dir [unfolded Inr] fresh copy m [unfolded cap_ok_def, THEN conjunct1]
        m [unfolded cap_ok_def, THEN conjunct2] os]
    show ?thesis
      using run tail
      by (cases r2) (auto simp: https_save_def dir Inr copy Let_def fetched_def split: if_splits)
  qed
  then show "fetched P (ha_maxBytes a) f r f'"
    and "r = Inr p \<Longrightarrow> f' (at_path P p) = Some (File (body_data resp)) \<and> body_err resp = None \<and>
      (want \<noteq> [] \<longrightarrow> equalFold_hex (hex_encode (sha256 (to_bytes (body_data resp)))) want)"
    by blast+
qed

lemma https_Fetch_fetched:
  assumes "https_Fetch P E allow a ref cl f = (r, cl', f')" "cap_ok (ha_maxBytes a)"
    and "remove_fault (faults P) = None" "tmp_fresh P (ha_destDir a) f"
  shows "fetched P (ha_maxBytes a) f r f'"
proof -
  have "fetched P (ha_maxBytes a) f (Inl e) f" for e by (simp add: fetched_def)
  then show ?thesis
    using assms(1) https_save_fetched(1) [OF _ assms(2-4)]
    by (auto simp: https_Fetch_def split: sum.splits if_splits option.splits prod.splits)
qed

lemma s3_Fetch_fetched:
  assumes "s3_Fetch P newS3 a ref f = (r, a', f')" "cap_ok (sa_maxBytes a)"
    and "remove_fault (faults P) = None" "tmp_fresh P (sa_destDir a) f"
  shows "fetched P (sa_maxBytes a) f r f'"
proof -
  have "fetched P (sa_maxBytes a) f (Inl e) f1" if "resolveDestDir P (sa_destDir a) f = (Inl e, f1)" for e f1
    using resolveDestDir_fresh [OF that assms(4)] by (simp add: fetched_def)
  moreover have "fetched P (sa_maxBytes a) f (Inl e) f" for e by (simp add: fetched_def)
  ultimately show ?thesis
    using assms(1) download_fetched(1) [OF _ assms(4) _ _ _ assms(3)] assms(2)
    by (auto simp: s3_Fetch_def Let_def cap_ok_def split: sum.splits if_splits option.splits prod.splits)
qed

section \<open>The registry\<close>

definition the_registry :: registry where
  "the_registry = rev registrations"

lemmas scheme_names = fileScheme_def httpsScheme_def httpScheme_def schemeS3_def

lemma normalize_plain:
  assumes "list_all (\<lambda>c. is_digit c \<or> 97 \<le> (of_char c :: nat) \<and> (of_char c :: nat) \<le> 122) s"
  shows "normalizeScheme s = s"
proof -
  have "printable c \<and> (of_char c :: nat) < 128 \<and> lower_char c = c" if "c \<in> set s" for c
    using assms that by (auto simp: list_all_iff printable_def is_digit_def lower_char_def Let_def)
  then show ?thesis
    using trimSpace_printable [of s] toLower_ascii [of s]
    by (cases "s = []") (auto simp: normalizeScheme_def list_all_iff intro: map_idI)
qed

lemma distinct_schemes: "distinct (map fst registrations)"
  by (simp add: registrations_def scheme_names)

lemma register_all_fresh:
  assumes "list_all (\<lambda>(s, _). normalizeScheme s = s \<and> s \<noteq> []) regs" "distinct (map fst (regs @ reg))"
  shows "register_all regs reg = Inr (rev regs @ reg)"
  using assms
proof (induction regs arbitrary: reg)
  case (Cons x regs)
  obtain s fac where x: "x = (s, fac)" by fastforce
  have "map_of reg s = None" using Cons.prems(2) by (auto simp: x map_of_eq_None_iff)
  then show ?case using Cons by (auto simp: x Register_def)
qed simp

lemma init_registers: "register_all registrations [] = Inr the_registry"
proof -
  have "list_all (\<lambda>(s, _). normalizeScheme s = s \<and> s \<noteq> []) registrations"
    by (simp add: registrations_def scheme_names normalize_plain is_digit_def)
  then show ?thesis using register_all_fresh [of registrations "[]"] distinct_schemes by (simp add: the_registry_def)
qed

definition adapter_ok :: "adapter \<Rightarrow> bool" where
  "adapter_ok a = (case a of HttpsAdapter h \<Rightarrow> 0 < ha_maxBytes h | S3Adapter s \<Rightarrow> 0 < sa_maxBytes s \<and> sa_store s = None | _ \<Rightarrow> True)"

lemma resolveMaxBytes_pos: "0 < resolveMaxBytes V opts"
  using positive_range [of MaxAPKDownloadSize] by (auto simp: resolveMaxBytes_def DefaultMaxBytes_def MaxAPKDownloadSize_def in_int64_def)

text \<open>
  C30.  The package registers its adapters without a panic, and the registry is well typed: a reference is given
  an adapter that serves its scheme, with a positive limit and no store opened yet, exactly when its
  scheme is among the eight known ones.  A reference without a scheme is a local path.
\<close>

theorem registry_typed:
  "\<exists>reg. register_all registrations [] = Inr reg \<and>
     Schemes reg = [''appstoreconnect'', ''file'', ''googleplay'', ''http'', ''https'', ''s3'', ''testflight'', ''xcodecloud''] \<and>
     (\<forall>V ref opts. case Get V reg ref opts of
        Inl _ \<Rightarrow> SchemeOf ref \<notin> set (Schemes reg)
      | Inr a \<Rightarrow> adapter_Scheme a = SchemeOf ref \<and> adapter_ok a)"
proof (intro exI conjI allI)
  show "register_all registrations [] = Inr the_registry" by (rule init_registers)
  show "Schemes the_registry = [''appstoreconnect'', ''file'', ''googleplay'', ''http'', ''https'', ''s3'', ''testflight'', ''xcodecloud'']"
    by (simp add: Schemes_def the_registry_def registrations_def scheme_names)
  fix V ref opts
  have typed: "adapter_Scheme (fac V opts) = s \<and> adapter_ok (fac V opts)" if "(s, fac) \<in> set the_registry" for s fac
    using that by (auto simp: the_registry_def registrations_def adapter_Scheme_def adapter_ok_def stubFactory_def s3_factory_def
        newHTTPSAdapter_def resolveMaxBytes_pos)
  show "case Get V the_registry ref opts of
      Inl _ \<Rightarrow> SchemeOf ref \<notin> set (Schemes the_registry)
    | Inr a \<Rightarrow> adapter_Scheme a = SchemeOf ref \<and> adapter_ok a"
    using typed by (auto simp: Get_def Schemes_def map_of_eq_None_iff dest: map_of_SomeD split: option.split)
qed

section \<open>Fetching\<close>


text \<open>
  C28.  A successful download over HTTPS came from an address outside the internal blocks with a success
  status; the file has all bytes of the body, and their SHA-256 is the requested one if the URL names one.
\<close>

theorem https_download:
  assumes run: "https_Fetch P E False a ref cl f = (Inr p, cl', f')" and cl: "client_ok cl"
    and os: "cap_ok (ha_maxBytes a)" "remove_fault (faults P) = None" "tmp_fresh P (ha_destDir a) f"
  shows "\<exists>u addr req resp. url_Parse E (trimSpace ref) = Inr u \<and> sent cl' = sent cl @ [(addr, req)] \<and> outside addr \<and>
     exchange E addr = Inr resp \<and> 200 \<le> StatusCode resp \<and> StatusCode resp < 300 \<and>
     f' (at_path P p) = Some (File (body_data resp)) \<and> body_err resp = None \<and>
     int (length (body_data resp)) \<le> ha_maxBytes a \<and>
     (fst (extractSHA256 E u) \<noteq> [] \<longrightarrow>
        equalFold_hex (hex_encode (sha256 (to_bytes (body_data resp)))) (fst (extractSHA256 E u)))"
proof -
  let ?req = "\<lparr>d_headers = [(''User-Agent'', ''MORF-Ingest/1.0'')], d_body = []\<rparr>"
  obtain u resp where u: "url_Parse E (trimSpace ref) = Inr u"
    and resp: "client_Do E (ssrf_Control E False) ssrf_CheckRedirect ''Get'' (snd (extractSHA256 E u)) ?req cl = (Inr resp, cl')"
    and st: "200 \<le> StatusCode resp" "StatusCode resp < 300"
    and save: "https_save P a (Path u) (fst (extractSHA256 E u)) resp f = (Inr p, f')"
    using run by (auto simp: https_Fetch_def split: sum.splits if_splits option.splits prod.splits)
  obtain addr where "sent cl' = sent cl @ [(addr, ?req)]" "exchange E addr = Inr resp" "outside addr"
    using client_Do_sent [OF _ resp cl] ssrf_Control_outside by blast
  moreover have "f' (at_path P p) = Some (File (body_data resp)) \<and> body_err resp = None \<and>
      (fst (extractSHA256 E u) \<noteq> [] \<longrightarrow>
        equalFold_hex (hex_encode (sha256 (to_bytes (body_data resp)))) (fst (extractSHA256 E u)))"
    using https_save_fetched(2) [OF save os] by simp
  moreover from this have "int (length (body_data resp)) \<le> ha_maxBytes a"
    using https_save_fetched(1) [OF save os] by (auto simp: fetched_def files_kept_def)
  ultimately show ?thesis using u st by blast
qed

text \<open>At the largest limit the byte read beyond it overflows: nothing is read, and an empty file counts as the artifact.\<close>

theorem cap_overflow:
  assumes "create_fault (faults P) = None" "write_fault (faults P) = None" "tmp_close_fault (faults P) = None"
  shows "copyCapped P dir ext src (2 ^ 63 - 1) f =
     (Inr (temp_name P dir ext), [], f(at_path P (temp_name P dir ext) \<mapsto> File []))"
  using assms by (simp add: copyCapped_def Let_def add64_def io_LimitReader_def io_copy_def)

section \<open>An example\<close>

definition quiet_os :: os_faults where
  "quiet_os =
     \<lparr>getwd = Inr ''/w'', mkdir_fault = None, create_fault = None, tmp_suffix = ''1'', write_fault = None, sync_fault = None,
      tmp_close_fault = None, rename_fault = None, remove_fault = None, open_fault = None, stat_fault = None\<rparr>"

definition some_process :: process where
  "some_process = \<lparr>vars = Map.empty, cwd = ''/w'', mkdtemp = Inr ''/tmp/m'', faults = quiet_os\<rparr>"

definition some_options :: Options where
  "some_options = \<lparr>DestDir = [], MaxBytes = 10\<rparr>"

definition honest :: attempt_env where
  "honest = rebinding\<lparr>
     url_Parse := (\<lambda>_. Inr \<lparr>Scheme = ''https'', User = None, Hostname = ''h.test'', Port = [], Path = ''/a.apk'', RawQuery = [], Fragment = []\<rparr>),
     primaries := [''93.184.216.34:443''], fallbacks := [], connect_err := (\<lambda>_. None),
     exchange := (\<lambda>_. Inr \<lparr>StatusCode = 200, Location = [], ContentLength = 2, body_data = ''PK'', body_err = None\<rparr>)\<rparr>"

abbreviation "some_adapter \<equiv> newHTTPSAdapter Map.empty ''https'' some_options"

lemma some_fresh: "tmp_fresh some_process [] Map.empty"
proof -
  have "at_path some_process ''/tmp/m'' = ''/tmp/m''" "at_path some_process ''/tmp/m/artifact-1.apk'' = ''/tmp/m/artifact-1.apk''"
    "at_path some_process ''/tmp/m/artifact-1.ipa'' = ''/tmp/m/artifact-1.ipa''" "at_path some_process ''/tmp/m/artifact-1.bin'' = ''/tmp/m/artifact-1.bin''"
    by code_simp+
  then show ?thesis
    using trimSpace_printable [of "[]"]
    by (simp add: tmp_fresh_def resolveDestDir_def temp_name_def some_process_def quiet_os_def hasSuffix_def)
qed

lemma honest_valid: "ValidateWebhookURL honest ''/a.apk'' = None"
  by code_simp

lemma honest_dial: "dialParallel honest (ssrf_Control honest False) = (Inr ''93.184.216.34:443'', [''93.184.216.34:443''])"
  by code_simp

lemma some_save:
  "fst (https_save some_process some_adapter ''/a.apk'' [] \<lparr>StatusCode = 200, Location = [], ContentLength = 2, body_data = ''PK'', body_err = None\<rparr> f)
   = Inr ''/tmp/m/artifact-1.apk''"
proof -
  have "artifactExt ''/a.apk'' = ''.apk''" by code_simp
  then show ?thesis
    using trimSpace_printable [of "[]"]
    by (simp add: https_save_def resolveDestDir_def some_process_def quiet_os_def some_options_def newHTTPSAdapter_def resolveMaxBytes_def
        copyCapped_def Let_def add64_def io_LimitReader_def io_copy_def temp_name_def hasSuffix_def)
qed

lemma some_fetch:
  "\<exists>cl' f'. https_Fetch some_process honest False some_adapter ''https://h.test/a.apk'' fresh_client Map.empty
     = (Inr ''/tmp/m/artifact-1.apk'', cl', f')"
proof -
  have lower: "toLower ''https'' = ''https''" by code_simp
  obtain f' where save: "https_save some_process some_adapter ''/a.apk'' []
      \<lparr>StatusCode = 200, Location = [], ContentLength = 2, body_data = ''PK'', body_err = None\<rparr> Map.empty = (Inr ''/tmp/m/artifact-1.apk'', f')"
    using some_save by (metis prod.collapse)
  show ?thesis
    using honest_valid honest_dial save lower trimSpace_printable [of "[]"]
    by (simp add: https_Fetch_def validateURL_def extractSHA256_def values_Get_def client_Do_def get_conn_def fresh_client_def Let_def
        is_redirect_def httpScheme_def httpsScheme_def newHTTPSAdapter_def resolveMaxBytes_def some_options_def
        honest_def rebinding_def)
qed

theorem https_download_witness:
  "\<exists>p cl' f'. https_Fetch some_process honest False some_adapter ''https://h.test/a.apk'' fresh_client Map.empty = (Inr p, cl', f')
     \<and> f' (at_path some_process p) = Some (File ''PK'')"
proof -
  obtain cl' f' where run: "https_Fetch some_process honest False some_adapter ''https://h.test/a.apk'' fresh_client Map.empty
      = (Inr ''/tmp/m/artifact-1.apk'', cl', f')" using some_fetch by blast
  have pre: "client_ok fresh_client" "cap_ok (ha_maxBytes some_adapter)" "remove_fault (faults some_process) = None"
    "tmp_fresh some_process (ha_destDir some_adapter) Map.empty"
    using some_fresh by (simp_all add: client_ok_def fresh_client_def cap_ok_def newHTTPSAdapter_def resolveMaxBytes_def some_options_def
        some_process_def quiet_os_def)
  from https_download [OF run pre] show ?thesis using run by (auto simp: honest_def)
qed


theorem cap_overflow_witness:
  "fst (copyCapped some_process ''/tmp/m'' ''.apk'' \<lparr>rd_data = ''PK'', rd_err = None\<rparr> (2 ^ 63 - 1) Map.empty)
     = Inr (temp_name some_process ''/tmp/m'' ''.apk'')"
  using cap_overflow [of some_process "''/tmp/m''" "''.apk''" "\<lparr>rd_data = ''PK'', rd_err = None\<rparr>" Map.empty]
  by (simp add: some_process_def quiet_os_def)

text \<open>The first segment of a reference with several counts as a bucket, always.\<close>

lemma s3_ref_first_segment: "parseS3Ref ''s3://path/to/app.apk'' = Inr (''to/app.apk'', ''path'')"
  by code_simp

lemma s3_keys_relative:
  assumes "parseS3Ref ref = Inr (key, bucket)"
  shows "key \<noteq> [] \<and> \<not> hasPrefix key ''/'' \<and> ''..'' \<notin> set (str_split key (CHR ''/''))"
  using assms by (auto simp: parseS3Ref_def validateObjectKey_def Let_def split: if_splits option.splits prod.splits)

end
