(* ===== verification/S3_Storage.thy ===== *)
theory S3_Storage
  imports Webhook Local_Storage Config "HOL-Library.Multiset"
begin

text \<open>
  The artifact store on an S3-compatible service (storage/s3.go, storage/sigv4.go): signed requests, the
  retries around them, the operations of the store, and the budget of bytes in flight.  The service is a
  parameter, a function on its own state that answers requests; \<open>object_server\<close> states what S3 documents of
  it, answers lost on the network included.
\<close>

section \<open>Signatures\<close>

definition algorithm :: string where
  "algorithm = ''AWS4-HMAC-SHA256''"

definition emptyPayloadHash :: string where
  "emptyPayloadHash = ''e3b0c44298fc1c149afbf4c8996fb92427ae41e4649b934ca495991b7852b855''"

definition unsignedPayload :: string where
  "unsignedPayload = ''UNSIGNED-PAYLOAD''"

record credentials =
  AccessKeyID :: string
  SecretAccessKey :: string
  SessionToken :: string

definition hmacSHA256 :: "bytes \<Rightarrow> string \<Rightarrow> bytes" where
  "hmacSHA256 key data = hmac_sha256 key (to_bytes data)"

definition sha256Hex :: "string \<Rightarrow> string" where
  "sha256Hex data = hex_encode (sha256 (to_bytes data))"

definition deriveSigningKey :: "string \<Rightarrow> string \<Rightarrow> string \<Rightarrow> string \<Rightarrow> bytes" where
  "deriveSigningKey secret dateStamp region service =
     (let kDate = hmacSHA256 (to_bytes (''AWS4'' @ secret)) dateStamp;
          kRegion = hmacSHA256 kDate region;
          kService = hmacSHA256 kRegion service
      in hmacSHA256 kService ''aws4_request'')"

definition unreserved :: "char \<Rightarrow> bool" where
  "unreserved c \<longleftrightarrow>
     (let n = (of_char c :: nat) in
      65 \<le> n \<and> n \<le> 90 \<or> 97 \<le> n \<and> n \<le> 122 \<or> 48 \<le> n \<and> n \<le> 57) \<or> c \<in> {CHR ''-'', CHR ''_'', CHR ''.'', CHR ''~''}"

definition hexUpper :: "nat \<Rightarrow> char" where
  "hexUpper d = ''0123456789ABCDEF'' ! d"

definition encode_byte :: "bool \<Rightarrow> char \<Rightarrow> string" where
  "encode_byte encodeSlash c =
     (if unreserved c \<or> c = CHR ''/'' \<and> \<not> encodeSlash then [c]
      else [CHR ''%'', hexUpper (of_char c div 16), hexUpper (of_char c mod 16)])"

definition uriEncode :: "string \<Rightarrow> bool \<Rightarrow> string" where
  "uriEncode s encodeSlash = concat (map (encode_byte encodeSlash) s)"

definition canonicalURIPath :: "string \<Rightarrow> string" where
  "canonicalURIPath path = (if path = [] then ''/'' else uriEncode path False)"

definition canonicalQuery :: "(string \<times> string list) list \<Rightarrow> string" where
  "canonicalQuery values =
     str_join ''&'' (concat (map (\<lambda>k. map (\<lambda>v. uriEncode k True @ ''='' @ uriEncode v True) (sort (the (map_of values k))))
       (sort (map fst values))))"

text \<open>\<^verbatim>\<open>strings.Fields\<close>: the words between white space.\<close>

fun until_space :: "string \<Rightarrow> string \<times> string" where
  "until_space [] = ([], [])"
| "until_space (c # s) =
     (if list_ex (hasPrefix (c # s)) space_seqs then ([], c # s)
      else case until_space s of (w, rest) \<Rightarrow> (c # w, rest))"

lemma space_seqs_nonempty: "[] \<notin> set space_seqs"
  by code_simp

lemma until_space_shorter: "length (snd (until_space s)) \<le> length s"
  by (induction s) (auto split: prod.splits)

lemma fields_shorter:
  assumes "strip_seqs space_seqs s \<noteq> []"
  shows "length (snd (until_space (strip_seqs space_seqs s))) < length s"
proof -
  let ?t = "strip_seqs space_seqs s"
  obtain c u where t: "?t = c # u" using assms by (cases ?t) auto
  have "\<not> hasPrefix ?t p" if "p \<in> set space_seqs" for p
    using strip_seqs_done [of space_seqs s] that space_seqs_nonempty by (auto simp: find_None_iff)
  then have "\<not> list_ex (hasPrefix (c # u)) space_seqs" by (simp add: t list_ex_iff)
  then have "length (snd (until_space ?t)) \<le> length u"
    using until_space_shorter [of u] by (auto simp: t split: prod.splits)
  moreover have "length ?t \<le> length s" using strip_seqs_suffix by (rule suffix_length_le)
  ultimately show ?thesis by (simp add: t)
qed

function fields :: "string \<Rightarrow> string list" where
  "fields s =
     (let t = strip_seqs space_seqs s in
      if t = [] then [] else fst (until_space t) # fields (snd (until_space t)))"
  by auto

termination
  by (relation "measure length") (auto dest: fields_shorter)

declare fields.simps [simp del]

definition trimAll :: "string \<Rightarrow> string" where
  "trimAll v = str_join '' '' (fields v)"

record s3_request =
  rq_method :: string
  rq_host :: string
  rq_path :: string
  rq_query :: "(string \<times> string list) list"
  rq_headers :: "(string \<times> string) list"
  rq_length :: int
  rq_body :: string

definition header_set :: "string \<Rightarrow> string \<Rightarrow> s3_request \<Rightarrow> s3_request" where
  "header_set k v rq = rq\<lparr>rq_headers := filter (\<lambda>(k', _). k' \<noteq> k) (rq_headers rq) @ [(k, v)]\<rparr>"

text \<open>\<open>t\<close> is the time of signing, in UTC.\<close>

definition amz_date :: "go_time \<Rightarrow> string" where
  "amz_date t = pad4 (year t) @ pad2 (month t) @ pad2 (day t) @ ''T'' @ pad2 (hour t) @ pad2 (minute t) @ pad2 (second t) @ ''Z''"

definition date_stamp :: "go_time \<Rightarrow> string" where
  "date_stamp t = pad4 (year t) @ pad2 (month t) @ pad2 (day t)"

text \<open>The headers that are signed: the host and every header of the request, by lower-case name.\<close>

definition signed_headers :: "s3_request \<Rightarrow> (string \<times> string) list" where
  "signed_headers rq =
     sort_key fst ((if ''host'' \<in> set (map (\<lambda>(k, _). toLower k) (rq_headers rq)) then [] else [(''host'', rq_host rq)])
       @ map (\<lambda>(k, v). (toLower k, trimAll v)) (rq_headers rq))"

definition canonicalRequest :: "s3_request \<Rightarrow> string \<Rightarrow> string" where
  "canonicalRequest rq payloadHash =
     str_join [CHR 0x0A]
       [rq_method rq, canonicalURIPath (rq_path rq), canonicalQuery (rq_query rq),
        concat (map (\<lambda>(n, v). n @ '':'' @ v @ [CHR 0x0A]) (signed_headers rq)),
        str_join '';'' (map fst (signed_headers rq)), payloadHash]"

definition signRequest :: "s3_request \<Rightarrow> string \<Rightarrow> credentials \<Rightarrow> string \<Rightarrow> string \<Rightarrow> go_time \<Rightarrow> s3_request" where
  "signRequest req payloadHash creds region service t =
     (let rq1 = header_set ''X-Amz-Date'' (amz_date t) req;
          rq2 = (if SessionToken creds \<noteq> [] then header_set ''X-Amz-Security-Token'' (SessionToken creds) rq1 else rq1);
          scope = date_stamp t @ ''/'' @ region @ ''/'' @ service @ ''/aws4_request'';
          stringToSign = str_join [CHR 0x0A] [algorithm, amz_date t, scope, sha256Hex (canonicalRequest rq2 payloadHash)];
          signature = hex_encode (hmacSHA256 (deriveSigningKey (SecretAccessKey creds) (date_stamp t) region service) stringToSign)
      in header_set ''Authorization''
           (algorithm @ '' Credential='' @ AccessKeyID creds @ ''/'' @ scope @ '', SignedHeaders=''
              @ str_join '';'' (map fst (signed_headers rq2)) @ '', Signature='' @ signature) rq2)"

section \<open>The budget of bytes in flight\<close>

definition maxS3UploadBytes :: int where
  "maxS3UploadBytes = 2 * 2 ^ 30"

definition defaultS3MaxInflightBytes :: int where
  "defaultS3MaxInflightBytes = 4 * 2 ^ 30"

record byteSemaphore =
  bs_cap :: int
  bs_avail :: int

definition newByteSemaphore :: "int \<Rightarrow> byteSemaphore" where
  "newByteSemaphore capacity = (let c = (if capacity < 1 then 1 else capacity) in \<lparr>bs_cap = c, bs_avail = c\<rparr>)"

definition clamp :: "byteSemaphore \<Rightarrow> int \<Rightarrow> int" where
  "clamp b n = (let n = (if n < 0 then 0 else n) in if n > bs_cap b then bs_cap b else n)"

text \<open>One round of the loop of \<^verbatim>\<open>acquire\<close>, under its lock: the reserved weight, or \<open>None\<close> when it has to wait.\<close>

definition bs_acquire :: "byteSemaphore \<Rightarrow> int \<Rightarrow> (int \<times> byteSemaphore) option" where
  "bs_acquire b n =
     (let w = clamp b n in if bs_avail b < w then None else Some (w, b\<lparr>bs_avail := bs_avail b - w\<rparr>))"

definition bs_release :: "byteSemaphore \<Rightarrow> int \<Rightarrow> byteSemaphore" where
  "bs_release b n =
     (let a = bs_avail b + clamp b n in b\<lparr>bs_avail := (if a > bs_cap b then bs_cap b else a)\<rparr>)"

text \<open>
  Concurrent uploads.  An upload is known by its size and by whether its body was read into memory first;
  it waits for the budget, then holds a weight while it sends.
\<close>

record uploads =
  budget :: byteSemaphore
  waiting :: "(bool \<times> int) list"
  sending :: "((bool \<times> int) \<times> int) list"

inductive upload_step :: "uploads \<Rightarrow> uploads \<Rightarrow> bool" where
  arrive: "0 \<le> n \<Longrightarrow> n \<le> maxS3UploadBytes \<Longrightarrow> upload_step s (s\<lparr>waiting := (buffered, n) # waiting s\<rparr>)"
| grant: "waiting s = xs @ (buffered, n) # ys \<Longrightarrow> bs_acquire (budget s) n = Some (w, b) \<Longrightarrow>
    upload_step s (s\<lparr>budget := b, waiting := xs @ ys, sending := ((buffered, n), w) # sending s\<rparr>)"
| give_up: "waiting s = xs @ u # ys \<Longrightarrow> upload_step s (s\<lparr>waiting := xs @ ys\<rparr>)"
| finish: "sending s = xs @ (u, w) # ys \<Longrightarrow> upload_step s (s\<lparr>budget := bs_release (budget s) w, sending := xs @ ys\<rparr>)"

inductive upload_reachable :: "int \<Rightarrow> uploads \<Rightarrow> bool" for capacity where
  start: "upload_reachable capacity \<lparr>budget = newByteSemaphore capacity, waiting = [], sending = []\<rparr>"
| step: "upload_reachable capacity s \<Longrightarrow> upload_step s t \<Longrightarrow> upload_reachable capacity t"

definition reserved :: "uploads \<Rightarrow> int" where
  "reserved s = sum_list (map snd (sending s))"

definition resident :: "uploads \<Rightarrow> int" where
  "resident s = sum_list (map snd (filter fst (waiting s))) + sum_list (map (snd \<circ> fst) (filter (fst \<circ> fst) (sending s)))"

definition uploads_ok :: "int \<Rightarrow> uploads \<Rightarrow> bool" where
  "uploads_ok capacity s \<longleftrightarrow>
     bs_cap (budget s) = max 1 capacity \<and> 0 \<le> bs_avail (budget s) \<and> bs_avail (budget s) + reserved s = bs_cap (budget s) \<and>
     list_all (\<lambda>(_, n). 0 \<le> n \<and> n \<le> maxS3UploadBytes) (waiting s) \<and>
     list_all (\<lambda>((_, n), w). 0 \<le> n \<and> w = min n (bs_cap (budget s))) (sending s)"

lemma clamp_min: "0 \<le> n \<Longrightarrow> 0 \<le> bs_cap b \<Longrightarrow> clamp b n = min n (bs_cap b)"
  by (simp add: clamp_def Let_def)

lemma weight_range:
  assumes "uploads_ok capacity s" "x \<in> set (sending s)"
  shows "0 \<le> snd x \<and> snd x \<le> bs_cap (budget s)"
  using assms by (fastforce simp: uploads_ok_def list_all_iff)

lemma upload_step_ok:
  assumes "upload_step s t" "uploads_ok capacity s"
  shows "uploads_ok capacity t"
  using assms(1)
proof cases
  case (arrive n buffered)
  then show ?thesis using assms(2) by (auto simp: uploads_ok_def reserved_def)
next
  case (grant xs buffered n ys w b)
  then have "0 \<le> n" using assms(2) by (simp add: uploads_ok_def)
  then show ?thesis
    using grant assms(2) by (auto simp: uploads_ok_def bs_acquire_def Let_def clamp_min reserved_def split: if_splits)
next
  case (give_up xs u ys)
  then show ?thesis using assms(2) by (auto simp: uploads_ok_def reserved_def)
next
  case (finish xs u w ys)
  have rest: "0 \<le> sum_list (map snd (xs @ ys))"
  proof (rule sum_list_nonneg)
    fix v
    assume "v \<in> set (map snd (xs @ ys))"
    then obtain x where "x \<in> set (sending s)" "v = snd x" using finish by auto
    then show "0 \<le> v" using weight_range [OF assms(2)] by blast
  qed
  have w: "0 \<le> w" "w \<le> bs_cap (budget s)" using weight_range [OF assms(2), of "(u, w)"] finish by auto
  then have "clamp (budget s) w = w" by (simp add: clamp_def Let_def)
  moreover have "bs_avail (budget s) + w \<le> bs_cap (budget s)"
    using assms(2) rest finish by (auto simp: uploads_ok_def reserved_def)
  ultimately have "bs_release (budget s) w = (budget s)\<lparr>bs_avail := bs_avail (budget s) + w\<rparr>"
    by (simp add: bs_release_def Let_def not_less)
  then show ?thesis using assms(2) finish w by (auto simp: uploads_ok_def reserved_def)
qed

lemma upload_reachable_ok: "upload_reachable capacity s \<Longrightarrow> uploads_ok capacity s"
proof (induction rule: upload_reachable.induct)
  case start
  then show ?case by (simp add: uploads_ok_def newByteSemaphore_def reserved_def)
next
  case (step s t)
  then show ?case by (blast intro: upload_step_ok)
qed

text \<open>
  C36.  The weights of the uploads that send never exceed the budget, and together with what is available they are
  all of it, in every interleaving of uploads that arrive, send, finish or give up.  When nothing is being
  sent, every waiting upload can start, so no upload is too large for the budget.
\<close>

theorem inflight_bounded:
  assumes "upload_reachable capacity s"
  shows "reserved s \<le> max 1 capacity \<and> bs_avail (budget s) = max 1 capacity - reserved s \<and>
    (sending s = [] \<longrightarrow> list_all (\<lambda>(_, n). bs_acquire (budget s) n \<noteq> None) (waiting s))"
proof -
  have ok: "uploads_ok capacity s" using assms by (rule upload_reachable_ok)
  have "clamp (budget s) n \<le> bs_cap (budget s)" for n using ok by (auto simp: clamp_def Let_def uploads_ok_def)
  then show ?thesis
    using ok by (auto simp: uploads_ok_def bs_acquire_def Let_def reserved_def list_all_iff not_less)
qed

text \<open>
  A buffered upload reads its body before it asks for the budget, so the bodies of waiting uploads are in
  memory, without any bound.
\<close>

theorem waiting_bodies_unbounded:
  "\<exists>s. upload_reachable capacity s \<and> resident s = int k * maxS3UploadBytes"
proof -
  let ?s = "\<lambda>k. \<lparr>budget = newByteSemaphore capacity, waiting = replicate k (True, maxS3UploadBytes), sending = []\<rparr>"
  have "upload_reachable capacity (?s k)"
  proof (induction k)
    case (Suc k)
    have "upload_step (?s k) (?s k\<lparr>waiting := (True, maxS3UploadBytes) # waiting (?s k)\<rparr>)"
      by (rule upload_step.arrive) (simp_all add: maxS3UploadBytes_def)
    then show ?case using upload_reachable.step [OF Suc] by simp
  qed (simp add: upload_reachable.start)
  moreover have "resident (?s k) = int k * maxS3UploadBytes" by (simp add: resident_def sum_list_replicate)
  ultimately show ?thesis by blast
qed

theorem inflight_bounded_witness:
  "upload_reachable 10 \<lparr>budget = \<lparr>bs_cap = 10, bs_avail = 10\<rparr>, waiting = [(False, 20)], sending = []\<rparr> \<and>
   bs_acquire \<lparr>bs_cap = 10, bs_avail = 10\<rparr> 20 = Some (10, \<lparr>bs_cap = 10, bs_avail = 0\<rparr>)"
proof -
  let ?s0 = "\<lparr>budget = \<lparr>bs_cap = 10, bs_avail = 10\<rparr>, waiting = [], sending = []\<rparr>"
  have "upload_reachable 10 ?s0" using upload_reachable.start [of 10] by (simp add: newByteSemaphore_def)
  moreover have "upload_step ?s0 (?s0\<lparr>waiting := (False, 20) # waiting ?s0\<rparr>)"
    by (rule upload_step.arrive) (simp_all add: maxS3UploadBytes_def)
  ultimately have r: "upload_reachable 10 (?s0\<lparr>waiting := [(False, 20)]\<rparr>)" using upload_reachable.step by fastforce
  have "bs_acquire \<lparr>bs_cap = 10, bs_avail = 10\<rparr> 20 \<noteq> None" using inflight_bounded [OF r] by simp
  then show ?thesis using r by (simp add: bs_acquire_def clamp_def)
qed

section \<open>The store\<close>

definition defaultS3Region :: string where
  "defaultS3Region = ''us-east-1''"

record S3Config =
  Endpoint :: string
  Bucket :: string
  Region :: string
  cfg_AccessKeyID :: string
  cfg_SecretAccessKey :: string
  cfg_SessionToken :: string
  ForcePathStyle :: bool
  MaxInflightBytes :: int

record S3Storage =
  endpoint_host :: string
  bucket :: string
  region :: string
  creds :: credentials
  pathStyle :: bool
  inflight :: byteSemaphore

definition trimRight_slash :: "string \<Rightarrow> string" where
  "trimRight_slash s = rev (dropWhile (\<lambda>c. c = CHR ''/'') (rev s))"

text \<open>\<open>parse\<close> is \<^verbatim>\<open>url.Parse\<close>, by the scheme and the host (with port) of its result.\<close>

definition NewS3Storage :: "(string \<Rightarrow> go_error + string \<times> string) \<Rightarrow> S3Config \<Rightarrow> go_error + S3Storage" where
  "NewS3Storage parse cfg =
     (if trimSpace (Bucket cfg) = [] then Inl (Sentinel ''storage: MORF_S3_BUCKET is required for the s3 backend'')
      else if trimSpace (cfg_AccessKeyID cfg) = [] \<or> trimSpace (cfg_SecretAccessKey cfg) = []
      then Inl (Sentinel ''storage: AWS_ACCESS_KEY_ID and AWS_SECRET_ACCESS_KEY are required for the s3 backend'')
      else (let rg = (if trimSpace (Region cfg) = [] then defaultS3Region else trimSpace (Region cfg));
                given = trimSpace (Endpoint cfg);
                endpointRaw = (if given = [] then ''https://s3.'' @ rg @ ''.amazonaws.com'' else given);
                style = (if given = [] then False else ForcePathStyle cfg)
            in case parse (trimRight_slash endpointRaw) of
                 Inl e \<Rightarrow> Inl (storage_errf ''invalid MORF_S3_ENDPOINT '' endpointRaw e)
               | Inr (scheme, host) \<Rightarrow>
                   if scheme = [] \<or> host = []
                   then Inl (Errorf (''storage: MORF_S3_ENDPOINT '' @ quoted endpointRaw @ '' must include scheme and host'') [])
                   else Inr \<lparr>endpoint_host = host, bucket = Bucket cfg, region = rg,
                      creds = \<lparr>AccessKeyID = cfg_AccessKeyID cfg, SecretAccessKey = cfg_SecretAccessKey cfg, SessionToken = cfg_SessionToken cfg\<rparr>,
                      pathStyle = style,
                      inflight = newByteSemaphore (if MaxInflightBytes cfg \<le> 0 then defaultS3MaxInflightBytes else MaxInflightBytes cfg)\<rparr>))"

definition NewS3StorageFromEnv :: "(string \<Rightarrow> go_error + string \<times> string) \<Rightarrow> env \<Rightarrow> go_error + S3Storage" where
  "NewS3StorageFromEnv parse V =
     NewS3Storage parse
       \<lparr>Endpoint = Getenv V ''MORF_S3_ENDPOINT'', Bucket = Getenv V ''MORF_S3_BUCKET'', Region = Getenv V ''MORF_S3_REGION'',
        cfg_AccessKeyID = Getenv V ''AWS_ACCESS_KEY_ID'', cfg_SecretAccessKey = Getenv V ''AWS_SECRET_ACCESS_KEY'',
        cfg_SessionToken = Getenv V ''AWS_SESSION_TOKEN'', ForcePathStyle = Bool V ''MORF_S3_FORCE_PATH_STYLE'' True,
        MaxInflightBytes = Int64Positive V ''MORF_S3_MAX_INFLIGHT_BYTES'' defaultS3MaxInflightBytes\<rparr>"

text \<open>The host and the path of an object.\<close>

definition objectURL :: "S3Storage \<Rightarrow> string \<Rightarrow> go_error + string \<times> string" where
  "objectURL st key =
     (if trimSpace key = [] then Inl (Sentinel ''storage: empty key'')
      else (let k = trimPrefix key ''/'' in
        if pathStyle st then Inr (endpoint_host st, ''/'' @ bucket st @ ''/'' @ k)
        else Inr (bucket st @ ''.'' @ endpoint_host st, ''/'' @ k)))"

text \<open>
  The service and the way to it: whether a request can be built for a URL, the clock, and the answer to a
  request, which is a response or the text of a network error.
\<close>

record 's s3_service =
  request_err :: "string \<times> string \<Rightarrow> go_error option"
  sign_time :: "nat \<Rightarrow> go_time"
  serve :: "s3_request \<Rightarrow> 's \<Rightarrow> (string + http_response) \<times> 's"

definition newSignedRequest :: "('s, 'z) s3_service_scheme \<Rightarrow> S3Storage \<Rightarrow> string \<Rightarrow> string \<Rightarrow> string option \<Rightarrow> nat \<Rightarrow> go_error + s3_request" where
  "newSignedRequest N st meth key body k =
     (case objectURL st key of
        Inl e \<Rightarrow> Inl e
      | Inr (host, path) \<Rightarrow>
          (let payloadHash = (case body of Some b \<Rightarrow> sha256Hex b | None \<Rightarrow> emptyPayloadHash) in
           case request_err N (host, path) of
             Some e \<Rightarrow> Inl e
           | None \<Rightarrow>
               Inr (signRequest (header_set ''X-Amz-Content-Sha256'' payloadHash
                      \<lparr>rq_method = meth, rq_host = host, rq_path = path, rq_query = [], rq_headers = [],
                       rq_length = (case body of Some b \<Rightarrow> int (length b) | None \<Rightarrow> 0), rq_body = (case body of Some b \<Rightarrow> b | None \<Rightarrow> [])\<rparr>)
                    payloadHash (creds st) (region st) ''s3'' (sign_time N k))))"

definition newStreamingRequest :: "('s, 'z) s3_service_scheme \<Rightarrow> S3Storage \<Rightarrow> string \<Rightarrow> string \<Rightarrow> int \<Rightarrow> nat \<Rightarrow> go_error + s3_request" where
  "newStreamingRequest N st key body sz k =
     (case objectURL st key of
        Inl e \<Rightarrow> Inl e
      | Inr (host, path) \<Rightarrow>
          (case request_err N (host, path) of
             Some e \<Rightarrow> Inl e
           | None \<Rightarrow>
               Inr (signRequest (header_set ''X-Amz-Content-Sha256'' unsignedPayload
                      \<lparr>rq_method = ''PUT'', rq_host = host, rq_path = path, rq_query = [], rq_headers = [], rq_length = sz, rq_body = body\<rparr>)
                    unsignedPayload (creds st) (region st) ''s3'' (sign_time N k))))"

definition retryableStatus :: "int \<Rightarrow> bool" where
  "retryableStatus code \<longleftrightarrow> code = 429 \<or> code \<ge> 500"

definition httpErr :: "string \<Rightarrow> string \<Rightarrow> http_response \<Rightarrow> go_error" where
  "httpErr op key resp = Errorf (''storage: s3 '' @ op @ '' '' @ quoted key @ '': status '' @ show_int (StatusCode resp) @ '': ''
     @ trimSpace (take 2048 (body_data resp))) []"

definition s3RetryConfig :: RetryConfig where
  "s3RetryConfig = \<lparr>MaxRetries = 3, InitialDelay = 200 * 1000000, MaxDelay = 5 * second_ns, Multiplier = 2, Jitter = True\<rparr>"

text \<open>
  The function \<^verbatim>\<open>doWithRetry\<close> retries.  Its state is the service, the number of the attempt (each one reads
  the clock anew), what the builder of requests keeps (\<open>'u\<close>, changed by \<open>used\<close> once a request is sent) and the
  response.  The client refuses a body whose length is not the declared one; the service does not store the
  incomplete object.
\<close>

definition s3_attempt ::
  "('s, 'z) s3_service_scheme \<Rightarrow> string \<Rightarrow> string \<Rightarrow> (nat \<Rightarrow> 'u \<Rightarrow> go_error + s3_request) \<Rightarrow> ('u \<Rightarrow> 'u) \<Rightarrow>
     's \<times> nat \<times> 'u \<times> http_response option \<Rightarrow> go_error option \<times> 's \<times> nat \<times> 'u \<times> http_response option" where
  "s3_attempt N op key build used w =
     (case w of (s, k, u, out) \<Rightarrow>
        (case build k u of
           Inl berr \<Rightarrow> (Some (RetryableError berr False), s, Suc k, u, out)
         | Inr req \<Rightarrow>
             if rq_length req \<noteq> int (length (rq_body req))
             then (Some (NetError (''http: ContentLength='' @ show_int (rq_length req) @ '' with Body length ''
                     @ show_int (int (length (rq_body req))))), s, Suc k, used u, out)
             else (case serve N req s of
                (Inl msg, s') \<Rightarrow> (Some (NetError msg), s', Suc k, used u, out)
              | (Inr resp, s') \<Rightarrow>
                  if retryableStatus (StatusCode resp)
                  then (Some (RetryableError (httpErr op key resp) True), s', Suc k, used u, out)
                  else (None, s', Suc k, used u, Some resp))))"

definition doWithRetry ::
  "('s, 'z) s3_service_scheme \<Rightarrow> retry_env \<Rightarrow> string \<Rightarrow> string \<Rightarrow> (nat \<Rightarrow> 'u \<Rightarrow> go_error + s3_request) \<Rightarrow> ('u \<Rightarrow> 'u) \<Rightarrow> 'u \<Rightarrow> 's \<Rightarrow>
     (go_error + http_response) \<times> 's" where
  "doWithRetry N R op key build used u s =
     (case RetryWithContext R (s3_attempt N op key build used) s3RetryConfig (s, 0, u, None) of
        (r, _, _, s', _, _, out) \<Rightarrow>
          (case (r, out) of
             (Failed e, _) \<Rightarrow> (Inl e, s')
           | (_, Some resp) \<Rightarrow> (Inr resp, s')
           | (_, None) \<Rightarrow> (Inl (Sentinel ''nil response''), s')))"

section \<open>Operations\<close>

definition s3_errf :: "string \<Rightarrow> string \<Rightarrow> go_error \<Rightarrow> go_error" where
  "s3_errf op key e = Errorf (''storage: s3 '' @ op @ '' '' @ quoted key @ '': '' @ err_msg e) [e]"

definition status2xx :: "http_response \<Rightarrow> bool" where
  "status2xx resp \<longleftrightarrow> StatusCode resp div 100 = 2"

text \<open>
  The body of an upload: its bytes, the error reading it ends with, whether it can seek, the error of the
  first seek, and whether it is a file that is closed once it was sent: the HTTP client closes the body of
  every request that has a \<^verbatim>\<open>Close\<close> method.
\<close>

record upload_body =
  up_data :: string
  up_err :: "go_error option"
  up_seekable :: bool
  up_seek_err :: "go_error option"
  up_closes :: bool

definition os_ErrClosed :: go_error where
  "os_ErrClosed = Sentinel ''file already closed''"

definition put_answer :: "string \<Rightarrow> (go_error + http_response) \<times> 's \<Rightarrow> go_error option \<times> 's" where
  "put_answer key a =
     (case a of
        (Inl e, s') \<Rightarrow> (Some (s3_errf ''PUT'' key e), s')
      | (Inr resp, s') \<Rightarrow> (if \<not> status2xx resp then Some (httpErr ''PUT'' key resp) else None, s'))"

text \<open>
  \<open>budget_err\<close> is the error of a wait for the budget that the context ended.  The builder's state tells
  whether the body was closed.
\<close>

definition stream_build :: "('s, 'z) s3_service_scheme \<Rightarrow> S3Storage \<Rightarrow> string \<Rightarrow> upload_body \<Rightarrow> int \<Rightarrow> nat \<Rightarrow> bool \<Rightarrow> go_error + s3_request" where
  "stream_build N st key up sz k was_closed =
     (if was_closed then Inl (storage_errf ''rewinding upload for '' key os_ErrClosed)
      else newStreamingRequest N st key (up_data up) sz k)"

definition putStreaming ::
  "('s, 'z) s3_service_scheme \<Rightarrow> retry_env \<Rightarrow> S3Storage \<Rightarrow> go_error option \<Rightarrow> string \<Rightarrow> upload_body \<Rightarrow> int \<Rightarrow> 's \<Rightarrow> go_error option \<times> 's" where
  "putStreaming N R st budget_err key up sz s =
     (case up_seek_err up of
        Some e \<Rightarrow> (Some (storage_errf ''seeking upload for '' key e), s)
      | None \<Rightarrow>
          (case budget_err of
             Some e \<Rightarrow> (Some (storage_errf ''acquiring upload budget for '' key e), s)
           | None \<Rightarrow> put_answer key (doWithRetry N R ''PUT'' key (stream_build N st key up sz) (\<lambda>_. up_closes up) False s)))"

definition putBuffered ::
  "('s, 'z) s3_service_scheme \<Rightarrow> retry_env \<Rightarrow> S3Storage \<Rightarrow> go_error option \<Rightarrow> string \<Rightarrow> upload_body \<Rightarrow> int \<Rightarrow> 's \<Rightarrow> go_error option \<times> 's" where
  "putBuffered N R st budget_err key up sz s =
     (let over = int (length (up_data up)) > maxS3UploadBytes in
      if \<not> over \<and> up_err up \<noteq> None then (Some (storage_errf ''reading upload for '' key (the (up_err up))), s)
      else if over then (Some (Errorf (''storage: upload for '' @ quoted key @ '' exceeds the '' @ show_int maxS3UploadBytes @ ''-byte limit'') []), s)
      else if sz \<ge> 0 \<and> int (length (up_data up)) \<noteq> sz
      then (Some (Errorf (''storage: upload size mismatch for '' @ quoted key @ '': got '' @ show_int (int (length (up_data up)))
                    @ '', want '' @ show_int sz) []), s)
      else (case budget_err of
        Some e \<Rightarrow> (Some (storage_errf ''acquiring upload budget for '' key e), s)
      | None \<Rightarrow> put_answer key (doWithRetry N R ''PUT'' key (\<lambda>k _. newSignedRequest N st ''PUT'' key (Some (up_data up)) k) id () s)))"

definition s3_Put ::
  "('s, 'z) s3_service_scheme \<Rightarrow> retry_env \<Rightarrow> S3Storage \<Rightarrow> go_error option \<Rightarrow> string \<Rightarrow> upload_body \<Rightarrow> int \<Rightarrow> 's \<Rightarrow> go_error option \<times> 's" where
  "s3_Put N R st budget_err key up sz s =
     (if sz > maxS3UploadBytes
      then (Some (Errorf (''storage: upload for '' @ quoted key @ '' is '' @ show_int sz @ '' bytes, exceeds the ''
              @ show_int maxS3UploadBytes @ ''-byte limit'') []), s)
      else if sz \<ge> 0 \<and> up_seekable up then putStreaming N R st budget_err key up sz s
      else putBuffered N R st budget_err key up sz s)"

definition bodyless :: "('s, 'z) s3_service_scheme \<Rightarrow> retry_env \<Rightarrow> S3Storage \<Rightarrow> string \<Rightarrow> string \<Rightarrow> 's \<Rightarrow> (go_error + http_response) \<times> 's" where
  "bodyless N R st meth key s = doWithRetry N R meth key (\<lambda>k _. newSignedRequest N st meth key None k) id () s"

definition s3_Open :: "('s, 'z) s3_service_scheme \<Rightarrow> retry_env \<Rightarrow> S3Storage \<Rightarrow> string \<Rightarrow> 's \<Rightarrow> (go_error + reader) \<times> 's" where
  "s3_Open N R st key s =
     (case bodyless N R st ''GET'' key s of
        (Inl e, s') \<Rightarrow> (Inl (s3_errf ''GET'' key e), s')
      | (Inr resp, s') \<Rightarrow>
          (if StatusCode resp = 404 then (Inl (missing key), s')
           else if \<not> status2xx resp then (Inl (httpErr ''GET'' key resp), s')
           else (Inr \<lparr>rd_data = body_data resp, rd_err = body_err resp\<rparr>, s')))"

definition s3_Delete :: "('s, 'z) s3_service_scheme \<Rightarrow> retry_env \<Rightarrow> S3Storage \<Rightarrow> string \<Rightarrow> 's \<Rightarrow> go_error option \<times> 's" where
  "s3_Delete N R st key s =
     (case bodyless N R st ''DELETE'' key s of
        (Inl e, s') \<Rightarrow> (Some (s3_errf ''DELETE'' key e), s')
      | (Inr resp, s') \<Rightarrow>
          (if StatusCode resp = 404 then (None, s')
           else if \<not> status2xx resp then (Some (httpErr ''DELETE'' key resp), s')
           else (None, s')))"

definition s3_Stat :: "('s, 'z) s3_service_scheme \<Rightarrow> retry_env \<Rightarrow> S3Storage \<Rightarrow> string \<Rightarrow> 's \<Rightarrow> (go_error + int) \<times> 's" where
  "s3_Stat N R st key s =
     (case bodyless N R st ''HEAD'' key s of
        (Inl e, s') \<Rightarrow> (Inl (s3_errf ''HEAD'' key e), s')
      | (Inr resp, s') \<Rightarrow>
          (if StatusCode resp = 404 then (Inl (missing key), s')
           else if \<not> status2xx resp then (Inl (httpErr ''HEAD'' key resp), s')
           else if ContentLength resp < 0 then (Inl (Errorf (''storage: s3 HEAD '' @ quoted key @ '': missing Content-Length'') []), s')
           else (Inr (ContentLength resp), s')))"

definition s3_LocalPath :: "S3Storage \<Rightarrow> string \<Rightarrow> string option" where
  "s3_LocalPath st key = None"

section \<open>What S3 promises\<close>

abbreviation target :: "s3_request \<Rightarrow> string \<times> string" where
  "target rq \<equiv> (rq_host rq, rq_path rq)"

text \<open>
  \<open>object s t\<close> is the object the service has at the host and path \<open>t\<close>.  A request concerns only its own object;
  an upload stores the whole body or nothing, and a success status says it did; reading changes nothing
  and answers with the object; a deletion that is acknowledged has happened.
\<close>

locale object_server =
  fixes serve :: "s3_request \<Rightarrow> 's \<Rightarrow> (string + http_response) \<times> 's"
    and object :: "'s \<Rightarrow> string \<times> string \<Rightarrow> string option"
  assumes frame: "serve rq s = (a, s') \<Longrightarrow> t \<noteq> target rq \<Longrightarrow> object s' t = object s t"
    and put_effect: "rq_method rq = ''PUT'' \<Longrightarrow> serve rq s = (a, s') \<Longrightarrow> object s' (target rq) \<in> {object s (target rq), Some (rq_body rq)}"
    and put_done: "rq_method rq = ''PUT'' \<Longrightarrow> serve rq s = (Inr resp, s') \<Longrightarrow> status2xx resp \<Longrightarrow> object s' (target rq) = Some (rq_body rq)"
    and read_only: "rq_method rq \<in> {''GET'', ''HEAD''} \<Longrightarrow> serve rq s = (a, s') \<Longrightarrow> object s' = object s"
    and get_done: "rq_method rq = ''GET'' \<Longrightarrow> serve rq s = (Inr resp, s') \<Longrightarrow> status2xx resp \<Longrightarrow> body_err resp = None \<Longrightarrow>
      object s (target rq) = Some (body_data resp)"
    and head_done: "rq_method rq = ''HEAD'' \<Longrightarrow> serve rq s = (Inr resp, s') \<Longrightarrow> status2xx resp \<Longrightarrow> 0 \<le> ContentLength resp \<Longrightarrow>
      \<exists>d. object s (target rq) = Some d \<and> ContentLength resp = int (length d)"
    and not_found: "serve rq s = (Inr resp, s') \<Longrightarrow> StatusCode resp = 404 \<Longrightarrow> object s (target rq) = None"
    and delete_effect: "rq_method rq = ''DELETE'' \<Longrightarrow> serve rq s = (a, s') \<Longrightarrow> object s' (target rq) \<in> {object s (target rq), None}"
    and delete_done: "rq_method rq = ''DELETE'' \<Longrightarrow> serve rq s = (Inr resp, s') \<Longrightarrow> status2xx resp \<or> StatusCode resp = 404 \<Longrightarrow>
      object s' (target rq) = None"

section \<open>The retried request\<close>

text \<open>
  A run of \<^const>\<open>doWithRetry\<close> with a builder that makes requests of one kind: if every answer of the service
  keeps \<open>P\<close>, so does the run, and if it returns a response then it is the answer to a request of this kind in
  a state with \<open>P\<close>.
\<close>

lemma s3_attempt_keeps:
  assumes build: "\<And>k u req. build k u = Inr req \<Longrightarrow> Q req"
    and keeps: "\<And>req s a s'. Q req \<Longrightarrow> rq_length req = int (length (rq_body req)) \<Longrightarrow> P s \<Longrightarrow> serve N req s = (a, s') \<Longrightarrow> P s'"
    and "P (fst w)"
  shows "P (fst (snd (s3_attempt N op key build used w)))"
  using assms(3) by (cases w) (auto simp: s3_attempt_def split: sum.splits prod.splits dest: build intro: keeps)

lemma s3_attempts_keep:
  assumes "\<And>k u req. build k u = Inr req \<Longrightarrow> Q req"
    and "\<And>req s a s'. Q req \<Longrightarrow> rq_length req = int (length (rq_body req)) \<Longrightarrow> P s \<Longrightarrow> serve N req s = (a, s') \<Longrightarrow> P s'"
    and "P (fst w)"
  shows "P (fst (state_after (s3_attempt N op key build used) n w))"
proof (induction n)
  case (Suc n)
  show ?case using s3_attempt_keeps [of build Q P N, OF assms(1,2) Suc] by simp
qed (use assms(3) in simp)

lemma doWithRetry_spec:
  assumes run: "doWithRetry N R op key build used u s = (r, s')"
    and build: "\<And>k u req. build k u = Inr req \<Longrightarrow> Q req"
    and keeps: "\<And>req s a s'. Q req \<Longrightarrow> rq_length req = int (length (rq_body req)) \<Longrightarrow> P s \<Longrightarrow> serve N req s = (a, s') \<Longrightarrow> P s'"
    and P: "P s"
  shows "P s' \<and> (\<forall>resp. r = Inr resp \<longrightarrow>
    (\<exists>req s1. Q req \<and> rq_length req = int (length (rq_body req)) \<and> P s1 \<and> serve N req s1 = (Inr resp, s')))"
proof (intro conjI allI impI)
  let ?fn = "s3_attempt N op key build used"
  obtain rr n ds k u' out where loop: "retry_loop R ?fn s3RetryConfig 0 None [] (s, 0, u, None) = (rr, n, ds, s', k, u', out)"
    and r: "r = (case (rr, out) of (Failed e, _) \<Rightarrow> Inl e | (_, Some resp) \<Rightarrow> Inr resp | (_, None) \<Rightarrow> Inl (Sentinel ''nil response''))"
    using run by (auto simp: doWithRetry_def RetryWithContext_def split: prod.splits retry_result.splits option.splits)
  have "retry_spec R ?fn s3RetryConfig (s, 0, u, None) rr n (s', k, u', out) \<and> int n \<le> max 0 (MaxRetries s3RetryConfig + 1)"
    by (rule retry_loop_spec [where k = 0 and l = None and ds = "[]" and ds' = ds])
      (simp add: loop, simp_all add: retried_def last_ok_def s3RetryConfig_def)
  then have spec: "retry_spec R ?fn s3RetryConfig (s, 0, u, None) rr n (s', k, u', out)" ..
  then have after: "(s', k, u', out) = state_after ?fn n (s, 0, u, None)" by (simp add: retry_spec_def)
  have inv: "P (fst (state_after ?fn m (s, 0, u, None)))" for m
    using s3_attempts_keep [of build Q P N "(s, 0, u, None)", OF build keeps] P by simp
  from inv [of n] show "P s'" unfolding after [symmetric] by simp
  fix resp
  assume "r = Inr resp"
  then have "rr = Done" "out = Some resp"
    using r spec by (auto simp: retry_spec_def s3RetryConfig_def split: retry_result.splits option.splits)
  then obtain m where n: "n = Suc m" and ok: "outcome ?fn (s, 0, u, None) m = None"
    using spec by (cases n) (auto simp: retry_spec_def)
  obtain s1 k1 u1 out1 where w: "state_after ?fn m (s, 0, u, None) = (s1, k1, u1, out1)" by (metis surj_pair)
  have "?fn (s1, k1, u1, out1) = (None, s', k, u', Some resp)"
    using after ok by (simp add: n outcome_def w \<open>out = Some resp\<close> prod_eq_iff)
  moreover have "P s1" using inv [of m] by (simp add: w)
  ultimately show "\<exists>req s1. Q req \<and> rq_length req = int (length (rq_body req)) \<and> P s1 \<and> serve N req s1 = (Inr resp, s')"
    by (auto simp: s3_attempt_def split: sum.splits prod.splits if_splits dest!: build)
qed

text \<open>The requests the store builds for a key.\<close>

lemma signed_fields [simp]:
  "rq_method (signRequest rq h c rg sv t) = rq_method rq" "rq_host (signRequest rq h c rg sv t) = rq_host rq"
  "rq_path (signRequest rq h c rg sv t) = rq_path rq"
  "rq_body (signRequest rq h c rg sv t) = rq_body rq" "rq_length (signRequest rq h c rg sv t) = rq_length rq"
  by (simp_all add: signRequest_def header_set_def Let_def)

definition request_for :: "S3Storage \<Rightarrow> string \<Rightarrow> string \<Rightarrow> string \<Rightarrow> s3_request \<Rightarrow> bool" where
  "request_for st meth key body req \<longleftrightarrow> rq_method req = meth \<and> objectURL st key = Inr (target req) \<and> rq_body req = body"

lemma built_requests:
  "newSignedRequest N st meth key b k = Inr req \<Longrightarrow> request_for st meth key (case b of None \<Rightarrow> [] | Some d \<Rightarrow> d) req \<and>
     rq_length req = (case b of None \<Rightarrow> 0 | Some d \<Rightarrow> int (length d))"
  "newStreamingRequest N st key d sz k = Inr req \<Longrightarrow> request_for st ''PUT'' key d req \<and> rq_length req = sz"
  "stream_build N st key up sz k c = Inr req \<Longrightarrow> request_for st ''PUT'' key (up_data up) req \<and> rq_length req = sz"
  by (auto simp: newSignedRequest_def newStreamingRequest_def stream_build_def request_for_def header_set_def Let_def
      split: sum.splits option.splits if_splits)

text \<open>
  What an upload or a deletion may have done so far: nothing elsewhere, and at its object nothing or everything.
\<close>

definition put_state :: "('s \<Rightarrow> string \<times> string \<Rightarrow> string option) \<Rightarrow> 's \<Rightarrow> string \<times> string \<Rightarrow> string \<Rightarrow> 's \<Rightarrow> bool" where
  "put_state object s t d s' \<longleftrightarrow>
     (\<forall>t'. t' \<noteq> t \<longrightarrow> object s' t' = object s t') \<and> object s' t \<in> {object s t, Some d}"

definition delete_state :: "('s \<Rightarrow> string \<times> string \<Rightarrow> string option) \<Rightarrow> 's \<Rightarrow> string \<times> string \<Rightarrow> 's \<Rightarrow> bool" where
  "delete_state object s t s' \<longleftrightarrow>
     (\<forall>t'. t' \<noteq> t \<longrightarrow> object s' t' = object s t') \<and> object s' t \<in> {object s t, None}"

context object_server
begin

lemma put_state_serve:
  assumes "rq_method rq = ''PUT''" "put_state object s (target rq) (rq_body rq) s1" "serve rq s1 = (a, s')"
  shows "put_state object s (target rq) (rq_body rq) s'"
  using assms frame [OF assms(3)] put_effect [OF assms(1,3)] by (auto simp: put_state_def)

lemma put_retried:
  assumes run: "put_answer key (doWithRetry N R ''PUT'' key build used u s) = (err, s')"
    and N: "s3_service.serve N = serve"
    and build: "\<And>k u req. build k u = Inr req \<Longrightarrow> request_for st ''PUT'' key d req \<and> (sz \<ge> 0 \<longrightarrow> rq_length req = sz)"
    and url: "objectURL st key = Inr t"
  shows "put_state object s t d s' \<and> (err = None \<longrightarrow> object s' t = Some d \<and> (sz \<ge> 0 \<longrightarrow> int (length d) = sz))"
proof -
  let ?Q = "\<lambda>req. request_for st ''PUT'' key d req \<and> (sz \<ge> 0 \<longrightarrow> rq_length req = sz)"
  obtain r where do: "doWithRetry N R ''PUT'' key build used u s = (r, s')"
    using run by (auto simp: put_answer_def split: prod.splits sum.splits)
  have Q: "rq_method req = ''PUT''" "target req = t" "rq_body req = d" if "?Q req" for req
    using that url by (auto simp: request_for_def)
  have keeps: "put_state object s t d s2" if "?Q req" "put_state object s t d s1" "s3_service.serve N req s1 = (a, s2)" for req s1 a s2
    using put_state_serve [of req s s1 a s2] Q [OF that(1)] that(2,3) by (simp add: N)
  have start: "put_state object s t d s" by (simp add: put_state_def)
  have spec: "put_state object s t d s' \<and> (\<forall>resp. r = Inr resp \<longrightarrow>
      (\<exists>req s1. ?Q req \<and> rq_length req = int (length (rq_body req)) \<and> put_state object s t d s1 \<and> s3_service.serve N req s1 = (Inr resp, s')))"
    by (rule doWithRetry_spec [OF do]) (use build keeps start in blast)+
  have "object s' t = Some d \<and> (sz \<ge> 0 \<longrightarrow> int (length d) = sz)" if ok: "err = None"
  proof -
    obtain resp where resp: "r = Inr resp" "status2xx resp"
      using run ok by (auto simp: do put_answer_def split: sum.splits if_splits)
    then obtain req s1 where "?Q req" "rq_length req = int (length (rq_body req))" "serve req s1 = (Inr resp, s')"
      using spec by (auto simp: N)
    then show ?thesis using put_done [of req s1 resp s'] Q [of req] resp by auto
  qed
  then show ?thesis using spec by blast
qed

lemma bodyless_response:
  assumes run: "bodyless N R st meth key s = (r, s')" and N: "s3_service.serve N = serve" and url: "objectURL st key = Inr t"
    and keeps: "\<And>rq s1 a s2. rq_method rq = meth \<Longrightarrow> target rq = t \<Longrightarrow> P s1 \<Longrightarrow> serve rq s1 = (a, s2) \<Longrightarrow> P s2" and P: "P s"
  shows "P s' \<and> (\<forall>resp. r = Inr resp \<longrightarrow> (\<exists>rq s1. rq_method rq = meth \<and> target rq = t \<and> P s1 \<and> serve rq s1 = (Inr resp, s')))"
proof -
  let ?Q = "\<lambda>rq. rq_method rq = meth \<and> target rq = t"
  have built: "?Q req" if "newSignedRequest N st meth key None k = Inr req" for k req
    using built_requests(1) [OF that] url by (auto simp: request_for_def)
  have "P s' \<and> (\<forall>resp. r = Inr resp \<longrightarrow>
      (\<exists>req s1. ?Q req \<and> rq_length req = int (length (rq_body req)) \<and> P s1 \<and> s3_service.serve N req s1 = (Inr resp, s')))"
    by (rule doWithRetry_spec [OF run [unfolded bodyless_def]]) (use built keeps P N in \<open>simp; blast\<close>)+
  then show ?thesis unfolding N by blast
qed

lemma open_reads:
  assumes run: "s3_Open N R st key s = (r, s')" and N: "s3_service.serve N = serve" and url: "objectURL st key = Inr t"
  shows "object s' = object s"
    and "r = Inr rd \<Longrightarrow> rd_err rd = None \<Longrightarrow> object s t = Some (rd_data rd)"
proof -
  obtain a where b: "bodyless N R st ''GET'' key s = (a, s')"
    using run by (auto simp: s3_Open_def split: prod.splits sum.splits if_splits)
  have keeps: "object s2 = object s" if "rq_method rq = ''GET''" "object s1 = object s" "serve rq s1 = (x, s2)" for rq s1 x s2
    using read_only [of rq s1 x s2] that by simp
  have spec: "object s' = object s \<and> (\<forall>resp. a = Inr resp \<longrightarrow>
      (\<exists>rq s1. rq_method rq = ''GET'' \<and> target rq = t \<and> object s1 = object s \<and> serve rq s1 = (Inr resp, s')))"
    by (rule bodyless_response [where P = "\<lambda>s1. object s1 = object s", OF b N url]) (use keeps in blast, rule refl)
  then show "object s' = object s" by simp
  assume "r = Inr rd" "rd_err rd = None"
  then obtain resp where resp: "a = Inr resp" "status2xx resp" "body_err resp = None" "rd_data rd = body_data resp"
    using run by (auto simp: s3_Open_def b split: sum.splits if_splits)
  then obtain rq s1 where "rq_method rq = ''GET''" "target rq = t" "object s1 = object s" "serve rq s1 = (Inr resp, s')"
    using spec by blast
  then show "object s t = Some (rd_data rd)" using get_done [of rq s1 resp s'] resp by auto
qed

lemma delete_removes:
  assumes run: "s3_Delete N R st key s = (err, s')" and N: "s3_service.serve N = serve" and url: "objectURL st key = Inr t"
  shows "delete_state object s t s' \<and> (err = None \<longrightarrow> object s' t = None)"
proof -
  obtain a where b: "bodyless N R st ''DELETE'' key s = (a, s')"
    using run by (auto simp: s3_Delete_def split: prod.splits sum.splits if_splits)
  have keeps: "delete_state object s t s2"
    if "rq_method rq = ''DELETE''" "target rq = t" "delete_state object s t s1" "serve rq s1 = (x, s2)" for rq s1 x s2
    using frame [OF that(4)] delete_effect [OF that(1,4)] that(2,3) unfolding delete_state_def by auto
  have start: "delete_state object s t s" by (simp add: delete_state_def)
  have spec: "delete_state object s t s' \<and> (\<forall>resp. a = Inr resp \<longrightarrow>
      (\<exists>rq s1. rq_method rq = ''DELETE'' \<and> target rq = t \<and> delete_state object s t s1 \<and> serve rq s1 = (Inr resp, s')))"
    by (rule bodyless_response [where P = "delete_state object s t", OF b N url]) (use keeps in blast, rule start)
  have "object s' t = None" if ok: "err = None"
  proof -
    obtain resp where resp: "a = Inr resp" "status2xx resp \<or> StatusCode resp = 404"
      using run ok by (auto simp: s3_Delete_def b split: sum.splits if_splits)
    then obtain rq s1 where "rq_method rq = ''DELETE''" "target rq = t" "serve rq s1 = (Inr resp, s')" using spec by blast
    then show ?thesis using delete_done [of rq s1 resp s'] resp(2) by simp
  qed
  then show ?thesis using spec by blast
qed

end

lemma s3_Put_cases:
  assumes "s3_Put N R st budget_err key up sz s = (err, s')"
  shows "(\<exists>e. err = Some e \<and> s' = s) \<or>
    put_answer key (doWithRetry N R ''PUT'' key (stream_build N st key up sz) (\<lambda>_. up_closes up) False s) = (err, s') \<or>
    (sz \<ge> 0 \<longrightarrow> int (length (up_data up)) = sz) \<and>
    put_answer key (doWithRetry N R ''PUT'' key (\<lambda>k _. newSignedRequest N st ''PUT'' key (Some (up_data up)) k) id () s) = (err, s')"
  using assms unfolding s3_Put_def putStreaming_def putBuffered_def Let_def
  by (auto simp only: prod.inject split: if_split_asm option.split_asm)

lemma put_stored:
  assumes S: "object_server (serve N) object" and url: "objectURL st key = Inr t"
    and run: "s3_Put N R st budget_err key up sz s = (err, s')"
  shows "put_state object s t (up_data up) s' \<and>
    (err = None \<longrightarrow> object s' t = Some (up_data up) \<and> (sz \<ge> 0 \<longrightarrow> int (length (up_data up)) = sz))"
proof -
  have streaming: ?thesis if "put_answer key (doWithRetry N R ''PUT'' key (stream_build N st key up sz) (\<lambda>_. up_closes up) False s) = (err, s')"
    by (rule object_server.put_retried [OF S that refl _ url]) (use built_requests(3) in blast)
  have buffered: "put_state object s t (up_data up) s' \<and> (err = None \<longrightarrow> object s' t = Some (up_data up))"
    if "put_answer key (doWithRetry N R ''PUT'' key (\<lambda>k _. newSignedRequest N st ''PUT'' key (Some (up_data up)) k) id () s) = (err, s')"
  proof -
    have "put_state object s t (up_data up) s' \<and> (err = None \<longrightarrow> object s' t = Some (up_data up) \<and> ((-1::int) \<ge> 0 \<longrightarrow> int (length (up_data up)) = -1))"
      by (rule object_server.put_retried [OF S that refl _ url]) (use built_requests(1) in fastforce)
    then show ?thesis by simp
  qed
  consider (refused) e where "err = Some e" "s' = s"
    | (stream) "put_answer key (doWithRetry N R ''PUT'' key (stream_build N st key up sz) (\<lambda>_. up_closes up) False s) = (err, s')"
    | (buffer) "sz \<ge> 0 \<longrightarrow> int (length (up_data up)) = sz"
        "put_answer key (doWithRetry N R ''PUT'' key (\<lambda>k _. newSignedRequest N st ''PUT'' key (Some (up_data up)) k) id () s) = (err, s')"
    using s3_Put_cases [OF run] by blast
  then show ?thesis
  proof cases
    case refused
    then show ?thesis by (simp add: put_state_def)
  next
    case stream
    then show ?thesis by (rule streaming)
  next
    case buffer
    then show ?thesis using buffered by blast
  qed
qed

text \<open>
  C35.  An upload that succeeds has stored exactly its bytes, as many as were declared; one that fails has left its
  object as it was or stored all bytes; other objects are untouched.  This holds for both ways of
  uploading, whatever answers are lost, delayed or refused, and however often the request is repeated.
\<close>

theorem s3_put_exact:
  assumes "object_server (serve N) object" "objectURL st key = Inr t" "s3_Put N R st budget_err key up sz s = (err, s')"
  shows "put_state object s t (up_data up) s' \<and>
    (err = None \<longrightarrow> object s' t = Some (up_data up) \<and> (sz \<ge> 0 \<longrightarrow> int (length (up_data up)) = sz))"
  using assms by (rule put_stored)

text \<open>What was stored is what is read, as long as no one else writes in between.\<close>

theorem s3_round_trip:
  assumes S: "object_server (serve N) object" and url: "objectURL st key = Inr t"
    and put: "s3_Put N R st budget_err key up sz s = (None, s1)"
    and opened: "s3_Open N R' st key s1 = (Inr rd, s2)" "rd_err rd = None"
  shows "rd_data rd = up_data up \<and> object s2 t = Some (up_data up)"
proof -
  have stored: "object s1 t = Some (up_data up)"
    using put_stored [OF S url put] by simp
  have "object s2 = object s1" "object s1 t = Some (rd_data rd)"
    using object_server.open_reads [OF S opened(1) refl url] opened(2) by blast+
  then show ?thesis using stored by simp
qed

section \<open>A body that was closed is not sent again\<close>

lemma closed_body_ends:
  assumes body: "up_closes up" "up_seekable up" "up_seek_err up = None" "0 \<le> sz" "sz \<le> maxS3UploadBytes" "int (length (up_data up)) = sz"
    and ctx: "\<And>k. ctx_check R k = None" "\<And>k. ctx_wait R k = None"
    and url: "objectURL st key = Inr t" "request_err N t = None"
    and first: "\<And>req. request_for st ''PUT'' key (up_data up) req \<Longrightarrow> serve N req s = (Inl msg, s1)"
  shows "s3_Put N R st None key up sz s = (Some (s3_errf ''PUT'' key (RetryableError (storage_errf ''rewinding upload for '' key os_ErrClosed) False)), s1)"
proof -
  obtain req where req: "stream_build N st key up sz 0 False = Inr req"
    using url by (cases t) (auto simp: stream_build_def newStreamingRequest_def)
  have q: "request_for st ''PUT'' key (up_data up) req" "rq_length req = int (length (rq_body req))"
    using built_requests(3) [OF req] body by (auto simp: request_for_def)
  have again: "stream_build N st key up sz (Suc 0) True = Inl (storage_errf ''rewinding upload for '' key os_ErrClosed)"
    by (simp add: stream_build_def)
  have retry: "IsRetryable (Some (NetError msg))"
    "\<not> IsRetryable (Some (RetryableError (storage_errf ''rewinding upload for '' key os_ErrClosed) False))"
    by (simp_all add: IsRetryable_def ErrNonRetryable_def ErrRetryable_def is_net_error_def storage_errf_def os_ErrClosed_def)
  show ?thesis
    using body ctx req q first [OF q(1)] again retry
    by (simp add: s3_Put_def putStreaming_def doWithRetry_def RetryWithContext_def retry_loop.simps s3_attempt_def s3RetryConfig_def put_answer_def)
qed

text \<open>
  When the body of a streamed upload is a file, the HTTP client closes it with the first attempt.  After a
  network error the rewind fails, and the upload ends with the error of the closed file, whatever the
  service would have answered to a second attempt.
\<close>

theorem closed_body_not_retried:
  assumes body: "up_closes up" "up_seekable up" "up_seek_err up = None" "0 \<le> sz" "sz \<le> maxS3UploadBytes" "int (length (up_data up)) = sz"
    and ctx: "\<And>k. ctx_check R k = None" "\<And>k. ctx_wait R k = None"
    and url: "objectURL st key = Inr t" "request_err N t = None"
    and first: "\<And>req. request_for st ''PUT'' key (up_data up) req \<Longrightarrow> serve N req s = (Inl msg, s1)"
  shows "s3_Put N R st None key up sz s = (Some (s3_errf ''PUT'' key (RetryableError (storage_errf ''rewinding upload for '' key os_ErrClosed) False)), s1)"
  using assms by (rule closed_body_ends)

section \<open>A service in memory\<close>

text \<open>
  Objects in a map, and a script that says for each request whether it is delivered, lost before or after it
  takes effect, or refused with status 503.
\<close>

datatype s3_fate = Deliver | Lost | Unanswered | Busy

type_synonym mem_s3 = "(string \<times> string \<rightharpoonup> string) \<times> s3_fate list"

definition plain_response :: "int \<Rightarrow> string \<Rightarrow> http_response" where
  "plain_response code body = \<lparr>StatusCode = code, Location = [], ContentLength = int (length body), body_data = body, body_err = None\<rparr>"

definition mem_apply :: "s3_request \<Rightarrow> (string \<times> string \<rightharpoonup> string) \<Rightarrow> http_response \<times> (string \<times> string \<rightharpoonup> string)" where
  "mem_apply rq objs =
     (if rq_method rq = ''PUT'' then (plain_response 200 [], objs(target rq \<mapsto> rq_body rq))
      else if rq_method rq = ''DELETE'' then (plain_response 204 [], objs(target rq := None))
      else if rq_method rq \<in> {''GET'', ''HEAD''}
      then (case objs (target rq) of Some d \<Rightarrow> (plain_response 200 d, objs) | None \<Rightarrow> (plain_response 404 [], objs))
      else (plain_response 405 [], objs))"

definition mem_serve :: "s3_request \<Rightarrow> mem_s3 \<Rightarrow> (string + http_response) \<times> mem_s3" where
  "mem_serve rq m =
     (case m of (objs, fates) \<Rightarrow>
        (case mem_apply rq objs of (resp, objs') \<Rightarrow>
          (case fates of
             [] \<Rightarrow> (Inr resp, objs', [])
           | Deliver # fs \<Rightarrow> (Inr resp, objs', fs)
           | Lost # fs \<Rightarrow> (Inl ''connection reset'', objs, fs)
           | Unanswered # fs \<Rightarrow> (Inl ''timeout'', objs', fs)
           | Busy # fs \<Rightarrow> (Inr (plain_response 503 []), objs, fs))))"

definition mem_object :: "mem_s3 \<Rightarrow> string \<times> string \<Rightarrow> string option" where
  "mem_object m = fst m"

lemma mem_serve_cases:
  assumes "mem_serve rq (objs, fates) = (a, objs', fs)"
  obtains (unchanged) "objs' = objs" "case a of Inl _ \<Rightarrow> True | Inr r \<Rightarrow> StatusCode r = 503"
    | (applied) "objs' = snd (mem_apply rq objs)" "case a of Inl _ \<Rightarrow> True | Inr r \<Rightarrow> r = fst (mem_apply rq objs)"
  using assms
  by (auto simp: mem_serve_def plain_response_def split: prod.splits list.splits s3_fate.splits)

lemmas mem_s3_defs = mem_apply_def mem_object_def plain_response_def status2xx_def

interpretation mem_s3: object_server mem_serve mem_object
proof
  fix rq :: s3_request and s a s' and t :: "string \<times> string"
  assume run: "mem_serve rq s = (a, s')"
  obtain objs fates objs' fs where s: "s = (objs, fates)" "s' = (objs', fs)" by (cases s; cases s') auto
  note cases = mem_serve_cases [OF run [unfolded s]]
  show "t \<noteq> target rq \<Longrightarrow> mem_object s' t = mem_object s t"
    by (rule cases) (auto simp: mem_s3_defs s split: option.splits)
  show "rq_method rq = ''PUT'' \<Longrightarrow> mem_object s' (target rq) \<in> {mem_object s (target rq), Some (rq_body rq)}"
    by (rule cases) (auto simp: mem_s3_defs s)
  show "rq_method rq \<in> {''GET'', ''HEAD''} \<Longrightarrow> mem_object s' = mem_object s"
    by (rule cases) (auto simp: mem_s3_defs s split: option.splits)
  show "rq_method rq = ''DELETE'' \<Longrightarrow> mem_object s' (target rq) \<in> {mem_object s (target rq), None}"
    by (rule cases) (auto simp: mem_s3_defs s)
next
  fix rq :: s3_request and s resp s'
  assume run: "mem_serve rq s = (Inr resp, s')"
  obtain objs fates objs' fs where s: "s = (objs, fates)" "s' = (objs', fs)" by (cases s; cases s') auto
  note cases = mem_serve_cases [OF run [unfolded s]]
  show "rq_method rq = ''PUT'' \<Longrightarrow> status2xx resp \<Longrightarrow> mem_object s' (target rq) = Some (rq_body rq)"
    by (rule cases) (auto simp: mem_s3_defs s)
  show "rq_method rq = ''GET'' \<Longrightarrow> status2xx resp \<Longrightarrow> body_err resp = None \<Longrightarrow> mem_object s (target rq) = Some (body_data resp)"
    by (rule cases) (auto simp: mem_s3_defs s split: option.splits)
  show "rq_method rq = ''HEAD'' \<Longrightarrow> status2xx resp \<Longrightarrow> 0 \<le> ContentLength resp \<Longrightarrow>
      \<exists>d. mem_object s (target rq) = Some d \<and> ContentLength resp = int (length d)"
    by (rule cases) (auto simp: mem_s3_defs s split: option.splits)
  show "StatusCode resp = 404 \<Longrightarrow> mem_object s (target rq) = None"
    by (rule cases) (auto simp: mem_s3_defs s split: option.splits if_splits)
  show "rq_method rq = ''DELETE'' \<Longrightarrow> status2xx resp \<or> StatusCode resp = 404 \<Longrightarrow> mem_object s' (target rq) = None"
    by (rule cases) (auto simp: mem_s3_defs s)
qed

section \<open>Examples\<close>

definition mem_service :: "mem_s3 s3_service" where
  "mem_service =
     \<lparr>request_err = (\<lambda>_. None),
      sign_time = (\<lambda>_. \<lparr>year = 2026, month = 1, day = 2, hour = 3, minute = 4, second = 5, nano = 0, zone = 0\<rparr>),
      serve = mem_serve\<rparr>"

definition some_store :: S3Storage where
  "some_store =
     \<lparr>endpoint_host = ''s3.test'', bucket = ''b'', region = defaultS3Region,
      creds = \<lparr>AccessKeyID = ''a'', SecretAccessKey = ''s'', SessionToken = []\<rparr>, pathStyle = True, inflight = newByteSemaphore 10\<rparr>"

definition some_file :: "bool \<Rightarrow> upload_body" where
  "some_file closes = \<lparr>up_data = ''PK'', up_err = None, up_seekable = True, up_seek_err = None, up_closes = closes\<rparr>"

lemma some_url: "objectURL some_store ''k'' = Inr (''s3.test'', ''/b/k'')"
  using trimSpace_printable [of "''k''"] by (simp add: objectURL_def some_store_def printable_def trimPrefix_def)

lemma mem_s3_server: "object_server (serve mem_service) mem_object"
  by (simp add: mem_service_def mem_s3.object_server_axioms)

lemma some_put:
  "s3_Put mem_service no_waits some_store None ''k'' (some_file False) 2 (Map.empty, [Busy, Unanswered])
     = (None, [(''s3.test'', ''/b/k'') \<mapsto> ''PK''], [])"
proof -
  obtain rq where build: "stream_build mem_service some_store ''k'' (some_file False) 2 k False = Inr (rq k)" for k
    using some_url by (simp add: stream_build_def newStreamingRequest_def mem_service_def)
  have rq: "rq_method (rq k) = ''PUT''" "target (rq k) = (''s3.test'', ''/b/k'')" "rq_body (rq k) = ''PK''" "rq_length (rq k) = 2" for k
    using built_requests(3) [OF build [of k]] some_url by (auto simp: request_for_def some_file_def)
  have retry: "IsRetryable (Some (NetError m))" "IsRetryable (Some (RetryableError (httpErr op key resp) True))" for m op key resp
    by (simp_all add: IsRetryable_def ErrNonRetryable_def ErrRetryable_def is_net_error_def httpErr_def)
  have serve: "serve mem_service = mem_serve" by (simp add: mem_service_def)
  show ?thesis
    using build rq retry
    by (simp add: s3_Put_def putStreaming_def maxS3UploadBytes_def some_file_def doWithRetry_def RetryWithContext_def retry_loop.simps
        s3_attempt_def s3RetryConfig_def put_answer_def no_waits_def serve mem_serve_def mem_apply_def plain_response_def retryableStatus_def
        status2xx_def)
qed

theorem s3_put_exact_witness:
  "put_state mem_object (Map.empty, [Busy, Unanswered]) (''s3.test'', ''/b/k'') ''PK'' ([(''s3.test'', ''/b/k'') \<mapsto> ''PK''], [])"
  using s3_put_exact [OF mem_s3_server some_url some_put] by (simp add: some_file_def)

lemma some_open:
  "\<exists>rd. s3_Open mem_service no_waits some_store ''k'' ([(''s3.test'', ''/b/k'') \<mapsto> ''PK''], []) = (Inr rd, [(''s3.test'', ''/b/k'') \<mapsto> ''PK''], []) \<and>
     rd_err rd = None"
proof -
  obtain rq where build: "newSignedRequest mem_service some_store ''GET'' ''k'' None k = Inr (rq k)" for k
    using some_url by (simp add: newSignedRequest_def mem_service_def Let_def)
  have rq: "rq_method (rq k) = ''GET''" "target (rq k) = (''s3.test'', ''/b/k'')" "rq_body (rq k) = []" "rq_length (rq k) = 0" for k
    using built_requests(1) [OF build [of k]] some_url by (auto simp: request_for_def)
  have serve: "serve mem_service = mem_serve" by (simp add: mem_service_def)
  show ?thesis
    using build rq
    by (simp add: s3_Open_def bodyless_def doWithRetry_def RetryWithContext_def retry_loop.simps s3_attempt_def s3RetryConfig_def no_waits_def
        serve mem_serve_def mem_apply_def plain_response_def retryableStatus_def status2xx_def)
qed

theorem s3_round_trip_witness:
  "\<exists>rd s2. s3_Open mem_service no_waits some_store ''k'' ([(''s3.test'', ''/b/k'') \<mapsto> ''PK''], []) = (Inr rd, s2) \<and> rd_data rd = ''PK''"
proof -
  obtain rd where o: "s3_Open mem_service no_waits some_store ''k'' ([(''s3.test'', ''/b/k'') \<mapsto> ''PK''], [])
      = (Inr rd, [(''s3.test'', ''/b/k'') \<mapsto> ''PK''], [])" "rd_err rd = None"
    using some_open by blast
  from s3_round_trip [OF mem_s3_server some_url some_put o] o show ?thesis by (auto simp: some_file_def)
qed

theorem closed_body_not_retried_witness:
  "s3_Put mem_service no_waits some_store None ''k'' (some_file True) 2 (Map.empty, [Lost])
     = (Some (s3_errf ''PUT'' ''k'' (RetryableError (storage_errf ''rewinding upload for '' ''k'' os_ErrClosed) False)), Map.empty, [])"
proof (rule closed_body_not_retried)
  show "objectURL some_store ''k'' = Inr (''s3.test'', ''/b/k'')" by (rule some_url)
  show "serve mem_service req (Map.empty, [Lost]) = (Inl ''connection reset'', Map.empty, [])" for req
    by (simp add: mem_service_def mem_serve_def split: prod.split)
qed (simp_all add: some_file_def no_waits_def mem_service_def maxS3UploadBytes_def)

section \<open>Percent encoding\<close>

fun uriDecode :: "string \<Rightarrow> string" where
  "uriDecode (c # a # b # s) =
     (if c = CHR ''%'' then char_of (16 * the (hex_value a) + the (hex_value b)) # uriDecode s else c # uriDecode (a # b # s))"
| "uriDecode s = s"

text \<open>The encoding of paths and query components loses nothing: it can be decoded, so different values have different encodings.\<close>

lemma uriDecode_plain: "c \<noteq> CHR ''%'' \<Longrightarrow> uriDecode (c # s) = c # uriDecode s"
  by (cases s rule: uriDecode.cases) auto

lemma hex_value_hexUpper: "n < 16 \<Longrightarrow> hex_value (hexUpper n) = Some n"
proof -
  have "list_all (\<lambda>n. hex_value (hexUpper n) = Some n) [0..<16]" by code_simp
  then show "n < 16 \<Longrightarrow> ?thesis" by (simp add: list_all_iff)
qed

lemma uri_round_trip: "uriDecode (uriEncode s encodeSlash) = s"
proof (induction s)
  case (Cons c s)
  have "(of_char c :: nat) div 16 < 16" by (rule less_mult_imp_div_less) (use nat_of_char_less_256 [of c] in simp)
  then have hex: "hex_value (hexUpper (of_char c div 16)) = Some (of_char c div 16)"
    "hex_value (hexUpper (of_char c mod 16)) = Some (of_char c mod 16)"
    by (simp_all add: hex_value_hexUpper)
  have "\<not> unreserved (CHR ''%'')" by (simp add: unreserved_def)
  then have "unreserved c \<or> c = CHR ''/'' \<Longrightarrow> c \<noteq> CHR ''%''" by auto
  then show ?case
    using Cons hex by (auto simp: uriEncode_def encode_byte_def uriDecode_plain)
qed (simp add: uriEncode_def)

end
