(* ===== verification/Upload.thy ===== *)
theory Upload
  imports Queue_Laws Local_Storage S3_Storage Http
begin

text \<open>
  Accepting uploads, the handlers \<^verbatim>\<open>POST /upload\<close> and \<^verbatim>\<open>POST /bulk-upload\<close> of router/routers.go: the checks,
  the artifact store and the job queue put together.  The store is an interface (\<^verbatim>\<open>storage.Storage\<close>), here a
  record of operations on a state of its own; \<open>artifact_store\<close> is what the handlers rely on, and both backends
  provide it.
\<close>

section \<open>The store as an interface\<close>

record 'd store =
  st_put :: "string \<Rightarrow> upload_body \<Rightarrow> int \<Rightarrow> 'd \<Rightarrow> go_error option \<times> 'd"
  st_delete :: "string \<Rightarrow> 'd \<Rightarrow> go_error option \<times> 'd"

text \<open>
  \<open>object d k\<close> is what the store holds under the key \<open>k\<close>, \<open>same\<close> relates keys of one object, and \<open>ready\<close> says
  that the store can work on a key at all, which no call takes away.
\<close>

locale artifact_store =
  fixes put :: "string \<Rightarrow> upload_body \<Rightarrow> int \<Rightarrow> 'd \<Rightarrow> go_error option \<times> 'd"
    and del :: "string \<Rightarrow> 'd \<Rightarrow> go_error option \<times> 'd"
    and object :: "'d \<Rightarrow> string \<Rightarrow> string option"
    and same :: "string \<Rightarrow> string \<Rightarrow> bool"
    and ready :: "'d \<Rightarrow> string \<Rightarrow> bool"
  assumes put_stores: "ready d k \<Longrightarrow> put k b (int (length (up_data b))) d = (None, d') \<Longrightarrow> object d' k = Some (up_data b)"
    and put_whole: "ready d k \<Longrightarrow> put k b (int (length (up_data b))) d = (r, d') \<Longrightarrow> object d' k \<in> {object d k, Some (up_data b)}"
    and put_frame: "ready d k \<Longrightarrow> put k b (int (length (up_data b))) d = (r, d') \<Longrightarrow> \<not> same k' k \<Longrightarrow> object d' k' = object d k'"
    and put_ready: "ready d k \<Longrightarrow> put k b (int (length (up_data b))) d = (r, d') \<Longrightarrow> ready d k' \<Longrightarrow> ready d' k'"
    and del_removes: "ready d k \<Longrightarrow> del k d = (None, d') \<Longrightarrow> object d' k = None"
    and del_whole: "ready d k \<Longrightarrow> del k d = (r, d') \<Longrightarrow> object d' k \<in> {object d k, None}"
    and del_frame: "ready d k \<Longrightarrow> del k d = (r, d') \<Longrightarrow> \<not> same k' k \<Longrightarrow> object d' k' = object d k'"
    and del_ready: "ready d k \<Longrightarrow> del k d = (r, d') \<Longrightarrow> ready d k' \<Longrightarrow> ready d' k'"

text \<open>A store whose failed writes leave no trace, as \<^verbatim>\<open>storage.Storage\<close> asks for.\<close>

locale clean_store = artifact_store +
  assumes put_clean: "ready d k \<Longrightarrow> put k b (int (length (up_data b))) d = (Some e, d') \<Longrightarrow> object d' k = object d k"

section \<open>Names of files\<close>

definition maxUploadSize :: int where
  "maxUploadSize = 500 * 2 ^ 20"

definition maxBulkUploadSize :: int where
  "maxBulkUploadSize = 2 * 2 ^ 30"

definition isSupportedPackageExt :: "string \<Rightarrow> bool" where
  "isSupportedPackageExt filename \<longleftrightarrow> toLower (path_ext filename) \<in> {''.apk'', ''.ipa''}"

definition packageFileType :: "string \<Rightarrow> string" where
  "packageFileType filename = (if toLower (path_ext filename) = ''.ipa'' then ''ipa'' else ''apk'')"

definition traverses :: "string \<Rightarrow> bool" where
  "traverses filename \<longleftrightarrow> str_contains filename ''..'' \<or> str_contains filename ''/'' \<or> str_contains filename [CHR 0x5C]"

section \<open>Upload\<close>

text \<open>A file of a multipart form: its name, the size the parser counted, and what opening it gives.\<close>

record file_header =
  Filename :: string
  Size :: int
  file_open :: "go_error + upload_body"

record upload_form =
  rq_id :: string
  rq_length :: int
  form_file :: "go_error + file_header"
  form_files :: "go_error + file_header list"
  webhook_url :: string
  webhook_secret :: string
  scan_timeout :: string

text \<open>
  What the handlers meet besides the queue and the store: the state of the database, whether the queue was
  set up, the resolver behind the webhook check, the fresh identifiers, and the limit of the queue.
\<close>

record intake =
  db_status :: "go_error option"
  queue_up :: bool
  outside_world :: attempt_env
  queueDepthThreshold :: int
  trace_carrier :: "(string \<times> string) list"

definition err_response :: "nat \<Rightarrow> string \<Rightarrow> response" where
  "err_response code msg = Response code (error_body msg)"

definition busy_response :: "string \<Rightarrow> response" where
  "busy_response msg = Response StatusTooManyRequests (JObj [(''error'', JStr msg), (''retry_after'', JNum ''60'')])"

definition too_large :: "string \<Rightarrow> int \<Rightarrow> int \<Rightarrow> response" where
  "too_large msg maxSize sz = Response StatusRequestEntityTooLarge
     (JObj [(''error'', JStr msg), (''max_size'', JNum (show_int maxSize)), (''size'', JNum (show_int sz))])"

text \<open>The checks of an upload before anything outside the request is asked.\<close>

definition upload_checks :: "upload_form \<Rightarrow> response + file_header" where
  "upload_checks form =
     (if upload_form.rq_length form > maxUploadSize then Inl (too_large ''File too large'' maxUploadSize (upload_form.rq_length form))
      else case form_file form of
        Inl e \<Rightarrow> Inl (err_response StatusBadRequest (''File upload error: '' @ err_msg e))
      | Inr file \<Rightarrow>
          if Size file > maxUploadSize then Inl (too_large ''File too large'' maxUploadSize (Size file))
          else if \<not> isSupportedPackageExt (Filename file) then Inl (err_response StatusBadRequest ''Only APK or IPA files are allowed'')
          else if traverses (Filename file) then Inl (err_response StatusBadRequest ''Invalid filename: path traversal detected'')
          else Inr file)"

definition webhook_refused :: "intake \<Rightarrow> upload_form \<Rightarrow> go_error option" where
  "webhook_refused I form = (if webhook_url form \<noteq> [] then ValidateWebhookURL (outside_world I) (webhook_url form) else None)"

definition parse_timeout :: "string \<Rightarrow> int" where
  "parse_timeout s = (if s = [] then 0 else case atoi s of Some t \<Rightarrow> if t > 0 then t else 0 | None \<Rightarrow> 0)"

definition upload_job :: "upload_form \<Rightarrow> string \<Rightarrow> string \<Rightarrow> string \<Rightarrow> int \<Rightarrow> (string \<times> string) list \<Rightarrow> go_time \<Rightarrow> ScanJob" where
  "upload_job form filename storageKey jobID timeout trace now =
     zero_job\<lparr>ID := jobID, Status := JobStatusQueued, StorageKey := storageKey, APKPath := storageKey,
       FileType := packageFileType filename, OriginalFilename := filename, CreatedAt := now, RetryCount := 0, ScanTimeout := timeout,
       WebhookURL := webhook_url form, WebhookSecret := webhook_secret form, RequestID := rq_id form, TraceContext := trace\<rparr>"

text \<open>
  The rest of the handlers for one file: store it under a fresh key, then publish the job; when that fails,
  the object is deleted again.  The result is the identifier of the job, or the error and the place it came
  from.
\<close>

datatype intake_error = CannotRead go_error | CannotStore go_error | QueueFull | CannotQueue go_error

definition store_and_enqueue ::
  "'s redis \<Rightarrow> int \<Rightarrow> 'd store \<Rightarrow> upload_form \<Rightarrow> file_header \<Rightarrow> string \<Rightarrow> string \<Rightarrow> int \<Rightarrow> (string \<times> string) list \<Rightarrow>
     's world \<times> 'd \<Rightarrow> (intake_error + string) \<times> 's world \<times> 'd" where
  "store_and_enqueue R maxDepth St form file keyID jobID timeout trace wd =
     (case wd of (w, d) \<Rightarrow>
        (case file_open file of
           Inl e \<Rightarrow> (Inl (CannotRead e), w, d)
         | Inr src \<Rightarrow>
             (let storageKey = keyID @ path_ext (Filename file) in
              case st_put St storageKey src (Size file) d of
                (Some e, d1) \<Rightarrow> (Inl (CannotStore e), w, d1)
              | (None, d1) \<Rightarrow>
                  (case time_now w of (now, w1) \<Rightarrow>
                     (case EnqueueJobAtomicWithLimit R (upload_job form (Filename file) storageKey jobID timeout trace now) maxDepth 1 w1 of
                        (Inl e, w2) \<Rightarrow>
                          (Inl (if errors_is e ErrQueueFull then QueueFull else CannotQueue e), w2, snd (st_delete St storageKey d1))
                      | (Inr _, w2) \<Rightarrow> (Inr jobID, w2, d1))))))"

definition intake_response :: "intake_error + string \<Rightarrow> response" where
  "intake_response r =
     (case r of
        Inl (CannotRead _) \<Rightarrow> err_response StatusInternalServerError ''Failed to read uploaded file''
      | Inl (CannotStore _) \<Rightarrow> err_response StatusInternalServerError ''Failed to store uploaded file''
      | Inl QueueFull \<Rightarrow> busy_response ''Queue is full, please try again later''
      | Inl (CannotQueue _) \<Rightarrow> err_response StatusInternalServerError ''Failed to queue job''
      | Inr jobID \<Rightarrow> Response StatusAccepted
          (JObj [(''job_id'', JStr jobID), (''message'', JStr ''File uploaded successfully. Processing started.'')]))"

text \<open>\<^verbatim>\<open>POST /upload\<close>; a store that could not be set up is \<open>None\<close>.\<close>

definition upload_handler ::
  "'s redis \<Rightarrow> intake \<Rightarrow> 'd store option \<Rightarrow> upload_form \<Rightarrow> string \<Rightarrow> string \<Rightarrow> 's world \<times> 'd \<Rightarrow> response \<times> 's world \<times> 'd" where
  "upload_handler R I Sto form keyID jobID wd =
     (case wd of (w, d) \<Rightarrow>
        (case upload_checks form of
           Inl resp \<Rightarrow> (resp, w, d)
         | Inr file \<Rightarrow>
             (case db_status I of
                Some e \<Rightarrow> (err_response StatusServiceUnavailable (err_msg e), w, d)
              | None \<Rightarrow>
                  if \<not> queue_up I then (err_response StatusServiceUnavailable ''Job queue not available'', w, d)
                  else (case GetQueueDepth R w of
                    (Inl e, w1) \<Rightarrow> (busy_response ''Queue backpressure check unavailable, please try again later'', w1, d)
                  | (Inr queueDepth, w1) \<Rightarrow>
                      if queueDepth > queueDepthThreshold I then (busy_response ''Queue is full, please try again later'', w1, d)
                      else (case webhook_refused I form of
                        Some e \<Rightarrow> (err_response StatusBadRequest (''Invalid webhook_url: '' @ err_msg e), w1, d)
                      | None \<Rightarrow>
                          (case Sto of
                             None \<Rightarrow> (err_response StatusInternalServerError ''Storage backend not available'', w1, d)
                           | Some St \<Rightarrow>
                               (case store_and_enqueue R (queueDepthThreshold I) St form file keyID jobID
                                       (parse_timeout (scan_timeout form)) (trace_carrier I) (w1, d) of
                                  (r, w2, d2) \<Rightarrow> (intake_response r, w2, d2))))))))"

section \<open>Bulk upload\<close>

definition bulk_error :: "file_header \<Rightarrow> intake_error \<Rightarrow> string" where
  "bulk_error file e = Filename file @
     (case e of
        CannotRead err \<Rightarrow> '': Failed to read file: '' @ err_msg err
      | CannotStore err \<Rightarrow> '': Failed to store file: '' @ err_msg err
      | QueueFull \<Rightarrow> '': Queue is full, rejected''
      | CannotQueue err \<Rightarrow> '': Failed to queue job: '' @ err_msg err)"

definition bulk_check :: "file_header \<Rightarrow> string option" where
  "bulk_check file =
     (if \<not> isSupportedPackageExt (Filename file) then Some (Filename file @ '': Only APK or IPA files are allowed'')
      else if Size file > maxUploadSize
      then Some (Filename file @ '': File too large (max '' @ show_int maxUploadSize @ '' bytes)'')
      else if traverses (Filename file) then Some (Filename file @ '': Invalid filename: path traversal detected'')
      else None)"

text \<open>The loop over the files.  The identifiers of a file, for its key and its job, are fresh for each turn.\<close>

fun bulk_files ::
  "'s redis \<Rightarrow> int \<Rightarrow> 'd store \<Rightarrow> upload_form \<Rightarrow> (file_header \<times> string \<times> string) list \<Rightarrow> string list \<times> string list \<Rightarrow> 's world \<times> 'd \<Rightarrow>
     (string list \<times> string list) \<times> 's world \<times> 'd" where
  "bulk_files R maxDepth St form [] acc wd = (acc, wd)"
| "bulk_files R maxDepth St form ((file, keyID, jobID) # fhs) (jobIDs, errs) wd =
     (case bulk_check file of
        Some msg \<Rightarrow> bulk_files R maxDepth St form fhs (jobIDs, errs @ [msg]) wd
      | None \<Rightarrow>
          (case store_and_enqueue R maxDepth St form file keyID jobID 0 [] wd of
             (Inl e, wd1) \<Rightarrow> bulk_files R maxDepth St form fhs (jobIDs, errs @ [bulk_error file e]) wd1
           | (Inr i, wd1) \<Rightarrow> bulk_files R maxDepth St form fhs (jobIDs @ [i], errs) wd1))"

definition bulk_response :: "nat \<Rightarrow> string list \<Rightarrow> string list \<Rightarrow> response" where
  "bulk_response n jobIDs errs =
     Response (if jobIDs = [] then StatusBadRequest else StatusAccepted)
       (JObj ((if errs = [] then [] else [(''errors'', JArr (map JStr errs))]) @
          [(''failed'', JNum (show_nat (length errs))), (''job_ids'', JArr (map JStr jobIDs)),
           (''message'', JStr (''Processed '' @ show_nat n @ '' files'')), (''successful'', JNum (show_nat (length jobIDs))),
           (''total_files'', JNum (show_nat n))]))"

definition bulk_handler ::
  "'s redis \<Rightarrow> intake \<Rightarrow> 'd store option \<Rightarrow> upload_form \<Rightarrow> (nat \<Rightarrow> string \<times> string) \<Rightarrow> 's world \<times> 'd \<Rightarrow> response \<times> 's world \<times> 'd" where
  "bulk_handler R I Sto form ids wd =
     (case wd of (w, d) \<Rightarrow>
        if upload_form.rq_length form > maxBulkUploadSize
        then (too_large ''Bulk upload too large'' maxBulkUploadSize (upload_form.rq_length form), w, d)
        else (case form_files form of
          Inl e \<Rightarrow> (err_response StatusBadRequest (''Failed to parse form: '' @ err_msg e), w, d)
        | Inr fhs \<Rightarrow>
            if fhs = [] then (err_response StatusBadRequest ''No files provided'', w, d)
            else if length fhs > 50 then (err_response StatusBadRequest ''Maximum 50 files allowed per bulk upload'', w, d)
            else (case webhook_refused I form of
              Some e \<Rightarrow> (err_response StatusBadRequest (''Invalid webhook_url: '' @ err_msg e), w, d)
            | None \<Rightarrow>
                (case db_status I of
                   Some e \<Rightarrow> (err_response StatusServiceUnavailable (err_msg e), w, d)
                 | None \<Rightarrow>
                     if \<not> queue_up I then (err_response StatusServiceUnavailable ''Job queue not available'', w, d)
                     else (case GetQueueDepth R w of
                       (Inl e, w1) \<Rightarrow> (busy_response ''Queue backpressure check unavailable, please try again later'', w1, d)
                     | (Inr queueDepth, w1) \<Rightarrow>
                         if queueDepth + int (length fhs) > queueDepthThreshold I
                         then (busy_response ''Queue is too full for bulk upload, please try again later'', w1, d)
                         else (case Sto of
                           None \<Rightarrow> (err_response StatusInternalServerError ''Storage backend not available'', w1, d)
                         | Some St \<Rightarrow>
                             (case bulk_files R (queueDepthThreshold I) St form (zip fhs (map ids [0..<length fhs])) ([], []) (w1, d) of
                                ((jobIDs, errs), wd2) \<Rightarrow> (bulk_response (length fhs) jobIDs errs, wd2))))))))"

section \<open>What a publication leaves behind\<close>

text \<open>
  Whatever the network does, a job that \<^verbatim>\<open>EnqueueJobAtomicWithLimit\<close> reports as queued was published as a
  whole by the last execution of the script.
\<close>

lemma script_admits:
  assumes R: "redis_server R" and run: "enqueueWithLimitScript R (jobKey (ID job)) (statusKey (Status job)) jobQueueKey (ID job) ttlSeconds
      limit cnt (job_fields job) s = (a, s')" and a: "a \<noteq> 0"
  shows "published job (view R s) (view R s')"
proof -
  have "\<not> (limit > 0 \<and> llen R jobQueueKey s + cnt > limit)" using run a by (auto simp: enqueueWithLimitScript_def)
  then have "s' = cmd_rpush R jobQueueKey (ID job) (cmd_expire R (jobKey (ID job)) ttlSeconds
      (cmd_sadd R (statusKey (Status job)) (ID job) (cmd_hset R (jobKey (ID job)) (job_fields job) s)))"
    using run by (simp add: enqueueWithLimitScript_def split: if_splits)
  then show ?thesis using R published_script [of job "view R s"] by (simp add: redis_view)
qed

lemma enqueue_success:
  assumes R: "redis_server R" and run: "EnqueueJobAtomicWithLimit R job limit cnt w = (Inr (), w')"
  shows "\<exists>s. published job (view R s) (view R (server w'))"
proof -
  let ?f = "enqueueWithLimitScript R (jobKey (ID job)) (statusKey (Status job)) jobQueueKey (ID job) ttlSeconds limit cnt (job_fields job)"
  obtain a where a: "redisDo (rcall ?f) w = (Inr a, w')" "a \<noteq> 0"
    using run by (auto simp: EnqueueJobAtomicWithLimit_def op_bind_def wrapv_def op_fail_def op_ret_def split: prod.splits sum.splits if_splits)
  obtain w1 where "same_run (rcall ?f) w w1 (redisDo (rcall ?f) w)"
    using redisDo_cases [of w "rcall ?f"] a by (auto simp: was_shed_def)
  then have r: "fst (rcall ?f w1) = Inr a" "server (snd (rcall ?f w1)) = server w'" by (simp_all add: same_run_def a)
  then obtain n where "shd (net w1) = Reply n" by (cases "shd (net w1)") (auto simp: rcall_def)
  then obtain s0 where "?f s0 = (a, server w')"
    using r by (auto simp: rcall_def Let_def split: prod.splits)
  then show ?thesis using script_admits [OF R _ a(2)] by blast
qed

lemma enqueue_keeps_limit:
  assumes "redis_server R" "0 < limit"
  shows "keeps (\<lambda>s. int (length (k_list (view R s) jobQueueKey)) \<le> limit) (EnqueueJobAtomicWithLimit R job limit 1)"
  unfolding EnqueueJobAtomicWithLimit_def
  using assms by (intro keeps_rules) (auto intro!: keeps_rules simp: view_limitScript)

section \<open>One file\<close>

text \<open>A file whose size is the number of its bytes, as the parser of the form counts it.\<close>

definition sized :: "file_header \<Rightarrow> bool" where
  "sized file \<longleftrightarrow> (case file_open file of Inl _ \<Rightarrow> True | Inr src \<Rightarrow> Size file = int (length (up_data src)))"

lemma intake_unreadable:
  "file_open file = Inl e \<Longrightarrow> store_and_enqueue R maxDepth St form file keyID jobID timeout trace (w, d) = (Inl (CannotRead e), w, d)"
  by (simp add: store_and_enqueue_def)

lemma intake_unstored:
  "\<lbrakk>file_open file = Inr src; st_put St (keyID @ path_ext (Filename file)) src (Size file) d = (Some e, d1)\<rbrakk> \<Longrightarrow>
   store_and_enqueue R maxDepth St form file keyID jobID timeout trace (w, d) = (Inl (CannotStore e), w, d1)"
  by (simp add: store_and_enqueue_def Let_def)

lemma intake_stored:
  "\<lbrakk>file_open file = Inr src; st_put St (keyID @ path_ext (Filename file)) src (Size file) d = (None, d1); time_now w = (now, w1);
    EnqueueJobAtomicWithLimit R (upload_job form (Filename file) (keyID @ path_ext (Filename file)) jobID timeout trace now) maxDepth 1 w1
      = (r2, w2)\<rbrakk> \<Longrightarrow>
   store_and_enqueue R maxDepth St form file keyID jobID timeout trace (w, d) =
     (case r2 of
        Inl e \<Rightarrow> (Inl (if errors_is e ErrQueueFull then QueueFull else CannotQueue e), w2, snd (st_delete St (keyID @ path_ext (Filename file)) d1))
      | Inr _ \<Rightarrow> (Inr jobID, w2, d1))"
  by (cases r2) (auto simp: store_and_enqueue_def Let_def)

text \<open>The ways the intake of a file can end.\<close>

lemma intake_cases:
  assumes "store_and_enqueue R maxDepth St form file keyID jobID timeout trace (w, d) = (r, w', d')"
  obtains (unreadable) e where "file_open file = Inl e" "r = Inl (CannotRead e)" "w' = w" "d' = d"
    | (unstored) src e where "file_open file = Inr src" "st_put St (keyID @ path_ext (Filename file)) src (Size file) d = (Some e, d')"
        "r = Inl (CannotStore e)" "w' = w"
    | (unqueued) src d1 now w1 e ie where "file_open file = Inr src"
        "st_put St (keyID @ path_ext (Filename file)) src (Size file) d = (None, d1)" "time_now w = (now, w1)"
        "EnqueueJobAtomicWithLimit R (upload_job form (Filename file) (keyID @ path_ext (Filename file)) jobID timeout trace now) maxDepth 1 w1 = (Inl e, w')"
        "r = Inl ie" "d' = snd (st_delete St (keyID @ path_ext (Filename file)) d1)"
    | (queued) src now w1 where "file_open file = Inr src"
        "st_put St (keyID @ path_ext (Filename file)) src (Size file) d = (None, d')" "time_now w = (now, w1)"
        "EnqueueJobAtomicWithLimit R (upload_job form (Filename file) (keyID @ path_ext (Filename file)) jobID timeout trace now) maxDepth 1 w1 = (Inr (), w')"
        "r = Inr jobID"
proof (cases "file_open file")
  case (Inl e)
  then show thesis using unreadable [OF Inl] assms intake_unreadable [OF Inl, of R maxDepth St form keyID jobID timeout trace w d] by simp
next
  case (Inr src)
  obtain r1 d1 where p: "st_put St (keyID @ path_ext (Filename file)) src (Size file) d = (r1, d1)" by (metis surj_pair)
  obtain now w1 where t: "time_now w = (now, w1)" by (metis surj_pair)
  obtain r2 w2 where q: "EnqueueJobAtomicWithLimit R (upload_job form (Filename file) (keyID @ path_ext (Filename file)) jobID timeout trace now) maxDepth 1 w1
      = (r2, w2)" by (metis surj_pair)
  show thesis
  proof (cases r1)
    case (Some e)
    then show thesis
      using unstored [OF Inr, of e] p assms intake_unstored [OF Inr p [unfolded Some], of R maxDepth form jobID timeout trace w] by simp
  next
    case None
    note run = intake_stored [OF Inr p [unfolded None] t q]
    show thesis
    proof (cases r2)
      case (Inl e)
      then show thesis using unqueued [OF \<open>file_open file = Inr src\<close> p [unfolded None] t] q run assms by simp
    next
      case (Inr u)
      then show thesis using queued [OF \<open>file_open file = Inr src\<close> _ t] p None q run assms by simp
    qed
  qed
qed

context artifact_store
begin

lemma stored_and_enqueued:
  assumes R: "redis_server R" and St: "st_put St = put" "st_delete St = del"
    and sized: "sized file" and ready: "ready d (keyID @ path_ext (Filename file))"
    and run: "store_and_enqueue R maxDepth St form file keyID jobID timeout trace (w, d) = (Inr i, w', d')"
  shows "i = jobID \<and> (\<exists>src now s. file_open file = Inr src \<and> object d' (keyID @ path_ext (Filename file)) = Some (up_data src) \<and>
    published (upload_job form (Filename file) (keyID @ path_ext (Filename file)) jobID timeout trace now) (view R s) (view R (server w')))"
  using run
proof (cases rule: intake_cases)
  case (queued src now w1)
  have "Size file = int (length (up_data src))" using sized queued(1) by (simp add: sized_def)
  then have "object d' (keyID @ path_ext (Filename file)) = Some (up_data src)"
    using put_stores [OF ready] queued(2) by (simp add: St)
  then show ?thesis using enqueue_success [OF R queued(4)] queued(1,5) by blast
qed simp_all

text \<open>What a predicate of the store needs to survive the intake of a file.\<close>

lemma intake_store:
  assumes St: "st_put St = put" "st_delete St = del"
    and sized: "sized file" and ready: "ready d (keyID @ path_ext (Filename file))"
    and run: "store_and_enqueue R maxDepth St form file keyID jobID timeout trace (w, d) = (r, w', d')"
    and put: "\<And>src r1 d1. put (keyID @ path_ext (Filename file)) src (int (length (up_data src))) d = (r1, d1) \<Longrightarrow> P d1"
    and del: "\<And>d1 r2 d2. ready d1 (keyID @ path_ext (Filename file)) \<Longrightarrow> P d1 \<Longrightarrow> del (keyID @ path_ext (Filename file)) d1 = (r2, d2) \<Longrightarrow> P d2"
    and start: "P d"
  shows "P d'"
proof -
  let ?k = "keyID @ path_ext (Filename file)"
  have stored: "P d1 \<and> ready d1 ?k" if "file_open file = Inr src" "st_put St ?k src (Size file) d = (r1, d1)" for src r1 d1
  proof -
    have "put ?k src (int (length (up_data src))) d = (r1, d1)" using that sized by (simp add: sized_def St)
    then show ?thesis using put put_ready [OF ready _ ready] by blast
  qed
  from run show ?thesis
  proof (cases rule: intake_cases)
    case unreadable
    then show ?thesis using start by simp
  next
    case (unstored src e)
    then show ?thesis using stored by blast
  next
    case (unqueued src d1 now w1 e ie)
    then show ?thesis using del [of d1 "fst (del ?k d1)" "snd (del ?k d1)"] stored [OF unqueued(1,2)] by (simp add: St)
  next
    case (queued src now w1)
    then show ?thesis using stored by blast
  qed
qed

lemma others_untouched:
  assumes St: "st_put St = put" "st_delete St = del"
    and sized: "sized file" and ready: "ready d (keyID @ path_ext (Filename file))"
    and run: "store_and_enqueue R maxDepth St form file keyID jobID timeout trace (w, d) = (r, w', d')"
    and k: "\<not> same k (keyID @ path_ext (Filename file))"
  shows "object d' k = object d k"
  by (rule intake_store [where P = "\<lambda>d1. object d1 k = object d k", OF St sized ready run])
    (use put_frame [OF ready _ k] del_frame [OF _ _ k] in auto)

lemma still_ready:
  assumes St: "st_put St = put" "st_delete St = del"
    and sized: "sized file" and ready: "ready d (keyID @ path_ext (Filename file))"
    and run: "store_and_enqueue R maxDepth St form file keyID jobID timeout trace (w, d) = (r, w', d')"
    and k: "ready d k"
  shows "ready d' k"
  by (rule intake_store [where P = "\<lambda>d1. ready d1 k", OF St sized ready run])
    (use put_ready [OF ready _ k] del_ready k in blast)+

end

context clean_store
begin

lemma refused_leaves_nothing:
  assumes St: "st_put St = put" "st_delete St = del"
    and sized: "sized file" and ready: "ready d (keyID @ path_ext (Filename file))"
    and fresh: "object d (keyID @ path_ext (Filename file)) = None"
    and deletes: "\<And>d1. fst (del (keyID @ path_ext (Filename file)) d1) = None"
    and run: "store_and_enqueue R maxDepth St form file keyID jobID timeout trace (w, d) = (Inl e, w', d')"
  shows "object d' (keyID @ path_ext (Filename file)) = None"
  using run
proof (cases rule: intake_cases)
  case (unreadable e)
  then show ?thesis using fresh by simp
next
  case (unstored src e)
  then have "Size file = int (length (up_data src))" using sized by (simp add: sized_def)
  then show ?thesis using put_clean [OF ready, of src e d'] unstored(2) fresh by (simp add: St)
next
  case (unqueued src d1 now w1 e ie)
  let ?k = "keyID @ path_ext (Filename file)"
  have "put ?k src (int (length (up_data src))) d = (None, d1)" using unqueued(1,2) sized by (simp add: sized_def St)
  then have "ready d1 ?k" using put_ready [OF ready _ ready] by blast
  then show ?thesis using del_removes [of d1 ?k d'] unqueued(6) deletes [of d1] by (simp add: St prod_eq_iff)
qed simp

end

section \<open>The local backend as an artifact store\<close>

text \<open>
  The errors of the request's context, if it ended before the call, are \<open>c1\<close> for writing and \<open>c2\<close> for deleting.
  The keys of uploads have no directory; the temporary file beside the objects is new.
\<close>

definition local_put :: "os_faults \<Rightarrow> LocalStorage \<Rightarrow> go_error option \<Rightarrow> string \<Rightarrow> upload_body \<Rightarrow> int \<Rightarrow> fs \<Rightarrow> go_error option \<times> fs" where
  "local_put F l c1 k b sz = ls_Put F l c1 k \<lparr>rd_data = up_data b, rd_err = up_err b\<rparr> sz"

definition local_object :: "LocalStorage \<Rightarrow> fs \<Rightarrow> string \<Rightarrow> string option" where
  "local_object l f k =
     (case ls_resolve l k of Inl _ \<Rightarrow> None | Inr full \<Rightarrow> (case f full of Some (File d) \<Rightarrow> Some d | _ \<Rightarrow> None))"

definition local_same :: "LocalStorage \<Rightarrow> string \<Rightarrow> string \<Rightarrow> bool" where
  "local_same l k k' \<longleftrightarrow> ls_resolve l k = ls_resolve l k'"

definition local_ready :: "os_faults \<Rightarrow> LocalStorage \<Rightarrow> fs \<Rightarrow> string \<Rightarrow> bool" where
  "local_ready F l f k \<longleftrightarrow>
     isAbs (ls_base l) \<and> remove_fault F = None \<and> clean_elems k \<noteq> [] \<and>
     (let dir = path_clean (ls_base l); tmp = tmp_of F dir in
      f tmp = None \<and> tmp \<notin> set (ancestors dir) \<and>
      (case ls_resolve l k of Inl _ \<Rightarrow> False | Inr full \<Rightarrow> path_dir full = dir \<and> full \<noteq> tmp))"

lemma local_put_cases:
  assumes ready: "local_ready F l f k" and run: "local_put F l c1 k b (int (length (up_data b))) f = (err, f')"
  obtains full where "ls_resolve l k = Inr full" "full \<noteq> tmp_of F (path_clean (ls_base l))"
    "case err of None \<Rightarrow> f' full = Some (File (up_data b)) | Some e \<Rightarrow> f' full = f full"
    "\<And>p. p \<noteq> full \<Longrightarrow> f' p = f p \<or> f p = None \<and> f' p = Some Dir \<and> p \<noteq> tmp_of F (path_clean (ls_base l))"
proof (cases c1)
  case (Some e)
  then have "err \<noteq> None" "f' = f" using run by (auto simp: local_put_def ls_Put_def)
  moreover obtain full where "ls_resolve l k = Inr full" "full \<noteq> tmp_of F (path_clean (ls_base l))"
    using ready by (auto simp: local_ready_def Let_def split: sum.splits)
  ultimately show thesis using that by (cases err) auto
next
  case None
  from ready obtain full where full: "ls_resolve l k = Inr full" "path_dir full = path_clean (ls_base l)"
      "full \<noteq> tmp_of F (path_clean (ls_base l))"
    by (auto simp: local_ready_def Let_def split: sum.splits)
  have "(case err of None \<Rightarrow> f' full = Some (File (wanted \<lparr>rd_data = up_data b, rd_err = up_err b\<rparr> (int (length (up_data b))))) \<and>
            whole \<lparr>rd_data = up_data b, rd_err = up_err b\<rparr> (int (length (up_data b))) | Some e \<Rightarrow> f' full = f full) \<and>
      (\<forall>p. p \<noteq> full \<longrightarrow> f' p = f p \<or> f p = None \<and> f' p = Some Dir \<and> p \<in> set (ancestors (path_dir full)))"
    using ready full run None unfolding local_put_def local_ready_def Let_def by (intro ls_put_effect) simp_all
  then show thesis using that [OF full(1,3)] ready full(2)
    by (auto simp: wanted_def local_ready_def Let_def split: option.splits)
qed

lemma local_delete_cases:
  assumes ready: "local_ready F l f k" and run: "ls_Delete F occ l c2 k f = (err, f')"
  obtains full where "ls_resolve l k = Inr full" "f' = f \<or> f' = f(full := None)" "err = None \<Longrightarrow> f' full = None"
proof -
  obtain full where full: "ls_resolve l k = Inr full" using ready by (auto simp: local_ready_def Let_def split: sum.splits)
  have "remove_fault F = None" using ready by (simp add: local_ready_def)
  then have "f' = f \<or> f' = f(full := None)" "err = None \<longrightarrow> f' full = None"
    using run full by (auto simp: ls_Delete_def os_Remove_def os_ErrNotExist_def split: option.splits fnode.splits if_splits)
  then show thesis using that full by blast
qed

lemma local_laws:
  assumes ready: "local_ready F l f k" and run: "local_put F l c1 k b (int (length (up_data b))) f = (err, f')"
  shows "case err of None \<Rightarrow> local_object l f' k = Some (up_data b) | Some e \<Rightarrow> local_object l f' k = local_object l f k"
    and "\<not> local_same l k' k \<Longrightarrow> local_object l f' k' = local_object l f k'"
    and "local_ready F l f k' \<Longrightarrow> local_ready F l f' k'"
proof -
  obtain full where full: "ls_resolve l k = Inr full" "full \<noteq> tmp_of F (path_clean (ls_base l))"
    "case err of None \<Rightarrow> f' full = Some (File (up_data b)) | Some e \<Rightarrow> f' full = f full"
    "\<And>p. p \<noteq> full \<Longrightarrow> f' p = f p \<or> f p = None \<and> f' p = Some Dir \<and> p \<noteq> tmp_of F (path_clean (ls_base l))"
    by (rule local_put_cases [OF ready run]) (rule that)
  show "case err of None \<Rightarrow> local_object l f' k = Some (up_data b) | Some e \<Rightarrow> local_object l f' k = local_object l f k"
    using full(1,3) by (auto simp: local_object_def split: option.splits)
  show "local_object l f' k' = local_object l f k'" if "\<not> local_same l k' k"
  proof (cases "ls_resolve l k'")
    case (Inr p)
    then have "p \<noteq> full" using that full(1) by (auto simp: local_same_def)
    from full(4) [OF this] Inr show ?thesis by (auto simp: local_object_def)
  qed (simp add: local_object_def)
  show "local_ready F l f' k'" if "local_ready F l f k'"
    using that full(2) full(4) [of "tmp_of F (path_clean (ls_base l))"] by (auto simp: local_ready_def Let_def)
qed

lemma local_delete_laws:
  assumes ready: "local_ready F l f k" and run: "ls_Delete F occ l c2 k f = (err, f')"
  shows "err = None \<Longrightarrow> local_object l f' k = None" and "local_object l f' k \<in> {local_object l f k, None}"
    and "\<not> local_same l k' k \<Longrightarrow> local_object l f' k' = local_object l f k'"
    and "local_ready F l f k' \<Longrightarrow> local_ready F l f' k'"
proof -
  obtain full where full: "ls_resolve l k = Inr full" "f' = f \<or> f' = f(full := None)" "err = None \<Longrightarrow> f' full = None"
    by (rule local_delete_cases [OF ready run]) (rule that)
  show "err = None \<Longrightarrow> local_object l f' k = None" using full by (simp add: local_object_def)
  show "local_object l f' k \<in> {local_object l f k, None}" using full(1,2) by (auto simp: local_object_def)
  show "\<not> local_same l k' k \<Longrightarrow> local_object l f' k' = local_object l f k'"
    using full(1,2) by (auto simp: local_object_def local_same_def split: sum.splits)
  show "local_ready F l f k' \<Longrightarrow> local_ready F l f' k'" using full(2) by (auto simp: local_ready_def Let_def)
qed

interpretation local_files: clean_store "local_put F l c1" "ls_Delete F occ l c2" "local_object l" "local_same l" "local_ready F l"
  for F l c1 occ c2
proof
  fix d k b d' r k'
  assume ready: "local_ready F l d k" and run: "local_put F l c1 k b (int (length (up_data b))) d = (r, d')"
  show "local_object l d' k \<in> {local_object l d k, Some (up_data b)}" using local_laws(1) [OF ready run] by (simp split: option.splits)
  show "\<not> local_same l k' k \<Longrightarrow> local_object l d' k' = local_object l d k'" by (rule local_laws(2) [OF ready run])
  show "local_ready F l d k' \<Longrightarrow> local_ready F l d' k'" by (rule local_laws(3) [OF ready run])
next
  fix d k d' r k'
  assume ready: "local_ready F l d k" and run: "ls_Delete F occ l c2 k d = (r, d')"
  show "local_object l d' k \<in> {local_object l d k, None}" by (rule local_delete_laws(2) [OF ready run])
  show "\<not> local_same l k' k \<Longrightarrow> local_object l d' k' = local_object l d k'" by (rule local_delete_laws(3) [OF ready run])
  show "local_ready F l d k' \<Longrightarrow> local_ready F l d' k'" by (rule local_delete_laws(4) [OF ready run])
next
  fix d k b d'
  assume "local_ready F l d k" "local_put F l c1 k b (int (length (up_data b))) d = (None, d')"
  from local_laws(1) [OF this] show "local_object l d' k = Some (up_data b)" by simp
next
  fix d k d'
  assume "local_ready F l d k" "ls_Delete F occ l c2 k d = (None, d')"
  from local_delete_laws(1) [OF this] show "local_object l d' k = None" by simp
next
  fix d k b e d'
  assume "local_ready F l d k" "local_put F l c1 k b (int (length (up_data b))) d = (Some e, d')"
  from local_laws(1) [OF this] show "local_object l d' k = local_object l d k" by simp
qed

section \<open>The S3 backend as an artifact store\<close>

definition s3_object :: "S3Storage \<Rightarrow> ('s \<Rightarrow> string \<times> string \<Rightarrow> string option) \<Rightarrow> 's \<Rightarrow> string \<Rightarrow> string option" where
  "s3_object st object s k = (case objectURL st k of Inl _ \<Rightarrow> None | Inr t \<Rightarrow> object s t)"

definition s3_same :: "S3Storage \<Rightarrow> string \<Rightarrow> string \<Rightarrow> bool" where
  "s3_same st k k' \<longleftrightarrow> objectURL st k = objectURL st k'"

definition s3_ready :: "S3Storage \<Rightarrow> 's \<Rightarrow> string \<Rightarrow> bool" where
  "s3_ready st s k \<longleftrightarrow> (case objectURL st k of Inl _ \<Rightarrow> False | Inr _ \<Rightarrow> True)"

lemma s3_artifact_store:
  assumes S: "object_server (serve N) object"
  shows "artifact_store (s3_Put N R st budget_err) (s3_Delete N R' st) (s3_object st object) (s3_same st) (s3_ready st)"
proof
  fix d k b d' r k'
  assume "s3_ready st d k" and run: "s3_Put N R st budget_err k b (int (length (up_data b))) d = (r, d')"
  then obtain t where t: "objectURL st k = Inr t" by (auto simp: s3_ready_def split: sum.splits)
  note put = put_stored [OF S t run, unfolded put_state_def]
  show "s3_object st object d' k \<in> {s3_object st object d k, Some (up_data b)}" using put by (simp add: s3_object_def t)
  show "\<not> s3_same st k' k \<Longrightarrow> s3_object st object d' k' = s3_object st object d k'"
    using put t by (auto simp: s3_object_def s3_same_def split: sum.splits)
  show "s3_ready st d k' \<Longrightarrow> s3_ready st d' k'" by (simp add: s3_ready_def)
next
  fix d k b d'
  assume "s3_ready st d k" and run: "s3_Put N R st budget_err k b (int (length (up_data b))) d = (None, d')"
  then obtain t where t: "objectURL st k = Inr t" by (auto simp: s3_ready_def split: sum.splits)
  from put_stored [OF S t run] show "s3_object st object d' k = Some (up_data b)" by (simp add: s3_object_def t)
next
  fix d k d' r k'
  assume "s3_ready st d k" and run: "s3_Delete N R' st k d = (r, d')"
  then obtain t where t: "objectURL st k = Inr t" by (auto simp: s3_ready_def split: sum.splits)
  note del = object_server.delete_removes [OF S run refl t, unfolded delete_state_def]
  show "s3_object st object d' k \<in> {s3_object st object d k, None}" using del by (simp add: s3_object_def t)
  show "\<not> s3_same st k' k \<Longrightarrow> s3_object st object d' k' = s3_object st object d k'"
    using del t by (auto simp: s3_object_def s3_same_def split: sum.splits)
  show "s3_ready st d k' \<Longrightarrow> s3_ready st d' k'" by (simp add: s3_ready_def)
next
  fix d k d'
  assume "s3_ready st d k" and run: "s3_Delete N R' st k d = (None, d')"
  then obtain t where t: "objectURL st k = Inr t" by (auto simp: s3_ready_def split: sum.splits)
  from object_server.delete_removes [OF S run refl t] show "s3_object st object d' k = None" by (simp add: s3_object_def t)
qed

interpretation s3_objects: artifact_store "s3_Put mem_service R st budget_err" "s3_Delete mem_service R' st" "s3_object st mem_object"
    "s3_same st" "s3_ready st" for R st budget_err R'
  by (rule s3_artifact_store [OF mem_s3_server])

section \<open>The handlers\<close>

lemma upload_cases:
  assumes "upload_handler R I Sto form keyID jobID (w, d) = (resp, w', d')"
  obtains (refused) "status resp \<noteq> StatusAccepted" "d' = d" "w' = w \<or> w' = snd (GetQueueDepth R w)"
    | (admitted) St fh r where "Sto = Some St" "upload_checks form = Inr fh"
        "store_and_enqueue R (queueDepthThreshold I) St form fh keyID jobID (parse_timeout (scan_timeout form)) (trace_carrier I)
           (snd (GetQueueDepth R w), d) = (r, w', d')"
        "resp = intake_response r" "webhook_refused I form = None"
proof -
  have bad: "status resp \<noteq> StatusAccepted" if "upload_checks form = Inl resp" for resp
    using that by (auto simp: upload_checks_def too_large_def err_response_def split: sum.splits if_splits)
  show thesis
    using assms refused admitted bad unfolding upload_handler_def
    by (auto simp: err_response_def busy_response_def split: sum.splits option.splits prod.splits if_splits)
qed

lemma accepted_iff: "status (intake_response r) = StatusAccepted \<longleftrightarrow> (\<exists>i. r = Inr i)"
  by (auto simp: intake_response_def err_response_def busy_response_def split: sum.splits intake_error.splits)

lemma checks_passed:
  "upload_checks form = Inr fh \<Longrightarrow>
     form_file form = Inr fh \<and> Size fh \<le> maxUploadSize \<and> isSupportedPackageExt (Filename fh) \<and> \<not> traverses (Filename fh)"
  by (auto simp: upload_checks_def split: sum.splits if_splits)

text \<open>What the queue's server keeps under every publication, it keeps under the handlers.\<close>

lemma GetQueueDepth_server: "server (snd (GetQueueDepth R w)) = server w"
proof -
  have "keeps (\<lambda>s. s = server w) (GetQueueDepth R)"
    unfolding GetQueueDepth_def by (intro keeps_redisDo keeps_rcall) (simp add: read_cmd_def)
  then show ?thesis by (simp add: keeps_def)
qed

lemma intake_server:
  assumes run: "store_and_enqueue R maxDepth St form fh keyID jobID timeout trace (w, d) = (r, w', d')"
    and keep: "\<And>job. keeps P (EnqueueJobAtomicWithLimit R job maxDepth 1)" and P: "P (server w)"
  shows "P (server w')"
proof -
  have enq: "P (server w2)" if "time_now w = (t, w1)" "EnqueueJobAtomicWithLimit R job maxDepth 1 w1 = (q, w2)" for t w1 job q w2
  proof -
    have "server w1 = server w" using time_now_sel(1) [of w] that(1) by simp
    then show ?thesis using keepsD [OF keep, of w1 job] that(2) P by simp
  qed
  from run show ?thesis
  proof (cases rule: intake_cases)
    case (unqueued src d1 now w1 e ie)
    then show ?thesis using enq by blast
  next
    case (queued src now w1)
    then show ?thesis using enq by blast
  qed (use P in simp_all)
qed

lemma bulk_files_server:
  assumes "bulk_files R maxDepth St form xs acc (w, d) = (acc', w', d')"
    and keep: "\<And>job. keeps P (EnqueueJobAtomicWithLimit R job maxDepth 1)" and "P (server w)"
  shows "P (server w')"
  using assms(1,3)
proof (induction xs arbitrary: acc w d)
  case (Cons x xs)
  obtain fh keyID jobID js es where x: "x = (fh, keyID, jobID)" "acc = (js, es)" by (cases x; cases acc) auto
  obtain r w1 d1 where run: "store_and_enqueue R maxDepth St form fh keyID jobID 0 [] (w, d) = (r, w1, d1)" by (metis surj_pair)
  have "P (server w1)" by (rule intake_server [OF run keep Cons.prems(2)])
  then show ?case using Cons.prems Cons.IH run by (auto simp: x split: option.splits sum.splits)
qed simp

lemma bulk_handler_server:
  assumes "bulk_handler R I Sto form ids (w, d) = (resp, w', d')"
    and keep: "\<And>job. keeps P (EnqueueJobAtomicWithLimit R job (queueDepthThreshold I) 1)" and P: "P (server w)"
  shows "P (server w')"
proof -
  have "P (server (snd (GetQueueDepth R w)))" using P by (simp add: GetQueueDepth_server)
  then show ?thesis using assms(1) P bulk_files_server [OF _ keep] unfolding bulk_handler_def
    by (auto split: sum.splits option.splits prod.splits if_splits)
qed

lemma upload_handler_server:
  assumes run: "upload_handler R I Sto form keyID jobID (w, d) = (resp, w', d')"
    and keep: "\<And>job. keeps P (EnqueueJobAtomicWithLimit R job (queueDepthThreshold I) 1)" and P: "P (server w)"
  shows "P (server w')"
  using run
proof (cases rule: upload_cases)
  case refused
  then show ?thesis using P by (auto simp: GetQueueDepth_server)
next
  case (admitted St fh r)
  then show ?thesis using intake_server [OF admitted(3) keep] P by (simp add: GetQueueDepth_server)
qed

lemma enqueue_keeps_queued:
  assumes "redis_server R"
  shows "keeps (\<lambda>s. i \<in> set (k_list (view R s) jobQueueKey)) (EnqueueJobAtomicWithLimit R job limit 1)"
  unfolding EnqueueJobAtomicWithLimit_def
  using assms by (intro keeps_rules) (auto intro!: keeps_rules simp: view_limitScript)

section \<open>Bulk uploads keep what they accept\<close>

definition bulk_key :: "file_header \<times> string \<times> string \<Rightarrow> string" where
  "bulk_key x = (case x of (fh, keyID, jobID) \<Rightarrow> keyID @ path_ext (Filename fh))"

text \<open>The job \<open>i\<close> is queued and its artifact is in the store.\<close>

definition kept :: "'s redis \<Rightarrow> ('d \<Rightarrow> string \<Rightarrow> string option) \<Rightarrow> (file_header \<times> string \<times> string) list \<Rightarrow> 's world \<Rightarrow> 'd \<Rightarrow> string \<Rightarrow> bool" where
  "kept R object xs w d i \<longleftrightarrow> i \<in> set (k_list (view R (server w)) jobQueueKey) \<and>
     (\<exists>fh keyID src. (fh, keyID, i) \<in> set xs \<and> file_open fh = Inr src \<and> object d (bulk_key (fh, keyID, i)) = Some (up_data src))"

lemma kept_later:
  assumes R: "redis_server R" and bulk: "bulk_files R maxDepth St form xs acc (w, d) = (acc', w', d')"
    and i: "kept R object [x] w d i" and unchanged: "object d' (bulk_key x) = object d (bulk_key x)"
  shows "kept R object (x # xs) w' d' i"
proof -
  have "i \<in> set (k_list (view R (server w')) jobQueueKey)"
    using bulk_files_server [OF bulk enqueue_keeps_queued [OF R]] i by (simp add: kept_def)
  moreover obtain fh keyID src where "x = (fh, keyID, i)" "file_open fh = Inr src" "object d (bulk_key x) = Some (up_data src)"
    using i by (auto simp: kept_def)
  ultimately show ?thesis using unchanged unfolding kept_def
    by (intro conjI exI [of _ fh] exI [of _ keyID] exI [of _ src]) simp_all
qed

context artifact_store
begin

lemma accepted_kept:
  assumes R: "redis_server R" and St: "st_put St = put" "st_delete St = del"
    and sized: "sized fh" and ready: "ready d (keyID @ path_ext (Filename fh))"
    and run: "store_and_enqueue R maxDepth St form fh keyID jobID timeout trace (w, d) = (Inr i, w', d')"
  shows "kept R object [(fh, keyID, jobID)] w' d' i"
proof -
  obtain src now s where "i = jobID" "file_open fh = Inr src" "object d' (keyID @ path_ext (Filename fh)) = Some (up_data src)"
    "published (upload_job form (Filename fh) (keyID @ path_ext (Filename fh)) jobID timeout trace now) (view R s) (view R (server w'))"
    using stored_and_enqueued [OF assms] by blast
  then show ?thesis by (simp add: kept_def published_def upload_job_def bulk_key_def)
qed

lemma bulk_files_keep:
  assumes R: "redis_server R" and St: "st_put St = put" "st_delete St = del"
  shows "\<lbrakk>bulk_files R maxDepth St form xs (js, es) (w, d) = ((js', es'), w', d');
    \<forall>x\<in>set xs. sized (fst x) \<and> ready d (bulk_key x); sorted_wrt (\<lambda>x y. \<not> same (bulk_key x) (bulk_key y)) xs\<rbrakk> \<Longrightarrow>
    (\<exists>js1 es1. js' = js @ js1 \<and> es' = es @ es1 \<and> length js1 + length es1 = length xs \<and> (\<forall>i\<in>set js1. kept R object xs w' d' i)) \<and>
    (\<forall>k. (\<forall>x\<in>set xs. \<not> same k (bulk_key x)) \<longrightarrow> object d' k = object d k)"
proof (induction xs arbitrary: js es w d)
  case (Cons x xs)
  obtain fh keyID jobID where x: "x = (fh, keyID, jobID)" by (cases x) auto
  have key: "bulk_key x = keyID @ path_ext (Filename fh)" by (simp add: x bulk_key_def)
  have fh: "sized fh" "ready d (keyID @ path_ext (Filename fh))" using Cons.prems(2) by (simp_all add: x bulk_key_def)
  have later: "sorted_wrt (\<lambda>x y. \<not> same (bulk_key x) (bulk_key y)) xs" "\<forall>y\<in>set xs. \<not> same (bulk_key x) (bulk_key y)"
    using Cons.prems(3) by simp_all
  have mono: "kept R object xs w2 d2 i \<Longrightarrow> kept R object (x # xs) w2 d2 i" for w2 d2 i by (auto simp: kept_def)
  show ?case
  proof (cases "bulk_check fh")
    case (Some msg)
    then have "bulk_files R maxDepth St form xs (js, es @ [msg]) (w, d) = ((js', es'), w', d')" using Cons.prems(1) by (simp add: x)
    from Cons.IH [OF this _ later(1)] Cons.prems(2) obtain js1 es1 where
      ih: "js' = js @ js1" "es' = es @ [msg] @ es1" "length js1 + length es1 = length xs" "\<forall>i\<in>set js1. kept R object xs w' d' i"
        "\<forall>k. (\<forall>x\<in>set xs. \<not> same k (bulk_key x)) \<longrightarrow> object d' k = object d k" by auto
    show ?thesis using ih mono by (intro conjI exI [of _ js1] exI [of _ "msg # es1"]) auto
  next
    case None
    obtain r w1 d1 where run: "store_and_enqueue R maxDepth St form fh keyID jobID 0 [] (w, d) = (r, w1, d1)" by (metis surj_pair)
    have ready: "\<forall>y\<in>set xs. sized (fst y) \<and> ready d1 (bulk_key y)"
      using Cons.prems(2) still_ready [OF St fh run] by simp
    have frame: "object d1 k = object d k" if "\<not> same k (bulk_key x)" for k
      using others_untouched [OF St fh run] that by (simp add: key)
    show ?thesis
    proof (cases r)
      case (Inl e)
      then have "bulk_files R maxDepth St form xs (js, es @ [bulk_error fh e]) (w1, d1) = ((js', es'), w', d')"
        using Cons.prems(1) None run by (simp add: x)
      from Cons.IH [OF this ready later(1)] obtain js1 es1 where
        ih: "js' = js @ js1" "es' = es @ [bulk_error fh e] @ es1" "length js1 + length es1 = length xs" "\<forall>i\<in>set js1. kept R object xs w' d' i"
          "\<forall>k. (\<forall>x\<in>set xs. \<not> same k (bulk_key x)) \<longrightarrow> object d' k = object d1 k" by auto
      show ?thesis using ih mono frame by (intro conjI exI [of _ js1] exI [of _ "bulk_error fh e # es1"]) auto
    next
      case (Inr i)
      then have bulk: "bulk_files R maxDepth St form xs (js @ [i], es) (w1, d1) = ((js', es'), w', d')"
        using Cons.prems(1) None run by (simp add: x)
      from Cons.IH [OF bulk ready later(1)] obtain js1 es1 where
        ih: "js' = js @ [i] @ js1" "es' = es @ es1" "length js1 + length es1 = length xs" "\<forall>i\<in>set js1. kept R object xs w' d' i"
          "\<forall>k. (\<forall>x\<in>set xs. \<not> same k (bulk_key x)) \<longrightarrow> object d' k = object d1 k" by auto
      have "kept R object [x] w1 d1 i" using accepted_kept [OF R St fh run [unfolded Inr]] by (simp add: x)
      then have "kept R object (x # xs) w' d' i" by (rule kept_later [OF R bulk]) (use ih(5) later(2) in blast)
      then show ?thesis using ih mono frame by (intro conjI exI [of _ "i # js1"] exI [of _ es1]) auto
    qed
  qed
qed simp

end

section \<open>What the handlers promise\<close>

abbreviation upload_key :: "string \<Rightarrow> file_header \<Rightarrow> string" where
  "upload_key keyID fh \<equiv> keyID @ path_ext (Filename fh)"

lemma depth_healthy:
  assumes "redis_server R" "healthy w"
  shows "\<exists>w1. GetQueueDepth R w = (Inr (int (length (k_list (view R (server w)) jobQueueKey))), w1) \<and> healthy w1 \<and> server w1 = server w"
proof -
  have "wp (\<lambda>_. True) (GetQueueDepth R) (\<lambda>r s'. r = Inr (int (length (k_list (view R (server w)) jobQueueKey))) \<and> s' = server w) (server w)"
    unfolding GetQueueDepth_def using assms(1) by (intro wp_redisDo_rcall) (simp add: read_cmd_def llen_def redis_view)
  from wpD [OF this assms(2)] show ?thesis by (cases "GetQueueDepth R w") simp
qed

text \<open>
  In a healthy world, with room in the queue, an upload that passes the checks and is stored is accepted: the
  answer has the identifier of the job, and the queue is as before with the job published.
\<close>

lemma upload_goes_through:
  assumes R: "redis_server R" and w: "healthy w" and room: "int (length (k_list (view R (server w)) jobQueueKey)) < queueDepthThreshold I"
    and ok: "upload_checks form = Inr fh" "db_status I = None" "queue_up I" "webhook_refused I form = None"
    and src: "file_open fh = Inr src" and put: "st_put St (upload_key keyID fh) src (Size fh) d = (None, d')"
  shows "\<exists>w' now. upload_handler R I (Some St) form keyID jobID (w, d) = (intake_response (Inr jobID), w', d') \<and>
    published (upload_job form (Filename fh) (upload_key keyID fh) jobID (parse_timeout (scan_timeout form)) (trace_carrier I) now)
      (view R (server w)) (view R (server w'))"
proof -
  obtain w1 where depth: "GetQueueDepth R w = (Inr (int (length (k_list (view R (server w)) jobQueueKey))), w1)" "healthy w1" "server w1 = server w"
    using depth_healthy [OF R w] by blast
  obtain now w2 where t: "time_now w1 = (now, w2)" by (metis surj_pair)
  then have w2: "healthy w2" "server w2 = server w" using time_now_healthy [OF depth(2)] time_now_sel(1) [of w1] depth(3) by simp_all
  let ?job = "upload_job form (Filename fh) (upload_key keyID fh) jobID (parse_timeout (scan_timeout form)) (trace_carrier I) now"
  obtain r w3 where enq: "EnqueueJobAtomicWithLimit R ?job (queueDepthThreshold I) 1 w2 = (r, w3)" by (metis surj_pair)
  have "r = Inr () \<and> published ?job (view R (server w)) (view R (server w3))"
    using wpD [OF wp_EnqueueLimit [OF R] w2(1), of "queueDepthThreshold I" 1 ?job] room enq by (simp add: w2(2) split: if_splits)
  then show ?thesis
    using intake_stored [OF src put t enq] ok depth(1) room by (intro exI [of _ w3] exI [of _ now]) (simp add: upload_handler_def)
qed

text \<open>In a healthy world, a file for which the queue has no room is stored and deleted again.\<close>

lemma intake_full:
  assumes R: "redis_server R" and w: "healthy w" and full: "0 < maxDepth" "maxDepth \<le> int (length (k_list (view R (server w)) jobQueueKey))"
    and src: "file_open fh = Inr src" and put: "st_put St (upload_key keyID fh) src (Size fh) d = (None, d1)"
  shows "\<exists>w'. store_and_enqueue R maxDepth St form fh keyID jobID timeout trace (w, d)
      = (Inl QueueFull, w', snd (st_delete St (upload_key keyID fh) d1))"
proof -
  obtain now w2 where t: "time_now w = (now, w2)" by (metis surj_pair)
  then have w2: "healthy w2" "server w2 = server w" using time_now_healthy [OF w] time_now_sel(1) [of w] by simp_all
  let ?job = "upload_job form (Filename fh) (upload_key keyID fh) jobID timeout trace now"
  obtain r w3 where enq: "EnqueueJobAtomicWithLimit R ?job maxDepth 1 w2 = (r, w3)" by (metis surj_pair)
  have "r = Inl ErrQueueFull"
    using wpD [OF wp_EnqueueLimit [OF R] w2(1), of maxDepth 1 ?job] full enq by (simp add: w2(2))
  then show ?thesis using intake_stored [OF src put t enq] by (simp add: ErrQueueFull_def)
qed


text \<open>
  C32.  An upload that is not accepted leaves nothing in a store whose failed writes leave no trace, as long as
  the deletion works; no upload changes the objects of others.
\<close>

theorem upload_refused:
  assumes S: "clean_store (st_put St) (st_delete St) object same ready"
    and fh: "form_file form = Inr fh" "sized fh" "ready d (upload_key keyID fh)"
    and fresh: "object d (upload_key keyID fh) = None" and deletes: "\<And>d1. fst (st_delete St (upload_key keyID fh) d1) = None"
    and run: "upload_handler R I (Some St) form keyID jobID (w, d) = (resp, w', d')"
  shows "(status resp \<noteq> StatusAccepted \<longrightarrow> object d' (upload_key keyID fh) = None) \<and>
    (\<not> same k (upload_key keyID fh) \<longrightarrow> object d' k = object d k)"
  using run
proof (cases rule: upload_cases)
  case (admitted St' fh' r)
  have same: "St' = St" "fh' = fh" using admitted(1,2) checks_passed [of form fh'] fh(1) by simp_all
  note run' = admitted(3) [unfolded same]
  have "object d' (upload_key keyID fh) = None" if "r = Inl e" for e
    by (rule clean_store.refused_leaves_nothing [OF S refl refl fh(2,3) fresh deletes run' [unfolded that]])
  moreover have "object d' k = object d k" if "\<not> same k (upload_key keyID fh)"
    using artifact_store.others_untouched [OF clean_store.axioms(1) [OF S] refl refl fh(2,3) run' that] .
  ultimately show ?thesis using accepted_iff [of r] admitted(4) by (cases r) simp_all
qed (use fresh in simp)

text \<open>
  However the answers of Redis get lost and commands are repeated, no upload and no bulk upload brings the queue above
  its limit.
\<close>

theorem uploads_bounded:
  assumes R: "redis_server R" and limit: "0 < queueDepthThreshold I" "int (length (k_list (view R (server w)) jobQueueKey)) \<le> queueDepthThreshold I"
    and run: "upload_handler R I Sto form keyID jobID (w, d) = (resp, w1, d1) \<or> bulk_handler R I Sto form ids (w, d) = (resp, w1, d1)"
  shows "int (length (k_list (view R (server w1)) jobQueueKey)) \<le> queueDepthThreshold I"
proof -
  note keep = enqueue_keeps_limit [OF R limit(1)]
  from run show ?thesis
  proof
    assume "upload_handler R I Sto form keyID jobID (w, d) = (resp, w1, d1)"
    from upload_handler_server [OF this keep limit(2)] show ?thesis .
  next
    assume "bulk_handler R I Sto form ids (w, d) = (resp, w1, d1)"
    from bulk_handler_server [OF this keep limit(2)] show ?thesis .
  qed
qed

text \<open>
  C33.  A bulk upload accounts for every file, by a job or by an error.  Every job it reports is in the queue at
  the end and its artifact in the store, also after the files that came later; objects of other keys are untouched.
\<close>

theorem bulk_accounts:
  assumes R: "redis_server R" and S: "artifact_store (st_put St) (st_delete St) object same ready"
    and run: "bulk_files R maxDepth St form xs ([], []) (w, d) = ((jobIDs, errs), w', d')"
    and xs: "\<forall>x\<in>set xs. sized (fst x) \<and> ready d (bulk_key x)" "sorted_wrt (\<lambda>x y. \<not> same (bulk_key x) (bulk_key y)) xs"
  shows "length jobIDs + length errs = length xs \<and> (\<forall>i\<in>set jobIDs. kept R object xs w' d' i) \<and>
    (\<forall>k. (\<forall>x\<in>set xs. \<not> same k (bulk_key x)) \<longrightarrow> object d' k = object d k)"
  using artifact_store.bulk_files_keep [OF S R refl refl run xs] by simp

section \<open>What can go wrong\<close>

text \<open>
  C34.  The reply to the publication gets lost: the script ran, the client saw a network error.  The handler
  deletes the stored object and answers 500, but the job is in the queue, without its artifact.
\<close>

theorem lost_reply_orphans_job:
  assumes R: "redis_server R" and S: "artifact_store (st_put St) (st_delete St) object same ready"
    and w: "breakers w = None" "shd (net w) = Reply 0" "shd (stl (net w)) = NoReply 1"
    and room: "int (length (k_list (view R (server w)) jobQueueKey)) < queueDepthThreshold I"
    and ok: "upload_checks form = Inr fh" "db_status I = None" "queue_up I" "webhook_refused I form = None"
    and src: "file_open fh = Inr src" "sized fh" "ready d (upload_key keyID fh)"
    and put: "st_put St (upload_key keyID fh) src (Size fh) d = (None, d1)" and del: "st_delete St (upload_key keyID fh) d1 = (None, d2)"
  shows "\<exists>w'. upload_handler R I (Some St) form keyID jobID (w, d) = (err_response StatusInternalServerError ''Failed to queue job'', w', d2) \<and>
    jobID \<in> set (k_list (view R (server w')) jobQueueKey) \<and> object d2 (upload_key keyID fh) = None"
proof -
  let ?n = "int (length (k_list (view R (server w)) jobQueueKey))"
  let ?job = "upload_job form (Filename fh) (upload_key keyID fh) jobID (parse_timeout (scan_timeout form)) (trace_carrier I) (shd (clock w))"
  let ?f = "enqueueWithLimitScript R (jobKey (ID ?job)) (statusKey (Status ?job)) jobQueueKey (ID ?job) ttlSeconds (queueDepthThreshold I) 1 (job_fields ?job)"
  let ?w2 = "w\<lparr>net := stl (net w), clock := stl (clock w)\<rparr>" and ?e = "Errorf (''failed to atomically enqueue job: '' @ err_msg redis_err) []"
  let ?w3 = "?w2\<lparr>server := snd (?f (server w)), net := stl (stl (net w))\<rparr>"
  have depth: "GetQueueDepth R w = (Inr ?n, w\<lparr>net := stl (net w)\<rparr>)"
    using R w by (simp add: GetQueueDepth_def redisDo_def Do_def rcall_def read_cmd_def llen_def redis_view)
  have t: "time_now (w\<lparr>net := stl (net w)\<rparr>) = (shd (clock w), ?w2)" by (simp add: time_now_def)
  have enq: "EnqueueJobAtomicWithLimit R ?job (queueDepthThreshold I) 1 ?w2 = (Inl ?e, ?w3)"
    using w by (simp add: EnqueueJobAtomicWithLimit_def op_bind_def wrapv_def redisDo_def Do_def rcall_def)
  have "\<not> errors_is ?e ErrQueueFull" by (simp add: ErrQueueFull_def)
  then have h: "upload_handler R I (Some St) form keyID jobID (w, d) = (err_response StatusInternalServerError ''Failed to queue job'', ?w3, d2)"
    using intake_stored [OF src(1) put t enq] ok depth room del by (simp add: upload_handler_def intake_response_def)
  have "jobID \<in> set (k_list (view R (server ?w3)) jobQueueKey)"
    using R room by (simp add: view_limitScript) (simp add: upload_job_def)
  moreover have "ready d1 (upload_key keyID fh)"
    using artifact_store.put_ready [OF S src(3) _ src(3)] put src(1,2) by (simp add: sized_def)
  then have "object d2 (upload_key keyID fh) = None" by (rule artifact_store.del_removes [OF S _ del])
  ultimately show ?thesis using h by blast
qed

text \<open>
  The client goes away after its file was stored and the queue is full: the deletion is called with the context of
  the request, which has ended, and the local backend refuses it.  The object stays in the store.
\<close>

theorem cancelled_upload_leaks:
  assumes fh: "sized fh" "local_ready F l d (upload_key keyID fh)"
    and run: "store_and_enqueue R maxDepth \<lparr>st_put = local_put F l None, st_delete = ls_Delete F occ l (Some cancelled)\<rparr> form fh keyID jobID timeout trace (w, d)
      = (Inl QueueFull, w', d')"
  shows "\<exists>src. file_open fh = Inr src \<and> local_object l d' (upload_key keyID fh) = Some (up_data src)"
  using run
proof (cases rule: intake_cases)
  case (unqueued src d1 now w1 e ie)
  then have "local_object l d1 (upload_key keyID fh) = Some (up_data src)"
    using local_files.put_stores [OF fh(2)] fh(1) by (simp add: sized_def)
  moreover have "d' = d1" using unqueued(6) by (simp add: ls_Delete_def)
  ultimately show ?thesis using unqueued(1) by blast
qed simp_all

text \<open>
  The S3 service stores the file but its answer is lost: as the body is a file, the request is not repeated
  and the handler reports that storing failed.  The object stays in the store.
\<close>

theorem unanswered_put_leaks:
  assumes "file_open fh = Inr src" "up_closes src" "up_seekable src" "up_seek_err src = None" "sized fh" "Size fh \<le> maxS3UploadBytes"
    and "\<And>k. ctx_check E k = None" "\<And>k. ctx_wait E k = None" "objectURL st (upload_key keyID fh) = Inr t" "request_err N t = None"
    and "\<And>req. request_for st ''PUT'' (upload_key keyID fh) (up_data src) req \<Longrightarrow> serve N req s = (Inl msg, s1)"
    and "object s1 t = Some (up_data src)"
  shows "\<exists>e. store_and_enqueue R maxDepth \<lparr>st_put = s3_Put N E st None, st_delete = s3_Delete N E st\<rparr> form fh keyID jobID timeout trace (w, s)
      = (Inl (CannotStore e), w, s1) \<and> s3_object st object s1 (upload_key keyID fh) = Some (up_data src)"
proof -
  have len: "Size fh = int (length (up_data src))" using assms(1,5) by (simp add: sized_def)
  have "s3_Put N E st None (upload_key keyID fh) src (Size fh) s =
      (Some (s3_errf ''PUT'' (upload_key keyID fh) (RetryableError (storage_errf ''rewinding upload for '' (upload_key keyID fh) os_ErrClosed) False)), s1)"
    by (rule closed_body_ends [OF assms(2-4) _ assms(6) _ assms(7-11)]) (simp_all add: len)
  then have "st_put \<lparr>st_put = s3_Put N E st None, st_delete = s3_Delete N E st\<rparr> (upload_key keyID fh) src (Size fh) s = (Some
      (s3_errf ''PUT'' (upload_key keyID fh) (RetryableError (storage_errf ''rewinding upload for '' (upload_key keyID fh) os_ErrClosed) False)), s1)"
    by simp
  from intake_unstored [OF assms(1) this] assms(9,12) show ?thesis by (simp add: s3_object_def) blast
qed

section \<open>Examples\<close>

definition some_header :: file_header where
  "some_header = \<lparr>Filename = ''a.apk'', Size = 2, file_open = Inr (some_file True)\<rparr>"

definition some_form :: upload_form where
  "some_form = \<lparr>rq_id = ''r'', rq_length = 300, form_file = Inr some_header, form_files = Inr [some_header], webhook_url = [],
     webhook_secret = [], scan_timeout = ''60''\<rparr>"

definition some_intake :: "int \<Rightarrow> intake" where
  "some_intake n = \<lparr>db_status = None, queue_up = True, outside_world = rebinding, queueDepthThreshold = n, trace_carrier = []\<rparr>"

definition local_files_store :: "go_error option \<Rightarrow> fs store" where
  "local_files_store c = \<lparr>st_put = local_put (no_faults ''1'') Local_Storage.sample_store None,
     st_delete = ls_Delete (no_faults ''1'') (\<lambda>_. False) Local_Storage.sample_store c\<rparr>"

definition up_fs :: fs where
  "up_fs = [''/srv/up'' \<mapsto> Dir]"

lemma some_key: "path_ext (Filename some_header) = ''.apk''" by code_simp

lemma some_sized: "sized some_header" by (simp add: sized_def some_header_def some_file_def)

lemma some_checks: "upload_checks some_form = Inr some_header" by code_simp

lemma some_resolve: "ls_resolve Local_Storage.sample_store ''k.apk'' = Inr ''/srv/up/k.apk''" by code_simp

lemma some_ready: "local_ready (no_faults ''1'') Local_Storage.sample_store up_fs ''k.apk''" by code_simp

lemma some_put_local:
  "\<exists>d. st_put (local_files_store c) ''k.apk'' (some_file True) 2 up_fs = (None, d)"
proof -
  have "fst (local_put (no_faults ''1'') Local_Storage.sample_store None ''k.apk'' (some_file True) 2 up_fs) = None" by code_simp
  then show ?thesis by (simp add: local_files_store_def prod_eq_iff)
qed

interpretation some_files: clean_store "st_put (local_files_store c)" "st_delete (local_files_store c)" "local_object Local_Storage.sample_store"
    "local_same Local_Storage.sample_store" "local_ready (no_faults ''1'') Local_Storage.sample_store" for c
  using local_files.clean_store_axioms by (simp add: local_files_store_def)

lemma some_open_file: "file_open some_header = Inr (some_file True)" "form_file some_form = Inr some_header" "Size some_header = 2"
  by (simp_all add: some_header_def some_form_def)

lemma some_intake_sel [simp]:
  "db_status (some_intake n) = None" "queue_up (some_intake n)" "queueDepthThreshold (some_intake n) = n" "webhook_refused (some_intake n) some_form = None"
  by (simp_all add: some_intake_def webhook_refused_def some_form_def)

lemmas some_upload = some_key some_open_file some_sized some_ready some_checks


theorem upload_refused_witness:
  "\<exists>resp w' d'. upload_handler (mem_redis [] []) (some_intake 1) (Some (local_files_store None)) some_form ''k'' ''j2'' (sample_world, up_fs) = (resp, w', d') \<and>
     status resp = StatusTooManyRequests \<and> local_object Local_Storage.sample_store d' ''k.apk'' = None"
proof -
  let ?St = "local_files_store None" and ?R = "mem_redis [] []"
  obtain w1 where depth: "GetQueueDepth ?R sample_world = (Inr 1, w1)" "healthy w1" "server w1 = server sample_world"
    using depth_healthy [OF mem_server sample_healthy] by (auto simp: sample_list)
  obtain d1 where put: "st_put ?St ''k.apk'' (some_file True) 2 up_fs = (None, d1)" using some_put_local by blast
  obtain w' where "store_and_enqueue ?R 1 ?St some_form some_header ''k'' ''j2'' (parse_timeout (scan_timeout some_form)) [] (w1, up_fs)
      = (Inl QueueFull, w', snd (st_delete ?St ''k.apk'' d1))"
    using intake_full [OF mem_server depth(2), of 1 some_header "some_file True" ?St "''k''" up_fs d1 some_form "''j2''"] put depth(3)
    by (auto simp: some_upload sample_list)
  then have run: "upload_handler ?R (some_intake 1) (Some ?St) some_form ''k'' ''j2'' (sample_world, up_fs)
      = (intake_response (Inl QueueFull), w', snd (st_delete ?St ''k.apk'' d1))"
    using depth(1) by (simp add: upload_handler_def some_checks some_intake_def) (simp add: webhook_refused_def some_form_def)
  have st: "status (intake_response (Inl QueueFull)) = StatusTooManyRequests" by (simp add: intake_response_def busy_response_def)
  have fresh: "local_object Local_Storage.sample_store up_fs ''k.apk'' = None" by (simp add: local_object_def some_resolve up_fs_def)
  have deletes: "fst (st_delete ?St ''k.apk'' d) = None" for d
    by (auto simp: local_files_store_def ls_Delete_def some_resolve os_Remove_def os_ErrNotExist_def split: option.split fnode.split)
  have "(status (intake_response (Inl QueueFull)) \<noteq> StatusAccepted \<longrightarrow>
      local_object Local_Storage.sample_store (snd (st_delete ?St ''k.apk'' d1)) (upload_key ''k'' some_header) = None) \<and>
    (\<not> local_same Local_Storage.sample_store ''x'' (upload_key ''k'' some_header) \<longrightarrow>
      local_object Local_Storage.sample_store (snd (st_delete ?St ''k.apk'' d1)) ''x'' = local_object Local_Storage.sample_store up_fs ''x'')"
    by (rule upload_refused [OF some_files.clean_store_axioms some_open_file(2) some_sized _ _ _ run])
      (simp_all add: some_key some_ready fresh deletes)
  then show ?thesis using run st by (simp add: some_key)
qed

theorem uploads_bounded_witness:
  "int (length (k_list (server (fst (snd (bulk_handler (mem_redis [] []) (some_intake 1) (Some (local_files_store None)) some_form
     (\<lambda>n. (''k'', ''j2'')) (sample_world, up_fs))))) jobQueueKey)) \<le> 1"
proof -
  let ?h = "bulk_handler (mem_redis [] []) (some_intake 1) (Some (local_files_store None)) some_form (\<lambda>n. (''k'', ''j2'')) (sample_world, up_fs)"
  have "?h = (fst ?h, fst (snd ?h), snd (snd ?h))" by simp
  from uploads_bounded [OF mem_server _ _ disjI2 [OF this]] show ?thesis by (simp add: sample_list)
qed

text \<open>Two files under different keys.\<close>

abbreviation two_files :: "(file_header \<times> string \<times> string) list" where
  "two_files \<equiv> [(some_header, ''k'', ''j2''), (some_header, ''l'', ''j3'')]"

lemma two_ready:
  "local_ready (no_faults ''1'') Local_Storage.sample_store up_fs ''l.apk''" "\<not> local_same Local_Storage.sample_store ''k.apk'' ''l.apk''"
  by code_simp+

theorem bulk_accounts_witness:
  "\<exists>jobIDs errs w' d'. bulk_files (mem_redis [] []) 5 (local_files_store None) some_form two_files ([], []) (sample_world, up_fs) = ((jobIDs, errs), w', d') \<and>
     length jobIDs + length errs = 2"
proof -
  obtain jobIDs errs w' d' where run: "bulk_files (mem_redis [] []) 5 (local_files_store None) some_form two_files ([], []) (sample_world, up_fs)
      = ((jobIDs, errs), w', d')" by (metis surj_pair)
  have "length jobIDs + length errs = length two_files"
    using bulk_accounts [OF mem_server some_files.artifact_store_axioms run] by (simp add: bulk_key_def some_upload two_ready)
  with run show ?thesis by auto
qed

theorem lost_reply_orphans_job_witness:
  "\<exists>w' d'. upload_handler (mem_redis [] []) (some_intake 5) (Some (local_files_store None)) some_form ''k'' ''j2''
       (sample_world\<lparr>net := Reply 0 ## NoReply 1 ## sconst (Reply 0)\<rparr>, up_fs) = (err_response 500 ''Failed to queue job'', w', d') \<and>
     ''j2'' \<in> set (k_list (server w') jobQueueKey) \<and> local_object Local_Storage.sample_store d' ''k.apk'' = None"
proof -
  let ?St = "local_files_store None" and ?w = "sample_world\<lparr>net := Reply 0 ## NoReply 1 ## sconst (Reply 0)\<rparr>"
  obtain d1 where put: "st_put ?St ''k.apk'' (some_file True) 2 up_fs = (None, d1)" using some_put_local by blast
  obtain d2 where del: "st_delete ?St ''k.apk'' d1 = (None, d2)"
    by (cases "st_delete ?St ''k.apk'' d1")
      (auto simp: local_files_store_def ls_Delete_def some_resolve os_Remove_def os_ErrNotExist_def split: option.splits fnode.splits if_splits)
  have "breakers sample_world = None" by (simp add: sample_world_def quiet_world_def)
  then show ?thesis
    using lost_reply_orphans_job [OF mem_server some_files.artifact_store_axioms, of ?w "some_intake 5" some_form some_header "some_file True" up_fs "''k''"
        None d1 d2 "''j2''"] put del
    by (auto simp: some_upload sample_list)
qed

theorem cancelled_upload_leaks_witness:
  "\<exists>w' d'. store_and_enqueue (mem_redis [] []) 1 (local_files_store (Some (Sentinel ''context canceled''))) some_form some_header ''k'' ''j2'' 0 [] (sample_world, up_fs)
     = (Inl QueueFull, w', d') \<and> local_object Local_Storage.sample_store d' ''k.apk'' = Some ''PK''"
proof -
  let ?St = "local_files_store (Some (Sentinel ''context canceled''))"
  obtain d1 where put: "st_put ?St ''k.apk'' (some_file True) 2 up_fs = (None, d1)" using some_put_local by blast
  obtain w' where run: "store_and_enqueue (mem_redis [] []) 1 ?St some_form some_header ''k'' ''j2'' 0 [] (sample_world, up_fs)
      = (Inl QueueFull, w', snd (st_delete ?St ''k.apk'' d1))"
    using intake_full [OF mem_server sample_healthy, of 1 some_header "some_file True" ?St "''k''" up_fs d1 some_form "''j2''"] put
    by (auto simp: some_upload sample_list)
  from cancelled_upload_leaks [OF some_sized _ run [unfolded local_files_store_def]] run show ?thesis
    by (auto simp: some_upload some_file_def local_files_store_def)
qed

theorem unanswered_put_leaks_witness:
  "\<exists>e. store_and_enqueue (mem_redis [] []) 1 \<lparr>st_put = s3_Put mem_service no_waits some_store None, st_delete = s3_Delete mem_service no_waits some_store\<rparr>
      some_form some_header ''k'' ''j2'' 0 [] (sample_world, (Map.empty, [Unanswered]))
    = (Inl (CannotStore e), sample_world, ([(''s3.test'', ''/b/k.apk'') \<mapsto> ''PK''], []))"
proof -
  have url: "objectURL some_store ''k.apk'' = Inr (''s3.test'', ''/b/k.apk'')"
    using trimSpace_printable [of "''k.apk''"] by (simp add: objectURL_def some_store_def printable_def trimPrefix_def)
  have serve: "serve mem_service req (Map.empty, [Unanswered]) = (Inl ''timeout'', [(''s3.test'', ''/b/k.apk'') \<mapsto> ''PK''], [])"
    if "request_for some_store ''PUT'' ''k.apk'' ''PK'' req" for req
    using that url by (auto simp: request_for_def mem_service_def mem_serve_def mem_apply_def)
  have "\<exists>e. store_and_enqueue (mem_redis [] []) 1 \<lparr>st_put = s3_Put mem_service no_waits some_store None, st_delete = s3_Delete mem_service no_waits some_store\<rparr>
      some_form some_header ''k'' ''j2'' 0 [] (sample_world, (Map.empty, [Unanswered]))
    = (Inl (CannotStore e), sample_world, ([(''s3.test'', ''/b/k.apk'') \<mapsto> ''PK''], [])) \<and>
    s3_object some_store mem_object ([(''s3.test'', ''/b/k.apk'') \<mapsto> ''PK''], []) (upload_key ''k'' some_header) = Some (up_data (some_file True))"
  proof (rule unanswered_put_leaks)
    show "objectURL some_store (upload_key ''k'' some_header) = Inr (''s3.test'', ''/b/k.apk'')" by (simp add: some_key url)
    show "serve mem_service req (Map.empty, [Unanswered]) = (Inl ''timeout'', [(''s3.test'', ''/b/k.apk'') \<mapsto> ''PK''], [])"
      if "request_for some_store ''PUT'' (upload_key ''k'' some_header) (up_data (some_file True)) req" for req
      using serve [of req] that by (simp add: some_key some_file_def)
  qed (simp_all add: some_open_file some_sized some_file_def no_waits_def mem_service_def mem_object_def maxS3UploadBytes_def)
  then show ?thesis by blast
qed

end
