(* ===== verification/Spec2Isabelle.thy ===== *)
theory Spec2Isabelle
  imports Reliable_Queue Worker_Laws Secret_Crypto Gate Comparison Precision Detect Auth Rate_Limit Ingest Upload
begin

text \<open>
  \<^bold>\<open>MORF: a verification development\<close>

  MORF is a scanning service for mobile applications, written in Go (sources under \<^verbatim>\<open>src/morf\<close>).  Clients
  upload archives or name them by reference; each becomes a job in a Redis queue.  Workers pop jobs, check
  the archive, unpack and analyse it, filter the findings, store the result and notify a webhook.  Around
  this core stand API keys and rate limits, the store of artifacts, the editable detection patterns, a
  metadata cache, the comparison of two scans and a gate for builds.

  \<^bold>\<open>Conventions.\<close>  A Go string is a byte sequence, here an Isabelle string.  Errors are values of
  \<open>go_error\<close> and fallible functions return a sum with the error on the left.  Machine integers are words
  where the code can overflow, otherwise integers with the bounds written out.  Definitions bear the names
  of the functions they translate; a helper that translates a part of a function is named after its role.
  Code outside the repository is a parameter of the definitions that use it, and the laws they rely on
  are the assumptions of a locale.  The Go standard library is modelled as far as it is used.

  \<^bold>\<open>Language and library.\<close>
  \<^item> \<open>Prelude\<close>: strings, numbers and their printing, errors, association lists.
  \<^item> \<open>Go_Time\<close>, \<open>Go_Path\<close>, \<open>Go_Utf8\<close>, \<open>Go_Float\<close>, \<open>Json\<close>, \<open>Json_Struct\<close>: RFC 3339 times, slash paths, UTF-8,
    JSON numbers, the JSON printer and reader with their round trip, decoding into structs.
  \<^item> \<open>Go_Crypto\<close>: SHA-256, HMAC, AES-256-GCM, hexadecimal and base64.
  \<^item> \<open>Net_Addr\<close>: addresses of package net, their parser and their classes; the guard against internal
    addresses is the set of CIDR blocks it is meant to be.
  \<^item> \<open>Http\<close>: requests, contexts and responses as the handlers see them.

  \<^bold>\<open>Queue and breaker.\<close>
  \<^item> \<open>Circuit_Breaker\<close> (utils/circuitbreaker.go): state, admission and settlement, and the machine of any
    number of concurrent callers, with its invariant and when it opens.
  \<^item> \<open>Redis\<close>: the commands the code issues, as a record; the locale \<open>redis_server\<close> states what they do and is
    interpreted on a store in memory.  \<open>World\<close>: the server, a network that may lose, duplicate or fail
    commands, the clock and the breakers, with three calculi (\<open>keeps\<close>, \<open>wp\<close>, \<open>hoare\<close>): what an operation
    preserves under every network, and what it does in a healthy one.
  \<^item> \<open>Scan_Job\<close> (models/ScanJob.go): the record and its stored form.  \<open>Job_Queue\<close> (queue/queue.go,
    queue/reaper.go): every operation; \<open>Queue_Laws\<close>: their effects on each branch, the queue limit, order,
    cancellation, leases, status sets, dead letters, reaping.  \<open>Reliable_Queue\<close>: all interleavings of
    producers, workers, users and reapers as a step relation; no job is lost or doubled.

  \<^bold>\<open>Worker and analysis.\<close>
  \<^item> \<open>Retry\<close> (utils/retry.go), \<open>Zip_Guard\<close> (utils/zipbomb.go), \<open>Run_Command\<close> (utils/command.go).
  \<^item> \<open>Scan_Stage\<close>, \<open>Worker\<close> (worker/worker.go, utils/jobcontext.go): the stages of a scan, the handling of one
    job and the loop.  \<open>Worker_Laws\<close>: the locale \<open>scan_contract\<close>, processing refines an abstract transition
    of a job, retries end, and a job is acknowledged only after its transition was written.
  \<^item> \<open>Pattern_Store\<close> (utils/pattern.go, utils/directory_parser.go; YAML behind the locale \<open>yaml_v2\<close>),
    \<open>Detect\<close> (detect/detect.go), \<open>Precision\<close> (detect/precision.go), \<open>Secret_Model\<close>, \<open>Secret_Crypto\<close>
    (crypto/secretcrypto.go), \<open>Cache\<close> (utils/cache.go), \<open>Comparison\<close> (utils/comparison.go), \<open>Gate\<close>
    (gate/gate.go).

  \<^bold>\<open>The edge of the service.\<close>
  \<^item> \<open>Auth\<close> (auth/middleware.go, models/APIKey.go): validation through a cache, with every interleaving of
    requests, evictions and revocations as a step relation; how long a revoked key can live; the record
    of use; scopes.  The table of keys is the locale \<open>key_store\<close>.
  \<^item> \<open>Rate_Limit\<close> (auth/middleware.go, router/middleware.go): the limiter of each key and the sharded limiter
    of addresses, which implements a single map; the bucket is the locale \<open>token_bucket\<close>.
  \<^item> \<open>Local_Storage\<close> (storage/local.go, storage/storage.go): a file system on which every call may fail;
    keys stay below the base directory, and a write happens entirely or not at all.
  \<^item> \<open>Webhook\<close> (utils/webhook.go, models/Webhook.go): target checks, dialling, signatures and retries against
    an arbitrary outside world.
  \<^item> \<open>Config\<close> (config/config.go): reading the environment with the defaults and ranges of each setting, and what
    the summary line shows of secrets.
  \<^item> \<open>Ingest\<close> (the files of morf/ingest): references and their schemes, the registry, and fetching from a file, over
    HTTPS and from S3: a fetch gives a whole file within the limit or leaves nothing, and a download comes
    from no internal address.
  \<^item> \<open>S3_Storage\<close> (storage/s3.go, storage/sigv4.go): signed requests and their retries against a service that
    may lose answers (the locale \<open>object_server\<close>); an upload stores its bytes exactly; the budget of
    concurrent uploads as a step relation.
  \<^item> \<open>Upload\<close> (the upload and bulk-upload handlers of router/routers.go): the checks, the store and the queue put
    together.  The handlers rely on the locale \<open>artifact_store\<close>, which both backends provide; the local one
    also provides \<open>clean_store\<close>, whose failed writes leave no trace.  An accepted upload has its bytes
    stored and its job published, a refused one leaves nothing, and where this promise breaks is stated too.


  \<^bold>\<open>Bounds.\<close>  Every function is total.  Loops recurse on their data or under a measure; where the code loops
  for as long as another party answers (pages of a Redis scan, retries, polling), the recursion is bounded
  by that party's finite list of answers or by the configured maximum, and the theorems say when the
  loop ends.  No theorem is about fuel that might run out unnoticed.

  \<^bold>\<open>Not modelled.\<close>  The readers of the binary formats (morf/apk, morf/ios): manifests, dex, property lists and
  Mach-O enter a scan as parameters of its stages.  The database (morf/db, an ORM over MySQL), the probes
  of credential providers (morf/verify), the OSV service and the MCP front end
  exchange requests with services whose answers are theirs.  The other routes (morf/router/routers.go),
  the commands (morf/cmd) and the start-up (main.go) bind requests and flags to the operations above and to
  database queries.  Of the environment's helpers those for floats and durations are left out; their users take
  the values as parameters.  Metrics, traces and log lines have no influence on results.
\<close>

end
